(* ===== verification/Roq_Double.thy ===== *)
theory Roq_Double
  imports Complex_Main "HOL-Library.Log_Nat"
begin

text \<open>
  The C++ type \<open>double\<close>: IEEE 754 binary64 with round-to-nearest-even. A finite value is
  a rational; every arithmetic operation computes the exact rational result and rounds it
  (\<open>rnd\<close>), and a rounded magnitude of \<open>2 ^ 1024\<close> or more is an infinity. NaN is unordered
  and absorbing, as in C++. The sign of a zero is not represented: the sources divide only by
  the constant 3 and by sums of quantities, so nothing they compute observes it.

  The section on rounding shows that \<open>rnd\<close> is monotone, odd, and the identity on the
  integers up to \<open>2 ^ 53\<close>; the components use these three facts and never unfold \<open>rnd\<close>.
\<close>

section \<open>Rounding\<close>

text \<open>The exponent of the leading bit of a positive rational.\<close>

definition ilog2 :: "rat \<Rightarrow> int" where
  "ilog2 x = (let (p, q) = quotient_of x;
                  k = int (floorlog 2 (nat p)) - int (floorlog 2 (nat q))
              in if 2 powi k \<le> x then k else k - 1)"

text \<open>Round half to even, from rationals to integers.\<close>

definition rne :: "rat \<Rightarrow> int" where
  "rne y = (let f = \<lfloor>y\<rfloor>; d = y - of_int f
            in if d < 1 / 2 then f else if 1 / 2 < d then f + 1 else if even f then f else f + 1)"

text \<open>The distance of neighbouring doubles around \<open>x\<close>: 52 bits after the leading one,
  and never finer than the subnormal spacing.\<close>

definition quantum :: "rat \<Rightarrow> rat" where
  "quantum x = 2 powi (max (ilog2 \<bar>x\<bar> - 52) (- 1074))"

definition rnd :: "rat \<Rightarrow> rat" where
  "rnd x = (if x = 0 then 0 else of_int (rne (x / quantum x)) * quantum x)"

lemma floorlog_bracket:
  assumes "0 < p"
  shows "(2::rat) powi (int (floorlog 2 (nat p)) - 1) \<le> of_int p"
    and "of_int p < (2::rat) powi int (floorlog 2 (nat p))"
proof -
  let ?n = "floorlog 2 (nat p)"
  have b: "2 ^ (?n - 1) \<le> nat p \<and> nat p < 2 ^ ?n"
    using assms floorlog_bounds [of "nat p" 2] by simp
  have pos: "0 < ?n" using assms by (simp add: floorlog_eq_zero_iff not_le [symmetric])
  from b have l: "(2::int) ^ (?n - 1) \<le> p" and u: "p < (2::int) ^ ?n"
    using assms by (auto simp: le_nat_iff nat_less_iff)
  from l have "of_int ((2::int) ^ (?n - 1)) \<le> (of_int p :: rat)" by (simp only: of_int_le_iff)
  moreover have "int ?n - 1 = int (?n - 1)" using pos by simp
  ultimately show "(2::rat) powi (int ?n - 1) \<le> of_int p"
    by (simp add: power_int_of_nat del: of_nat_diff)
  from u have "(of_int p :: rat) < of_int ((2::int) ^ ?n)" by (simp only: of_int_less_iff)
  then show "of_int p < (2::rat) powi int ?n" by (simp add: power_int_of_nat)
qed

lemma ilog2_bracket:
  assumes "0 < x"
  shows "2 powi (ilog2 x) \<le> x" and "x < 2 powi (ilog2 x + 1)"
proof -
  obtain p q where pq: "quotient_of x = (p, q)" by force
  have q: "0 < q" using quotient_of_denom_pos [OF pq] .
  have x: "x = of_int p / of_int q" using quotient_of_div [OF pq] .
  have p: "0 < p" using assms q x by (simp add: zero_less_divide_iff)
  define a where "a = int (floorlog 2 (nat p))"
  define b where "b = int (floorlog 2 (nat q))"
  have P: "(2::rat) powi (a - 1) \<le> of_int p" "of_int p < (2::rat) powi a"
    using floorlog_bracket [OF p] by (simp_all add: a_def)
  have Q: "(2::rat) powi (b - 1) \<le> of_int q" "of_int q < (2::rat) powi b"
    using floorlog_bracket [OF q] by (simp_all add: b_def)
  have lo: "2 powi (a - b - 1) \<le> x"
  proof -
    have "(2::rat) powi (a - b - 1) * of_int q \<le> 2 powi (a - b - 1) * 2 powi b"
      using Q(2) by (intro mult_left_mono) auto
    also have "\<dots> = 2 powi (a - 1)" by (simp add: power_int_add [symmetric])
    also have "\<dots> \<le> of_int p" by (rule P(1))
    finally show ?thesis using q x by (simp add: pos_le_divide_eq)
  qed
  have hi: "x < 2 powi (a - b + 1)"
  proof -
    have "of_int p < (2::rat) powi a" by (rule P(2))
    also have "\<dots> = 2 powi (a - b + 1) * 2 powi (b - 1)" by (simp add: power_int_add [symmetric])
    also have "\<dots> \<le> 2 powi (a - b + 1) * of_int q" using Q(1) by (intro mult_left_mono) auto
    finally show ?thesis using q x by (simp add: pos_divide_less_eq)
  qed
  have il: "ilog2 x = (if 2 powi (a - b) \<le> x then a - b else a - b - 1)"
    by (simp add: ilog2_def pq a_def b_def)
  show "2 powi (ilog2 x) \<le> x" using lo by (simp add: il)
  show "x < 2 powi (ilog2 x + 1)" using hi by (auto simp: il)
qed

lemma powi2_less_iff: "((2::rat) powi m < 2 powi n) = (m < n)"
  using power_int_strict_increasing [of m n "2::rat"] power_int_increasing [of n m "2::rat"]
  by (auto simp: not_less [symmetric])

lemma powi2_le_iff: "((2::rat) powi m \<le> 2 powi n) = (m \<le> n)"
  using powi2_less_iff [of n m] by (simp add: not_less [symmetric])

lemma ilog2_unique:
  assumes "2 powi e \<le> x" and "x < 2 powi (e + 1)"
  shows "ilog2 x = e"
proof -
  have "0 < x" using assms(1) by (rule less_le_trans [rotated]) simp
  note br = ilog2_bracket [OF this]
  have "(2::rat) powi e < 2 powi (ilog2 x + 1)" using assms(1) br(2) by linarith
  moreover have "(2::rat) powi (ilog2 x) < 2 powi (e + 1)" using assms(2) br(1) by linarith
  ultimately show ?thesis by (simp add: powi2_less_iff)
qed

lemma ilog2_mono: "0 < x \<Longrightarrow> x \<le> y \<Longrightarrow> ilog2 x \<le> ilog2 y"
proof -
  assume "0 < x" "x \<le> y"
  then have "(2::rat) powi ilog2 x < 2 powi (ilog2 y + 1)"
    using ilog2_bracket(1) [of x] ilog2_bracket(2) [of y] by linarith
  then show ?thesis by (simp add: powi2_less_iff)
qed

subsection \<open>Rounding to an integer\<close>

lemma rne_of_int [simp]: "rne (of_int n) = n"
  by (simp add: rne_def)

lemma rne_bounds: "\<lfloor>y\<rfloor> \<le> rne y" "rne y \<le> \<lfloor>y\<rfloor> + 1"
  by (auto simp: rne_def Let_def)

lemma rne_mono:
  assumes "x \<le> y"
  shows "rne x \<le> rne y"
proof (cases "\<lfloor>x\<rfloor> = \<lfloor>y\<rfloor>")
  case True
  then show ?thesis using assms by (auto simp: rne_def Let_def)
next
  case False
  then have "\<lfloor>x\<rfloor> + 1 \<le> \<lfloor>y\<rfloor>" using floor_mono [OF assms] by simp
  then show ?thesis using rne_bounds(2) [of x] rne_bounds(1) [of y] by linarith
qed

lemma rne_minus: "rne (- y) = - rne y"
proof (cases "y = of_int \<lfloor>y\<rfloor>")
  case True
  then have "rne (- y) = rne (of_int (- \<lfloor>y\<rfloor>))" by simp
  then show ?thesis using True rne_of_int [of "\<lfloor>y\<rfloor>"] by (simp del: of_int_minus)
next
  case False
  let ?f = "\<lfloor>y\<rfloor>"
  have fl: "\<lfloor>- y\<rfloor> = - ?f - 1"
  proof (rule floor_unique)
    show "of_int (- ?f - 1) \<le> - y" using floor_correct [of y] by simp
    have "of_int ?f < y" using False floor_correct [of y] by linarith
    then show "- y < of_int (- ?f - 1) + 1" by simp
  qed
  show ?thesis by (auto simp: rne_def Let_def fl)
qed

subsection \<open>Rounding to a double\<close>

lemma quantum_pos [simp]: "0 < quantum x"
  by (simp add: quantum_def)

lemma quantum_minus [simp]: "quantum (- x) = quantum x"
  by (simp add: quantum_def)

lemma rnd_0 [simp]: "rnd 0 = 0"
  by (simp add: rnd_def)

lemma rnd_minus: "rnd (- x) = - rnd x"
  by (simp add: rnd_def rne_minus)

lemma rnd_le_multiple:
  assumes "0 < x" and "x \<le> of_int n * quantum x"
  shows "rnd x \<le> of_int n * quantum x"
proof -
  have "x / quantum x \<le> of_int n" using assms(2) by (simp add: pos_divide_le_eq)
  from rne_mono [OF this] have "rne (x / quantum x) \<le> n" by simp
  then show ?thesis using assms(1) by (simp add: rnd_def mult_right_mono)
qed

lemma rnd_ge_multiple:
  assumes "0 < x" and "of_int n * quantum x \<le> x"
  shows "of_int n * quantum x \<le> rnd x"
proof -
  have "of_int n \<le> x / quantum x" using assms(2) by (simp add: pos_le_divide_eq)
  from rne_mono [OF this] have "n \<le> rne (x / quantum x)" by simp
  then show ?thesis using assms(1) by (simp add: rnd_def mult_right_mono)
qed

lemma powi2_multiple:
  assumes "m \<le> e"
  shows "(2::rat) powi e = of_int (2 ^ nat (e - m)) * 2 powi m"
proof -
  have "(2::rat) powi e = 2 powi (e - m) * 2 powi m"
    by (simp add: power_int_add [symmetric])
  moreover have "(2::rat) powi (e - m) = 2 ^ nat (e - m)"
    using assms by (simp add: power_int_def)
  ultimately show ?thesis by simp
qed

lemma rnd_nonneg: "0 \<le> x \<Longrightarrow> 0 \<le> rnd x"
  using rnd_ge_multiple [of x 0] by (cases "x = 0") simp_all

lemma rnd_mono_pos:
  assumes "0 < x" "x \<le> y"
  shows "rnd x \<le> rnd y"
proof (cases "quantum x = quantum y")
  case True
  have "x / quantum x \<le> y / quantum x"
    using assms less_imp_le [OF quantum_pos] by (intro divide_right_mono)
  then have "rne (x / quantum x) \<le> rne (y / quantum x)" by (rule rne_mono)
  then show ?thesis using assms True by (simp add: rnd_def mult_right_mono)
next
  case False
  let ?ex = "max (ilog2 x - 52) (- 1074)" and ?ey = "max (ilog2 y - 52) (- 1074)"
  have y: "0 < y" using assms by linarith
  have q: "quantum x = 2 powi ?ex" "quantum y = 2 powi ?ey" using assms y by (simp_all add: quantum_def)
  have le: "ilog2 x \<le> ilog2 y" using assms by (rule ilog2_mono)
  have "?ex \<noteq> ?ey" using False q by metis
  then have lt: "?ex < ?ey" using le by linarith
  then have L: "ilog2 x < ilog2 y" "?ey = ilog2 y - 52" by linarith+
  define B where "B = (2::rat) powi ilog2 y"
  have xB: "x \<le> B"
  proof -
    have "x < 2 powi (ilog2 x + 1)" using ilog2_bracket(2) assms by blast
    also have "\<dots> \<le> B" using L by (simp add: B_def powi2_le_iff)
    finally show ?thesis by simp
  qed
  have "B = of_int (2 ^ nat (ilog2 y - ?ex)) * quantum x"
    unfolding B_def q(1) using lt L by (intro powi2_multiple) auto
  from this xB have "rnd x \<le> B" using rnd_le_multiple [OF assms(1)] by metis
  moreover have "B = of_int (2 ^ nat (ilog2 y - ?ey)) * quantum y"
    unfolding B_def q(2) using L by (intro powi2_multiple) auto
  then have "B \<le> rnd y" using rnd_ge_multiple [OF y] ilog2_bracket(1) [OF y] unfolding B_def by metis
  ultimately show ?thesis by linarith
qed

lemma rnd_mono:
  assumes "x \<le> y"
  shows "rnd x \<le> rnd y"
proof (cases "0 < x")
  case True
  then show ?thesis using assms by (rule rnd_mono_pos)
next
  case x: False
  show ?thesis
  proof (cases "y < 0")
    case True
    then have "rnd (- y) \<le> rnd (- x)" using assms by (intro rnd_mono_pos) auto
    then show ?thesis by (simp add: rnd_minus)
  next
    case False
    then have "0 \<le> rnd y" by (simp add: rnd_nonneg)
    moreover have "0 \<le> rnd (- x)" using x by (intro rnd_nonneg) simp
    ultimately show ?thesis by (simp add: rnd_minus)
  qed
qed

lemma rnd_le_0: "x \<le> 0 \<Longrightarrow> rnd x \<le> 0"
  using rnd_mono [of x 0] by simp

text \<open>A value with at most 53 significant bits is its own rounding.\<close>

lemma rnd_multiple:
  assumes "x = of_int k * quantum x"
  shows "rnd x = x"
proof -
  have "x / quantum x = of_int k"
    using assms quantum_pos [of x] by (metis less_irrefl nonzero_mult_div_cancel_right)
  then have "rne (x / quantum x) = k" by simp
  then show ?thesis using assms by (auto simp: rnd_def)
qed

lemma rnd_dyadic_pos:
  assumes "0 < a" "a \<le> 2 ^ 53" "- 1074 \<le> e"
  shows "rnd (of_int a * 2 powi e) = of_int a * 2 powi e"
proof -
  define x where "x = (of_int a * 2 powi e :: rat)"
  define m where "m = max (ilog2 x - 52) (- 1074)"
  have x: "0 < x" using assms(1) by (simp add: x_def)
  have q: "quantum x = 2 powi m" using x by (simp add: quantum_def m_def)
  have top: "x \<le> 2 powi (53 + e)"
  proof -
    have "(of_int a :: rat) \<le> 2 ^ 53"
      using assms(2) by (metis of_int_le_iff of_int_numeral of_int_power)
    then have "x \<le> 2 ^ 53 * 2 powi e" unfolding x_def by (intro mult_right_mono) auto
    then show ?thesis by (simp add: power_int_add)
  qed
  have "\<exists>k. x = of_int k * quantum x"
  proof (cases "m \<le> e")
    case True
    have "x = of_int (a * 2 ^ nat (e - m)) * 2 powi m"
      using powi2_multiple [OF True] by (simp add: x_def)
    then have "x = of_int (a * 2 ^ nat (e - m)) * quantum x" using q by metis
    then show ?thesis by blast
  next
    case False
    then have "53 + e \<le> ilog2 x" "m \<le> ilog2 x" using assms(3) by (auto simp: m_def)
    then have "(2::rat) powi (53 + e) \<le> 2 powi (ilog2 x)" by (simp add: powi2_le_iff)
    then have "x = 2 powi (ilog2 x)" using top ilog2_bracket(1) [OF x] by linarith
    then have "x = of_int (2 ^ nat (ilog2 x - m)) * quantum x"
      using powi2_multiple [OF \<open>m \<le> ilog2 x\<close>] q by metis
    then show ?thesis by blast
  qed
  then show ?thesis using rnd_multiple unfolding x_def by blast
qed

lemma rnd_dyadic:
  assumes "\<bar>n\<bar> \<le> 2 ^ 53" "- 1074 \<le> e"
  shows "rnd (of_int n * 2 powi e) = of_int n * 2 powi e"
proof (cases n "0 :: int" rule: linorder_cases)
  case less
  then have "rnd (of_int (- n) * 2 powi e) = of_int (- n) * 2 powi e"
    using assms by (intro rnd_dyadic_pos) auto
  then show ?thesis by (simp add: rnd_minus)
next
  case greater
  then show ?thesis using assms by (intro rnd_dyadic_pos) auto
qed simp

lemma rnd_of_int: "\<bar>n\<bar> \<le> 2 ^ 53 \<Longrightarrow> rnd (of_int n) = of_int n"
  using rnd_dyadic [of n 0] by simp

lemma rnd_half_of_int: "\<bar>n\<bar> \<le> 2 ^ 53 \<Longrightarrow> rnd (of_int n / 2) = of_int n / 2"
  using rnd_dyadic [of n "- 1"] by (simp add: power_int_minus)

section \<open>The type and its operations\<close>

datatype double = NaN | Infty bool | Fin rat

text \<open>\<open>Infty True\<close> is positive infinity. A rounded magnitude of \<open>2 ^ 1024\<close> overflows.\<close>

definition dbl_overflow :: rat where
  "dbl_overflow = 2 ^ 1024"

definition to_double :: "rat \<Rightarrow> double" where
  "to_double x = (if dbl_overflow \<le> rnd x then Infty True
                  else if rnd x \<le> - dbl_overflow then Infty False else Fin (rnd x))"

lemma dbl_overflow_pos [simp]: "0 < dbl_overflow"
  by (simp add: dbl_overflow_def)

fun isnan :: "double \<Rightarrow> bool" where
  "isnan NaN = True"
| "isnan (Infty b) = False"
| "isnan (Fin x) = False"

fun dneg :: "double \<Rightarrow> double" where
  "dneg NaN = NaN"
| "dneg (Infty b) = Infty (\<not> b)"
| "dneg (Fin x) = Fin (- x)"

fun dadd :: "double \<Rightarrow> double \<Rightarrow> double" where
  "dadd NaN y = NaN"
| "dadd x NaN = NaN"
| "dadd (Infty a) (Infty b) = (if a = b then Infty a else NaN)"
| "dadd (Infty a) (Fin y) = Infty a"
| "dadd (Fin x) (Infty b) = Infty b"
| "dadd (Fin x) (Fin y) = to_double (x + y)"

definition dsub :: "double \<Rightarrow> double \<Rightarrow> double" where
  "dsub x y = dadd x (dneg y)"

fun dmul :: "double \<Rightarrow> double \<Rightarrow> double" where
  "dmul NaN y = NaN"
| "dmul x NaN = NaN"
| "dmul (Infty a) (Infty b) = Infty (a = b)"
| "dmul (Infty a) (Fin y) = (if y = 0 then NaN else Infty (a = (0 < y)))"
| "dmul (Fin x) (Infty b) = (if x = 0 then NaN else Infty (b = (0 < x)))"
| "dmul (Fin x) (Fin y) = to_double (x * y)"

fun ddiv :: "double \<Rightarrow> double \<Rightarrow> double" where
  "ddiv NaN y = NaN"
| "ddiv x NaN = NaN"
| "ddiv (Infty a) (Infty b) = NaN"
| "ddiv (Infty a) (Fin y) = Infty (a = (0 \<le> y))"
| "ddiv (Fin x) (Infty b) = Fin 0"
| "ddiv (Fin x) (Fin y) =
     (if y = 0 then (if x = 0 then NaN else Infty (0 < x)) else to_double (x / y))"

text \<open>The C++ comparisons: false whenever an operand is NaN.\<close>

fun dlt :: "double \<Rightarrow> double \<Rightarrow> bool" where
  "dlt NaN y = False"
| "dlt x NaN = False"
| "dlt (Infty a) (Infty b) = (\<not> a \<and> b)"
| "dlt (Infty a) (Fin y) = (\<not> a)"
| "dlt (Fin x) (Infty b) = b"
| "dlt (Fin x) (Fin y) = (x < y)"

abbreviation (input) dgt :: "double \<Rightarrow> double \<Rightarrow> bool" where
  "dgt x y \<equiv> dlt y x"

fun dle :: "double \<Rightarrow> double \<Rightarrow> bool" where
  "dle NaN y = False"
| "dle x NaN = False"
| "dle (Infty a) (Infty b) = (a \<longrightarrow> b)"
| "dle (Infty a) (Fin y) = (\<not> a)"
| "dle (Fin x) (Infty b) = b"
| "dle (Fin x) (Fin y) = (x \<le> y)"

fun is_finite :: "double \<Rightarrow> bool" where
  "is_finite (Fin x) = True"
| "is_finite d = False"

lemma isnan_iff: "isnan d \<longleftrightarrow> d = NaN"
  by (cases d) simp_all

lemma dlt_irrefl [simp]: "\<not> dlt x x"
  by (cases x) simp_all

lemma dlt_trans: "dlt x y \<Longrightarrow> dlt y z \<Longrightarrow> dlt x z"
  by (cases x; cases y; cases z) auto

lemma dlt_asym: "dlt x y \<Longrightarrow> \<not> dlt y x"
  using dlt_trans dlt_irrefl by blast

lemma dle_trans: "dle x y \<Longrightarrow> dle y z \<Longrightarrow> dle x z"
  by (cases x; cases y; cases z) auto

lemma dle_not_nan: "dle x y \<Longrightarrow> x \<noteq> NaN \<and> y \<noteq> NaN"
  by (cases x; cases y) simp_all

lemma to_double_not_nan [simp]: "to_double x \<noteq> NaN"
  by (simp add: to_double_def)

lemma to_double_mono: "x \<le> y \<Longrightarrow> dle (to_double x) (to_double y)"
  using rnd_mono [of x y] dbl_overflow_pos by (auto simp: to_double_def)

lemma to_double_of_int: "\<bar>n\<bar> \<le> 2 ^ 53 \<Longrightarrow> to_double (of_int n) = Fin (of_int n)"
proof -
  assume n: "\<bar>n\<bar> \<le> 2 ^ 53"
  then have "\<bar>of_int n :: rat\<bar> \<le> 2 ^ 53"
    by (metis of_int_abs of_int_le_iff of_int_numeral of_int_power)
  also have "(2::rat) ^ 53 < dbl_overflow"
    unfolding dbl_overflow_def by (rule power_strict_increasing) simp_all
  finally have "\<bar>of_int n :: rat\<bar> < dbl_overflow" .
  then show ?thesis using rnd_of_int [OF n] by (auto simp: to_double_def abs_less_iff)
qed

lemma to_double_numeral [simp]:
  "(numeral k :: int) \<le> 2 ^ 53 \<Longrightarrow> to_double (numeral k) = Fin (numeral k)"
  "(numeral k :: int) \<le> 2 ^ 53 \<Longrightarrow> to_double (- numeral k) = Fin (- numeral k)"
  using to_double_of_int [of "numeral k"] to_double_of_int [of "- numeral k"] by simp_all

lemma to_double_0_1 [simp]:
  "to_double 0 = Fin 0" "to_double 1 = Fin 1" "to_double (- 1) = Fin (- 1)"
  using to_double_of_int [of 0] to_double_of_int [of 1] to_double_of_int [of "- 1"] by simp_all

lemma to_double_half:
  assumes "\<bar>n\<bar> \<le> 2 ^ 53"
  shows "to_double (of_int n / 2) = Fin (of_int n / 2)"
proof -
  have "\<bar>of_int n :: rat\<bar> \<le> 2 ^ 53"
    using assms by (metis of_int_abs of_int_le_iff of_int_numeral of_int_power)
  moreover have "(2::rat) ^ 53 < dbl_overflow"
    unfolding dbl_overflow_def by (rule power_strict_increasing) simp_all
  ultimately have "\<bar>of_int n / 2 :: rat\<bar> < dbl_overflow" by simp
  then show ?thesis using rnd_half_of_int [OF assms] by (auto simp: to_double_def abs_less_iff)
qed

lemma to_double_numeral_half [simp]:
  "to_double (1 / 2) = Fin (1 / 2)"
  "(numeral k :: int) \<le> 2 ^ 53 \<Longrightarrow> to_double (numeral k / 2) = Fin (numeral k / 2)"
  using to_double_half [of 1] to_double_half [of "numeral k"] by simp_all

text \<open>Addition and subtraction of integers of at most 53 bits are exact.\<close>

definition dint :: "int \<Rightarrow> double" where
  "dint n = Fin (of_int n)"

lemma dadd_dint: "\<bar>m + n\<bar> \<le> 2 ^ 53 \<Longrightarrow> dadd (dint m) (dint n) = dint (m + n)"
  using to_double_of_int [of "m + n"] by (simp add: dint_def)

lemma dsub_dint: "\<bar>m - n\<bar> \<le> 2 ^ 53 \<Longrightarrow> dsub (dint m) (dint n) = dint (m - n)"
  using to_double_of_int [of "m - n"] by (simp add: dint_def dsub_def)

text \<open>Addition is monotone in both arguments, wherever both sums are numbers.\<close>

lemma to_double_le_top [simp]: "dle (to_double x) (Infty True)"
  by (simp add: to_double_def)

lemma to_double_ge_bot [simp]: "dle (Infty False) (to_double x)"
  by (simp add: to_double_def)

lemma dadd_mono:
  assumes "dle x x'" "dle y y'" "dadd x y \<noteq> NaN" "dadd x' y' \<noteq> NaN"
  shows "dle (dadd x y) (dadd x' y')"
  using assms
  by (cases x; cases y; cases x'; cases y')
    (auto intro!: to_double_mono simp: add_mono split: if_splits)

lemma dmul_mono_left:
  assumes "0 \<le> a" "dle x y" "dmul (Fin a) x \<noteq> NaN" "dmul (Fin a) y \<noteq> NaN"
  shows "dle (dmul (Fin a) x) (dmul (Fin a) y)"
  using assms
  by (cases x; cases y) (auto intro!: to_double_mono simp: mult_left_mono split: if_splits)

lemma dadd_not_nanD: "dadd x y \<noteq> NaN \<Longrightarrow> x \<noteq> NaN \<and> y \<noteq> NaN"
  by (cases x; cases y) simp_all

lemma dadd_Fin_not_nan [simp]: "dadd (Fin x) (Fin y) \<noteq> NaN"
  by simp

lemma dadd_nonneg:
  "0 \<le> x \<Longrightarrow> 0 \<le> y \<Longrightarrow> dle (Fin 0) (dadd (Fin x) (Fin y))"
  using to_double_mono [of 0 "x + y"] to_double_of_int [of 0] by simp

text \<open>Far from the overflow threshold, rounding stays finite and keeps bounds and signs.\<close>

lemma rnd_power2: "k \<le> 1023 \<Longrightarrow> rnd (2 ^ k) = 2 ^ k" "k \<le> 1023 \<Longrightarrow> rnd (- (2 ^ k)) = - (2 ^ k)"
  using rnd_dyadic [of 1 "int k"] rnd_dyadic [of "- 1" "int k"] by (simp_all add: power_int_def)

lemma to_double_bound:
  assumes "\<bar>x\<bar> \<le> 2 ^ k" "k \<le> 1023"
  shows "\<exists>y. to_double x = Fin y \<and> \<bar>y\<bar> \<le> 2 ^ k \<and> (0 \<le> x \<longrightarrow> 0 \<le> y)"
proof -
  have b: "rnd x \<le> 2 ^ k" "- (2 ^ k) \<le> rnd x"
    using rnd_mono [of x "2 ^ k"] rnd_mono [of "- (2 ^ k)" x] rnd_power2 [OF assms(2)] assms(1) by (simp_all add: abs_le_iff)
  have "(2::rat) ^ k < dbl_overflow"
    unfolding dbl_overflow_def using assms(2) by (intro power_strict_increasing) simp_all
  then have "to_double x = Fin (rnd x)" using b by (simp add: to_double_def)
  moreover have "0 \<le> rnd x" if "0 \<le> x" using rnd_mono [OF that] rnd_dyadic [of 0 0] by simp
  ultimately show ?thesis using b by (simp add: abs_le_iff)
qed

text \<open>Two numbers with two neighbouring multiples of \<open>2 powi e\<close> between them stay apart when rounded.\<close>

lemma rnd_less:
  assumes "x \<le> of_int n * 2 powi e" "of_int (n + 1) * 2 powi e \<le> y"
    and "\<bar>n\<bar> < 2 ^ 53" "- 1074 \<le> e"
  shows "rnd x < rnd y"
proof -
  have "\<bar>n + 1\<bar> \<le> 2 ^ 53" "\<bar>n\<bar> \<le> 2 ^ 53" using assms(3) by linarith+
  then have fixed: "rnd (of_int (n + 1) * 2 powi e) = of_int (n + 1) * 2 powi e"
      "rnd (of_int n * 2 powi e) = of_int n * 2 powi e"
    using assms(4) rnd_dyadic by blast+
  have "rnd x \<le> of_int n * 2 powi e" using rnd_mono [OF assms(1)] fixed(2) by simp
  also have "\<dots> < of_int (n + 1) * 2 powi e" by simp
  also have "\<dots> \<le> rnd y" using rnd_mono [OF assms(2)] fixed(1) by simp
  finally show ?thesis .
qed

section \<open>The values of the type\<close>

text \<open>A finite value of the type is one that rounding keeps, below the overflow threshold. Rounding
  gives such values, so every operation does.\<close>

fun is_double :: "double \<Rightarrow> bool" where
  "is_double (Fin x) \<longleftrightarrow> rnd x = x \<and> \<bar>x\<bar> < dbl_overflow"
| "is_double d = True"

lemma rne_le_of_int: "y \<le> of_int n \<Longrightarrow> rne y \<le> n"
  using rne_mono [of y "of_int n"] by simp

lemma rnd_mantissa:
  assumes "0 < x"
  shows "0 \<le> rne (x / quantum x) \<and> rne (x / quantum x) \<le> 2 ^ 53"
proof -
  define m where "m = max (ilog2 x - 52) (- 1074)"
  have q: "quantum x = 2 powi m" using assms by (simp add: quantum_def m_def)
  have "x \<le> 2 powi (ilog2 x + 1)" using ilog2_bracket(2) [OF assms] by simp
  also have "\<dots> \<le> 2 powi (53 + m)" by (simp add: powi2_le_iff m_def)
  also have "\<dots> = 2 ^ 53 * quantum x" by (simp add: q power_int_add)
  finally have "x / quantum x \<le> of_int (2 ^ 53)" by (simp add: pos_divide_le_eq)
  moreover have "of_int 0 \<le> x / quantum x" using assms less_imp_le [OF quantum_pos] by simp
  ultimately show ?thesis
    using rne_le_of_int [of "x / quantum x" "2 ^ 53"] rne_mono [of "of_int 0" "x / quantum x"] rne_of_int [of 0] by simp
qed

lemma rnd_rnd [simp]: "rnd (rnd x) = rnd x"
proof -
  have pos: "rnd (rnd y) = rnd y" if "0 < y" for y
  proof -
    have "\<bar>rne (y / quantum y)\<bar> \<le> 2 ^ 53" using rnd_mantissa [OF that] by simp
    moreover have "quantum y = 2 powi (max (ilog2 y - 52) (- 1074))" using that by (simp add: quantum_def)
    ultimately show ?thesis using rnd_dyadic [of "rne (y / quantum y)"] that by (simp add: rnd_def [of y])
  qed
  show ?thesis
  proof (cases x "0 :: rat" rule: linorder_cases)
    case less
    then show ?thesis using pos [of "- x"] by (simp add: rnd_minus)
  qed (simp_all add: pos)
qed

lemma is_double_to_double [simp, intro]: "is_double (to_double x)"
  by (auto simp: to_double_def abs_less_iff)

lemma is_double_dneg [simp]: "is_double (dneg x) = is_double x"
  by (cases x) (simp_all add: rnd_minus)

lemma is_double_dint: "\<bar>n\<bar> \<le> 2 ^ 53 \<Longrightarrow> is_double (dint n)"
  using is_double_to_double [of "of_int n"] by (simp add: to_double_of_int dint_def del: is_double_to_double)

lemma is_double_arith [simp, intro]:
  "is_double (dadd x y)" "is_double (dsub x y)" "is_double (dmul x y)" "is_double (ddiv x y)"
proof -
  have zero: "is_double (Fin 0)" by simp
  show add: "is_double (dadd a b)" for a b by (cases a; cases b) auto
  show "is_double (dsub x y)" unfolding dsub_def by (rule add)
  show "is_double (dmul x y)" by (cases x; cases y) auto
  show "is_double (ddiv x y)" using zero by (cases x; cases y) auto
qed

end
