(* ===== verification/Roq_Prelude.thy ===== *)
theory Roq_Prelude
  imports Main "HOL-Library.Word" Roq_Double
begin

text \<open>
  What every component shares: the machine types of the sources, the result type of a
  handler, runs of a handler over a list of events, and the contracts several components
  promise (an invariant of an event machine, failures that are ruled out for legal events or under a
  protocol of the environment, order ids that are never recycled), each a locale whose client lemmas
  are proved once here.
\<close>

named_theorems result_simps \<open>evaluation of handlers over the result type\<close>
named_theorems machine_defs \<open>definitions of the handlers of an event machine\<close>

section \<open>Machine types\<close>

type_synonym u8 = "8 word"
type_synonym u32 = "32 word"
type_synonym u64 = "64 word"

text \<open>\<open>std::chrono::nanoseconds\<close>. The sources add at most 100 seconds to a clock reading,
  so the 63 bits of the C++ type are never exhausted before the year 2262.\<close>

type_synonym nanoseconds = int

abbreviation seconds :: "int \<Rightarrow> nanoseconds" where
  "seconds n \<equiv> n * 1000000000"

abbreviation milliseconds :: "int \<Rightarrow> nanoseconds" where
  "milliseconds n \<equiv> n * 1000000"

section \<open>Results of a handler\<close>

text \<open>
  A handler ends normally with a new state, or it leaves by \<open>log::fatal\<close> (which does not
  return), by a failed \<open>assert\<close>, by undefined behaviour (an empty pointer or optional, an index out of range), or by an exception. An \<open>assert\<close> is compiled only in a
  debug build, so it takes the build as an argument.
\<close>

datatype exn = NotConnected | NotReady | RuntimeError

datatype failure = Assertion_Failed | Fatal | Undefined_Behaviour | Raised exn

type_synonym 'a result = "failure + 'a"

definition bind_result :: "'a result \<Rightarrow> ('a \<Rightarrow> 'b result) \<Rightarrow> 'b result" where
  "bind_result m f = (case m of Inl e \<Rightarrow> Inl e | Inr x \<Rightarrow> f x)"

definition assert_then :: "bool \<Rightarrow> bool \<Rightarrow> 'a result \<Rightarrow> 'a result" where
  "assert_then dbg b k = (if dbg \<and> \<not> b then Inl Assertion_Failed else k)"

primrec run :: "('s \<Rightarrow> 'e \<Rightarrow> 's result) \<Rightarrow> 's \<Rightarrow> 'e list \<Rightarrow> 's result" where
  "run step s [] = Inr s"
| "run step s (e # es) = bind_result (step s e) (\<lambda>t. run step t es)"

text \<open>The states in which a run handles its events, in order.\<close>

primrec states :: "('s \<Rightarrow> 'e \<Rightarrow> 's result) \<Rightarrow> 's \<Rightarrow> 'e list \<Rightarrow> 's list" where
  "states step s [] = []"
| "states step s (e # es) = s # (case step s e of Inl f \<Rightarrow> [] | Inr t \<Rightarrow> states step t es)"

lemma bind_result_Inl [simp, result_simps]: "bind_result (Inl e) f = Inl e"
  by (simp add: bind_result_def)

lemma bind_result_Inr [simp, result_simps]: "bind_result (Inr x) f = f x"
  by (simp add: bind_result_def)

lemma bind_result_eq_Inr:
  "bind_result m f = Inr y \<longleftrightarrow> (\<exists>x. m = Inr x \<and> f x = Inr y)"
  by (cases m) simp_all

lemma bind_result_eq_Inl:
  "bind_result m f = Inl e \<longleftrightarrow> m = Inl e \<or> (\<exists>x. m = Inr x \<and> f x = Inl e)"
  by (cases m) simp_all

lemma assert_then_eq_Inr:
  "assert_then dbg b k = Inr x \<longleftrightarrow> (dbg \<longrightarrow> b) \<and> k = Inr x"
  by (auto simp: assert_then_def)

lemma assert_then_True [simp, result_simps]: "assert_then dbg True k = k"
  by (simp add: assert_then_def)

lemma assert_then_release [simp, result_simps]: "assert_then False b k = k"
  by (simp add: assert_then_def)

lemmas result_Inr = bind_result_eq_Inr assert_then_eq_Inr

lemma run_Cons_Inr:
  "run step s (e # es) = Inr s' \<longleftrightarrow> (\<exists>t. step s e = Inr t \<and> run step t es = Inr s')"
  by (simp add: bind_result_eq_Inr)

lemma run_append:
  "run step s (es @ fs) = bind_result (run step s es) (\<lambda>t. run step t fs)"
  by (induction es arbitrary: s) (auto simp: bind_result_def split: sum.splits)

lemma run_append_Inr:
  "run step s (es @ fs) = Inr s' \<longleftrightarrow> (\<exists>t. run step s es = Inr t \<and> run step t fs = Inr s')"
  by (simp add: run_append bind_result_eq_Inr)

text \<open>A run that fails does so in one of its events, and the events before it are handled.\<close>

lemma run_eq_Inl:
  "run step s es = Inl f \<longleftrightarrow> (\<exists>pre e post t. es = pre @ e # post \<and> run step s pre = Inr t \<and> step t e = Inl f)"
proof
  show "run step s es = Inl f \<Longrightarrow> \<exists>pre e post t. es = pre @ e # post \<and> run step s pre = Inr t \<and> step t e = Inl f"
  proof (induction es arbitrary: s)
    case (Cons e es)
    show ?case
    proof (cases "step s e")
      case (Inl g)
      then show ?thesis using Cons.prems by (intro exI [of _ "[]"]) simp
    next
      case (Inr t)
      then obtain pre e' post u where "es = pre @ e' # post" "run step t pre = Inr u" "step u e' = Inl f"
        using Cons.IH [of t] Cons.prems by auto
      then show ?thesis using Inr by (intro exI [of _ "e # pre"]) auto
    qed
  qed simp
qed (auto simp: run_append)

text \<open>
  What holds of a result: \<open>P\<close> of a value, \<open>Q\<close> of a failure. The rules follow the structure of a
  handler, as the rules of a program logic do.
\<close>

definition result_all :: "('a \<Rightarrow> bool) \<Rightarrow> (failure \<Rightarrow> bool) \<Rightarrow> 'a result \<Rightarrow> bool" where
  "result_all P Q m = (case m of Inl f \<Rightarrow> Q f | Inr x \<Rightarrow> P x)"

lemma result_all_simps [simp, result_simps]:
  "result_all P Q (Inr x) = P x" "result_all P Q (Inl f) = Q f"
  by (simp_all add: result_all_def)

lemma result_all_bind:
  assumes "result_all R Q m" "\<And>x. m = Inr x \<Longrightarrow> R x \<Longrightarrow> result_all P Q (f x)"
  shows "result_all P Q (bind_result m f)"
  using assms by (cases m) simp_all

lemma result_all_assert: "b \<Longrightarrow> result_all P Q k \<Longrightarrow> result_all P Q (assert_then dbg b k)"
  by (simp add: assert_then_def)

lemma result_all_mono: "result_all R Q m \<Longrightarrow> (\<And>x. R x \<Longrightarrow> P x) \<Longrightarrow> result_all P Q m"
  by (cases m) simp_all

lemma result_allD: "result_all P Q m \<Longrightarrow> m = Inr x \<Longrightarrow> P x" "result_all P Q m \<Longrightarrow> m = Inl f \<Longrightarrow> Q f"
  by simp_all

text \<open>A predicate kept by every event of a run holds at its end.\<close>

lemma run_preserves:
  assumes "run step s es = Inr s'" "P s"
    and "\<And>t e t'. e \<in> set es \<Longrightarrow> P t \<Longrightarrow> step t e = Inr t' \<Longrightarrow> P t'"
  shows "P s'"
  using assms
proof (induction es arbitrary: s)
  case (Cons e es)
  then obtain t where t: "step s e = Inr t" "run step t es = Inr s'"
    by (auto simp: bind_result_eq_Inr)
  show ?case
  proof (rule Cons.IH [OF t(2)])
    show "P t" using Cons.prems(2) t(1) Cons.prems(3) [of e s t] by simp
    show "P u'" if "f \<in> set es" "P u" "step u f = Inr u'" for u f u'
      using Cons.prems(3) [of f u u'] that by simp
  qed
qed simp

text \<open>The same with a counter that every event moves by its weight, as long as it stays below a bound.\<close>

lemma run_counted:
  fixes cnt :: "'s \<Rightarrow> nat"
  assumes "run step s es = Inr s'" "P s" "cnt s + (\<Sum>e \<leftarrow> es. w e) < bound"
    and "\<And>t e t'. P t \<Longrightarrow> step t e = Inr t' \<Longrightarrow> cnt t + w e < bound \<Longrightarrow> P t' \<and> cnt t' = cnt t + w e"
  shows "P s' \<and> cnt s' = cnt s + (\<Sum>e \<leftarrow> es. w e)"
  using assms(1-3)
proof (induction es arbitrary: s)
  case (Cons e es)
  then obtain t where t: "step s e = Inr t" "run step t es = Inr s'"
    by (auto simp: bind_result_eq_Inr)
  have one: "P t \<and> cnt t = cnt s + w e" using assms(4) [OF Cons.prems(2) t(1)] Cons.prems(3) by simp
  then have "P s' \<and> cnt s' = cnt t + (\<Sum>e \<leftarrow> es. w e)" using Cons.IH [OF t(2)] Cons.prems(3) by simp
  then show ?case using one by simp
qed simp

section \<open>Contract: an invariant of an event machine\<close>

locale event_machine =
  fixes step :: "'s \<Rightarrow> 'e \<Rightarrow> 's result"
    and inv :: "'s \<Rightarrow> bool"
  assumes step_inv: "inv s \<Longrightarrow> step s e = Inr s' \<Longrightarrow> inv s'"
begin

lemma run_inv: "inv s \<Longrightarrow> run step s es = Inr s' \<Longrightarrow> inv s'"
  using run_preserves [of step s es s' inv] step_inv by blast

lemma states_inv: "inv s \<Longrightarrow> t \<in> set (states step s es) \<Longrightarrow> inv t"
proof (induction es arbitrary: s)
  case (Cons e es)
  show ?case
  proof (cases "step s e")
    case (Inl f)
    then show ?thesis using Cons.prems by simp
  next
    case (Inr u)
    then have "inv u" using Cons.prems(1) step_inv by blast
    then show ?thesis using Cons Inr by auto
  qed
qed simp

end

text \<open>
  A machine whose invariant also rules out some failures. The contract is conditional: it holds
  for \<open>legal\<close> events, in states that have \<open>room\<close>.
\<close>

locale guarded_machine =
  fixes step :: "'s \<Rightarrow> 'e \<Rightarrow> 's result"
    and inv :: "'s \<Rightarrow> bool"
    and room :: "'s \<Rightarrow> bool"
    and legal :: "'e \<Rightarrow> bool"
    and bad :: "failure \<Rightarrow> bool"
  assumes step_all: "inv s \<Longrightarrow> room s \<Longrightarrow> legal e \<Longrightarrow> result_all inv (\<lambda>f. \<not> bad f) (step s e)"
begin

lemma run_all:
  "inv s \<Longrightarrow> \<forall>t \<in> set (states step s es). room t \<Longrightarrow> \<forall>e \<in> set es. legal e \<Longrightarrow>
     result_all inv (\<lambda>f. \<not> bad f) (run step s es)"
proof (induction es arbitrary: s)
  case (Cons e es)
  have "result_all inv (\<lambda>f. \<not> bad f) (step s e)" using step_all Cons.prems by simp
  then show ?case
  proof (cases "step s e")
    case (Inr t)
    then show ?thesis using Cons \<open>result_all inv (\<lambda>f. \<not> bad f) (step s e)\<close> by simp
  qed simp
qed simp

end

text \<open>With an unconditional invariant every event is legal.\<close>

locale safe_machine = event_machine +
  fixes room :: "'a \<Rightarrow> bool"
    and bad :: "failure \<Rightarrow> bool"
  assumes step_safe: "inv s \<Longrightarrow> room s \<Longrightarrow> step s e = Inl f \<Longrightarrow> \<not> bad f"

sublocale safe_machine \<subseteq> guarded: guarded_machine step inv room "\<lambda>_. True" bad
proof
  fix s e
  assume "inv s" "room s"
  then show "result_all inv (\<lambda>f. \<not> bad f) (step s e)"
    using step_inv step_safe by (cases "step s e") auto
qed

context safe_machine
begin

lemma run_safe:
  assumes "inv s" "\<forall>t \<in> set (states step s es). room t" "run step s es = Inl f"
  shows "\<not> bad f"
  using guarded.run_all [OF assms(1,2)] assms(3) by simp

end

text \<open>
  A machine whose environment follows a protocol: \<open>proto p e\<close> is the state of the protocol after the
  event, \<open>None\<close> when the event is not allowed. The contract is a simulation, \<open>inv\<close> relates the two.
\<close>

primrec accepts :: "('p \<Rightarrow> 'e \<Rightarrow> 'p option) \<Rightarrow> 'p \<Rightarrow> 'e list \<Rightarrow> 'p option" where
  "accepts proto p [] = Some p"
| "accepts proto p (e # es) = Option.bind (proto p e) (\<lambda>q. accepts proto q es)"

lemma accepts_append:
  "accepts proto p (es @ fs) = Some r \<longleftrightarrow> (\<exists>q. accepts proto p es = Some q \<and> accepts proto q fs = Some r)"
  by (induction es arbitrary: p) (auto simp: bind_eq_Some_conv)

locale protocol_machine =
  fixes step :: "'s \<Rightarrow> 'e \<Rightarrow> 's result"
    and proto :: "'p \<Rightarrow> 'e \<Rightarrow> 'p option"
    and inv :: "'p \<Rightarrow> 's \<Rightarrow> bool"
    and bad :: "failure \<Rightarrow> bool"
  assumes step_sim: "inv p s \<Longrightarrow> proto p e = Some q \<Longrightarrow> result_all (inv q) (\<lambda>f. \<not> bad f) (step s e)"
begin

lemma run_sim:
  "inv p s \<Longrightarrow> accepts proto p es = Some q \<Longrightarrow> result_all (inv q) (\<lambda>f. \<not> bad f) (run step s es)"
proof (induction es arbitrary: p s)
  case (Cons e es)
  then obtain r where r: "proto p e = Some r" "accepts proto r es = Some q" by (auto simp: bind_eq_Some_conv)
  have "result_all (\<lambda>t. inv r t) (\<lambda>f. \<not> bad f) (step s e)" using step_sim Cons.prems(1) r(1) .
  then show ?case using Cons.IH r(2) by (cases "step s e") simp_all
qed simp

end

text \<open>
  The most general contract: what the environment may do depends on the state, of which its own part
  (callbacks it holds, timers that run) may be a component. A session is admitted when every event of it is.
\<close>

primrec admitted :: "('s \<Rightarrow> 'e \<Rightarrow> 's result) \<Rightarrow> ('s \<Rightarrow> 'e \<Rightarrow> bool) \<Rightarrow> 's \<Rightarrow> 'e list \<Rightarrow> bool" where
  "admitted step ok s [] = True"
| "admitted step ok s (e # es) =
     (ok s e \<and> (case step s e of Inl f \<Rightarrow> True | Inr t \<Rightarrow> admitted step ok t es))"

locale admitted_machine =
  fixes step :: "'s \<Rightarrow> 'e \<Rightarrow> 's result"
    and ok :: "'s \<Rightarrow> 'e \<Rightarrow> bool"
    and inv :: "'s \<Rightarrow> bool"
    and bad :: "failure \<Rightarrow> bool"
  assumes step_admitted: "inv s \<Longrightarrow> ok s e \<Longrightarrow> result_all inv (\<lambda>f. \<not> bad f) (step s e)"
begin

lemma run_admitted:
  "inv s \<Longrightarrow> admitted step ok s es \<Longrightarrow> result_all inv (\<lambda>f. \<not> bad f) (run step s es)"
proof (induction es arbitrary: s)
  case (Cons e es)
  have "result_all inv (\<lambda>f. \<not> bad f) (step s e)" using step_admitted Cons.prems by simp
  then show ?case using Cons by (cases "step s e") simp_all
qed simp

end

text \<open>In particular one that depends on the event and the state separately.\<close>

sublocale guarded_machine \<subseteq> admits: admitted_machine step "\<lambda>s e. room s \<and> legal e" inv bad
  by unfold_locales (use step_all in blast)

section \<open>Contract: order ids are never recycled\<close>

text \<open>
  A client numbers its orders from the largest id it knows of (\<open>high\<close>). The contract: an
  event appends the ids it issues to \<open>created\<close> in increasing order, each above the old
  \<open>high\<close> and at most the new one, and \<open>high\<close> never decreases; \<open>room\<close> says that the
  64-bit counter does not wrap in this event.
\<close>

locale order_id_source =
  fixes step :: "'s \<Rightarrow> 'e \<Rightarrow> 's result"
    and high :: "'s \<Rightarrow> u64"
    and created :: "'s \<Rightarrow> u64 list"
    and room :: "'s \<Rightarrow> bool"
  assumes issue: "step s e = Inr s' \<Longrightarrow> room s \<Longrightarrow>
    \<exists>ids. created s' = created s @ ids \<and> sorted_wrt (<) ids \<and>
          (\<forall>i \<in> set ids. high s < i \<and> i \<le> high s') \<and> high s \<le> high s'"
begin

definition fresh :: "'s \<Rightarrow> bool" where
  "fresh s \<longleftrightarrow> sorted_wrt (<) (created s) \<and> (\<forall>i \<in> set (created s). i \<le> high s)"

lemma step_fresh:
  assumes "fresh s" "step s e = Inr s'" "room s"
  shows "fresh s'"
proof -
  obtain ids where *: "created s' = created s @ ids" "sorted_wrt (<) ids"
      "\<forall>i \<in> set ids. high s < i \<and> i \<le> high s'" "high s \<le> high s'"
    using issue assms(2,3) by blast
  have "sorted_wrt (<) (created s @ ids)"
    using assms(1) *(2,3) by (force simp: fresh_def sorted_wrt_append)
  then show ?thesis using assms(1) * by (force simp: fresh_def)
qed

lemma run_fresh:
  "fresh s \<Longrightarrow> run step s es = Inr s' \<Longrightarrow> \<forall>t \<in> set (states step s es). room t \<Longrightarrow> fresh s'"
proof (induction es arbitrary: s)
  case (Cons e es)
  then obtain t where t: "step s e = Inr t" "run step t es = Inr s'"
    by (auto simp: bind_result_eq_Inr)
  then have "fresh t" using Cons.prems step_fresh by simp
  then show ?case using t Cons by simp
qed simp

lemma run_sorted:
  assumes "created s = []" "run step s es = Inr s'" "\<forall>t \<in> set (states step s es). room t"
  shows "sorted_wrt (<) (created s') \<and> (\<forall>i \<in> set (created s'). i \<le> high s')"
  using run_fresh [OF _ assms(2,3)] assms(1) by (simp add: fresh_def)

end

section \<open>Lists and words\<close>

lemma ex_replicate_snoc: "\<exists>k. replicate n x @ [x] = replicate k x"
  by (metis replicate_Suc replicate_append_same)

lemma word_less_plus_one: "(w :: 'a::len word) \<noteq> - 1 \<Longrightarrow> w < w + 1"
proof -
  assume "w \<noteq> - 1"
  then have "unat w \<noteq> 2 ^ LENGTH('a) - 1"
    by (metis mask_eq_exp_minus_1 unsigned_minus_1_eq_mask word_eq_iff_unsigned)
  moreover have "unat w < 2 ^ LENGTH('a)" by (rule unsigned_less)
  ultimately have "unat w + 1 < 2 ^ LENGTH('a)" by linarith
  then show ?thesis by (simp add: word_less_nat_alt unat_word_ariths)
qed

text \<open>\<open>std::max(1, c) - 1\<close> on an unsigned counter: a countdown that stops at zero.\<close>

lemma unat_countdown: "unat (max 1 c - 1 :: 'a::len word) = unat c - 1"
proof (cases "c = 0")
  case True
  then show ?thesis by (simp add: max_def)
next
  case False
  then have "1 \<le> c" by (simp add: word_le_nat_alt Suc_le_eq unat_gt_0)
  then show ?thesis by (simp add: max_def unat_sub False)
qed

end
