(* ===== verification/Roq_API.thy ===== *)
theory Roq_API
  imports Roq_Prelude
begin

text \<open>
  The interface of the packages the samples are written against (roq-api, roq-client,
  roq-cache, roq-utils), none of which is part of the repository. Enumerations have the
  constructors the sources name, and one more for the values they never name. Messages and
  requests have the fields the sources read or set; a field that every request of the
  repository leaves value-initialised is not represented. Functions of those packages are
  parameters of the model: the record \<open>utils\<close> for the helpers of \<open>roq/utils\<close>, the record
  \<open>book_ops\<close> for the order book caches. What the components rely on of them are the
  predicates of the last section, each with an instance that satisfies it.
\<close>

section \<open>Enumerations\<close>

datatype side = Side_UNDEFINED | BUY | SELL

datatype trading_status = TradingStatus_UNDEFINED | OPEN | TradingStatus_other nat

datatype support_type =
    REFERENCE_DATA | MARKET_STATUS | MARKET_BY_PRICE
  | CREATE_ORDER_support | CANCEL_ORDER_support | MODIFY_ORDER_support
  | ORDER | POSITION | SupportType_other nat

datatype request_type = RequestType_UNDEFINED | CREATE_ORDER | MODIFY_ORDER | CANCEL_ORDER

datatype request_status = RequestStatus nat

datatype order_status = OrderStatus_UNDEFINED | COMPLETED | OrderStatus_other nat

datatype update_type = UpdateType_UNDEFINED | SNAPSHOT | INCREMENTAL | UpdateType_other nat

datatype error =
    Error_UNDEFINED | REQUEST_RATE_LIMIT_REACHED | TOO_LATE_TO_MODIFY_OR_CANCEL | Error_other nat

datatype order_type = OrderType_UNDEFINED | LIMIT

datatype time_in_force = TimeInForce_UNDEFINED | GTC

datatype execution_instruction = PARTICIPATE_DO_NOT_INITIATE | ExecutionInstruction_other nat

datatype ordering = Less | Equal | Greater

section \<open>Messages from the gateway\<close>

record layer =
  bid_price :: double
  bid_quantity :: double
  ask_price :: double
  ask_quantity :: double

record message_info =
  source :: u8
  receive_time :: nanoseconds
  origin_create_time :: nanoseconds

record download_begin =
  db_account :: string

record download_end =
  de_account :: string
  de_max_order_id :: u64

record gateway_status =
  gs_account :: string
  available :: "support_type set"
  unavailable :: "support_type set"

record reference_data =
  rd_exchange :: string
  rd_symbol :: string
  rd_tick_size :: double
  rd_min_trade_vol :: double
  rd_multiplier :: double

record market_status =
  ms_exchange :: string
  ms_symbol :: string
  ms_trading_status :: trading_status

record top_of_book =
  tob_exchange :: string
  tob_symbol :: string
  tob_layer :: layer

text \<open>The content \<open>'u\<close> of a book update is read by the book caches only.\<close>

record 'u book_update =
  bu_exchange :: string
  bu_symbol :: string
  bu_update_type :: update_type
  bu_content :: 'u

record order_ack =
  oa_order_id :: u64
  oa_side :: side
  oa_request_type :: request_type
  oa_request_status :: request_status
  oa_error :: error
  oa_price :: double
  oa_routing_id :: string

record order_update =
  ou_order_id :: u64
  ou_side :: side
  ou_order_status :: order_status
  ou_update_type :: update_type
  ou_quantity :: double
  ou_price :: double
  ou_traded_quantity :: double
  ou_routing_id :: string

record position_update =
  pu_account :: string
  long_quantity :: double
  short_quantity :: double

datatype 'u message =
    Start | Stop
  | Timer nanoseconds
  | Connected | Disconnected
  | DownloadBegin download_begin
  | DownloadEnd download_end
  | Ready
  | GatewaySettings
  | StreamStatus
  | GatewayStatus gateway_status
  | ReferenceData reference_data
  | MarketStatus market_status
  | TopOfBook top_of_book
  | MarketByPriceUpdate "'u book_update"
  | MarketByOrderUpdate "'u book_update"
  | TradeSummary
  | StatisticsUpdate
  | CancelAllOrdersAck
  | OrderAck order_ack
  | OrderUpdate order_update
  | TradeUpdate
  | PositionUpdate position_update
  | FundsUpdate
  | PortfolioUpdate

type_synonym 'u event = "message_info \<times> 'u message"

section \<open>Requests to the gateway\<close>

record create_order =
  co_account :: string
  co_order_id :: u64
  co_exchange :: string
  co_symbol :: string
  co_side :: side
  co_max_show_quantity :: double
  co_order_type :: order_type
  co_time_in_force :: time_in_force
  co_execution_instructions :: "execution_instruction list"
  co_quantity :: double
  co_price :: double
  co_stop_price :: double
  co_leverage :: double
  co_routing_id :: string
  co_strategy_id :: u32

record modify_order =
  mo_account :: string
  mo_order_id :: u64
  mo_quantity :: double
  mo_price :: double
  mo_routing_id :: string

record cancel_order =
  ca_account :: string
  ca_order_id :: u64
  ca_routing_id :: string

record cancel_all_orders =
  cx_account :: string
  cx_exchange :: string
  cx_symbol :: string

datatype request =
    CreateOrder create_order
  | ModifyOrder modify_order
  | CancelOrder cancel_order
  | CancelAllOrders cancel_all_orders

text \<open>What was handed to the dispatcher, oldest first, with the source it was sent to.\<close>

type_synonym outbox = "(request \<times> u8) list"

text \<open>
  What \<open>client::Dispatcher::send\<close> does while one event is handled: \<open>None\<close> when it takes the
  request, \<open>Some x\<close> when it throws \<open>x\<close>. An event of a client comes with the dispatcher it sees.
\<close>

type_synonym dispatcher = "request \<Rightarrow> u8 \<Rightarrow> exn option"

type_synonym 'u client_event = "dispatcher \<times> message_info \<times> 'u message"

definition accept_all :: dispatcher where
  "accept_all r s = None"

fun created_id :: "request \<Rightarrow> u64 option" where
  "created_id (CreateOrder c) = Some (co_order_id c)"
| "created_id _ = None"

definition created_ids :: "outbox \<Rightarrow> u64 list" where
  "created_ids out = List.map_filter (\<lambda>(r, s). created_id r) out"

section \<open>Parameters: the helpers of roq-utils\<close>

record utils =
  update_bool :: "bool \<Rightarrow> bool \<Rightarrow> bool \<times> bool"
  update_double :: "double \<Rightarrow> double \<Rightarrow> bool \<times> double"
  update_trading_status :: "trading_status \<Rightarrow> trading_status \<Rightarrow> bool \<times> trading_status"
  update_max :: "u64 \<Rightarrow> u64 \<Rightarrow> bool \<times> u64"
  is_greater :: "double \<Rightarrow> double \<Rightarrow> bool"
  is_greater_or_equal :: "double \<Rightarrow> double \<Rightarrow> bool"
  is_less_or_equal :: "double \<Rightarrow> double \<Rightarrow> bool"
  is_equal :: "double \<Rightarrow> double \<Rightarrow> bool"
  is_zero :: "double \<Rightarrow> bool"
  compare :: "double \<Rightarrow> double \<Rightarrow> ordering"
  invert :: "side \<Rightarrow> side"
  sign :: "side \<Rightarrow> double"
  has_request_failed :: "request_status \<Rightarrow> bool"
  has_request_succeeded :: "request_status \<Rightarrow> bool"
  has_request_completed :: "request_status \<Rightarrow> bool"
  has_request_maybe_completed :: "request_status \<Rightarrow> bool"
  is_order_complete :: "order_status \<Rightarrow> bool"
  has_all :: "support_type set \<Rightarrow> support_type set \<Rightarrow> bool"
  has_none :: "support_type set \<Rightarrow> support_type set \<Rightarrow> bool"

text \<open>
  An order book cache (\<open>cache::MarketByPrice\<close>, \<open>cache::MarketByOrder\<close>) with state \<open>'b\<close>.
  \<open>extract\<close> overwrites a buffer of layers and returns the number of layers in the book view.
\<close>

record ('b, 'u) book_ops =
  book_apply :: "'b \<Rightarrow> 'u book_update \<Rightarrow> 'b"
  book_clear :: "'b \<Rightarrow> 'b"
  book_extract :: "'b \<Rightarrow> layer list \<Rightarrow> layer list \<times> nat"

section \<open>What the components rely on\<close>

text \<open>\<open>utils::update\<close> stores the new value and reports whether it differs from the old.\<close>

definition update_law :: "('a \<Rightarrow> 'a \<Rightarrow> bool \<times> 'a) \<Rightarrow> bool" where
  "update_law upd \<longleftrightarrow> (\<forall>c v. upd c v = (c \<noteq> v, v))"

text \<open>On doubles (which it compares in its own way) it either reports a change and stores the
  new value, or reports none and leaves the old one; a number always replaces NaN.\<close>

definition update_double_law :: "(double \<Rightarrow> double \<Rightarrow> bool \<times> double) \<Rightarrow> bool" where
  "update_double_law upd \<longleftrightarrow>
     (\<forall>c v. upd c v = (True, v) \<or> upd c v = (False, c)) \<and> (\<forall>x. upd NaN (Fin x) = (True, Fin x))"

definition update_max_law :: "(u64 \<Rightarrow> u64 \<Rightarrow> bool \<times> u64) \<Rightarrow> bool" where
  "update_max_law upd \<longleftrightarrow> (\<forall>c v. upd c v = (c < v, max c v))"

definition updates_ok :: "('m utils_scheme) \<Rightarrow> bool" where
  "updates_ok U \<longleftrightarrow> update_law (update_bool U) \<and> update_law (update_trading_status U) \<and>
     update_double_law (update_double U) \<and> update_max_law (update_max U)"

text \<open>The tolerant comparisons agree with the exact ones on integral values, and
  \<open>is_greater\<close> never holds between values that are not ordered.\<close>

definition comparisons_ok :: "('m utils_scheme) \<Rightarrow> bool" where
  "comparisons_ok U \<longleftrightarrow>
     (\<forall>x y. is_greater U x y \<longrightarrow> dlt y x) \<and>
     (\<forall>m n. is_less_or_equal U (dint m) (dint n) = (m \<le> n)) \<and>
     (\<forall>m n. is_greater_or_equal U (dint m) (dint n) = (m \<ge> n))"

text \<open>An instance of every parameter, with exact comparisons.\<close>

definition exact_utils :: utils where
  "exact_utils = \<lparr>
     update_bool = (\<lambda>c v. (c \<noteq> v, v)),
     update_double = (\<lambda>c v. if c = v then (False, c) else (True, v)),
     update_trading_status = (\<lambda>c v. (c \<noteq> v, v)),
     update_max = (\<lambda>c v. (c < v, max c v)),
     is_greater = (\<lambda>x y. dlt y x),
     is_greater_or_equal = (\<lambda>x y. dle y x),
     is_less_or_equal = dle,
     is_equal = (\<lambda>x y. dle x y \<and> dle y x),
     is_zero = (\<lambda>x. x = Fin 0),
     compare = (\<lambda>x y. if dlt x y then Less else if dlt y x then Greater else Equal),
     invert = (\<lambda>s. case s of BUY \<Rightarrow> SELL | SELL \<Rightarrow> BUY | Side_UNDEFINED \<Rightarrow> Side_UNDEFINED),
     sign = (\<lambda>s. case s of BUY \<Rightarrow> Fin 1 | SELL \<Rightarrow> Fin (- 1) | Side_UNDEFINED \<Rightarrow> Fin 0),
     has_request_failed = (\<lambda>r. r = RequestStatus 2),
     has_request_succeeded = (\<lambda>r. r = RequestStatus 1),
     has_request_completed = (\<lambda>r. r = RequestStatus 1 \<or> r = RequestStatus 2),
     has_request_maybe_completed = (\<lambda>r. r = RequestStatus 1 \<or> r = RequestStatus 2),
     is_order_complete = (\<lambda>s. s = COMPLETED),
     has_all = (\<lambda>a r. r \<subseteq> a),
     has_none = (\<lambda>a r. a \<inter> r = {})\<rparr>"

text \<open>A book cache that remembers its last top of book, for concrete runs.\<close>

definition last_book :: "(layer option, layer) book_ops" where
  "last_book = \<lparr>
     book_apply = (\<lambda>b u. Some (bu_content u)),
     book_clear = (\<lambda>b. None),
     book_extract = (\<lambda>b buf. case b of None \<Rightarrow> (buf, 0) | Some l \<Rightarrow> (replicate (length buf) l, length buf))\<rparr>"

lemma exact_utils_updates_ok: "updates_ok exact_utils"
  by (simp add: updates_ok_def exact_utils_def update_law_def update_double_law_def update_max_law_def)

lemma exact_utils_comparisons_ok: "comparisons_ok exact_utils"
  by (simp add: comparisons_ok_def exact_utils_def dint_def)

lemma update_lawD: "update_law upd \<Longrightarrow> upd c v = (c \<noteq> v, v)"
  by (simp add: update_law_def)

lemma update_double_lawD:
  "update_double_law upd \<Longrightarrow> upd c v = (True, v) \<or> upd c v = (False, c)"
  by (simp add: update_double_law_def)

lemma update_max_lawD: "update_max_law upd \<Longrightarrow> upd c v = (c < v, max c v)"
  by (simp add: update_max_law_def)

lemma created_ids_Nil [simp]: "created_ids [] = []"
  by (simp add: created_ids_def List.map_filter_simps)

lemma created_ids_append [simp]: "created_ids (xs @ ys) = created_ids xs @ created_ids ys"
  by (simp add: created_ids_def List.map_filter_def)

lemma created_ids_single [simp]:
  "created_ids [(r, s)] = (case created_id r of None \<Rightarrow> [] | Some i \<Rightarrow> [i])"
  by (simp add: created_ids_def List.map_filter_simps split: option.split)

end
