(* ===== verification/E3_Instrument.thy ===== *)
theory E3_Instrument
  imports Roq_API
begin

text \<open>
  The instrument cache of example 3 (\<open>instrument.hpp\<close>, \<open>instrument.cpp\<close>): connection and
  download state, reference data, market status, service availability, depth and own position,
  and the ready flag the strategy relies on. The two order book caches are parameters \<open>B\<close>
  (market by price) and \<open>M\<close> (market by order). Logging is left out.
\<close>

section \<open>State\<close>

record e3_settings =
  st_exchange :: string
  st_symbol :: string
  st_account :: string
  st_sample_freq :: nanoseconds
  st_ema_alpha :: double
  st_warmup :: u32
  st_enable_trading :: bool
  st_allow_price_inversion :: bool

record ('b, 'o) Instrument =
  i3_exchange :: string
  i3_symbol :: string
  i3_account :: string
  i3_allow_price_inversion :: bool
  i3_connected :: bool
  i3_download :: bool
  i3_tick_size :: double
  i3_min_trade_vol :: double
  i3_multiplier :: double
  i3_trading_status :: trading_status
  i3_market_data :: bool
  i3_order_management :: bool
  i3_depth :: "layer list"
  i3_market_by_price :: 'b
  i3_long_position :: double
  i3_short_position :: double
  i3_ready :: bool
  i3_last_order_id :: u64
  i3_last_traded_quantity :: double
  i3_market_by_order :: 'o

text \<open>The constructor; \<open>layer0\<close> is a value-initialised layer, \<open>b\<close> and \<open>o'\<close> the new caches.\<close>

definition Instrument_new :: "'a e3_settings_scheme \<Rightarrow> layer \<Rightarrow> 'b \<Rightarrow> 'o \<Rightarrow> ('b, 'o) Instrument" where
  "Instrument_new settings layer0 b o' = \<lparr>
     i3_exchange = st_exchange settings, i3_symbol = st_symbol settings,
     i3_account = st_account settings, i3_allow_price_inversion = st_allow_price_inversion settings,
     i3_connected = False, i3_download = False,
     i3_tick_size = NaN, i3_min_trade_vol = NaN, i3_multiplier = NaN,
     i3_trading_status = TradingStatus_UNDEFINED, i3_market_data = False, i3_order_management = False,
     i3_depth = replicate 3 layer0, i3_market_by_price = b,
     i3_long_position = Fin 0, i3_short_position = Fin 0, i3_ready = False,
     i3_last_order_id = 0, i3_last_traded_quantity = Fin 0, i3_market_by_order = o'\<rparr>"

section \<open>Queries\<close>

definition Instrument_is_market_open :: "('b, 'o) Instrument \<Rightarrow> bool" where
  "Instrument_is_market_open i \<longleftrightarrow> i3_trading_status i = OPEN"

definition Instrument_best_bid :: "('b, 'o) Instrument \<Rightarrow> double" where
  "Instrument_best_bid i = bid_price (i3_depth i ! 0)"

definition Instrument_best_ask :: "('b, 'o) Instrument \<Rightarrow> double" where
  "Instrument_best_ask i = ask_price (i3_depth i ! 0)"

definition Instrument_position :: "('b, 'o) Instrument \<Rightarrow> double" where
  "Instrument_position i =
     dsub (if isnan (i3_long_position i) then Fin 0 else i3_long_position i)
          (if isnan (i3_short_position i) then Fin 0 else i3_short_position i)"

definition Instrument_can_trade :: "bool \<Rightarrow> 'm utils_scheme \<Rightarrow> ('b, 'o) Instrument \<Rightarrow> side \<Rightarrow> bool result" where
  "Instrument_can_trade dbg U i s =
     (case s of
        BUY \<Rightarrow> Inr (is_less_or_equal U (Instrument_position i) (Fin 0))
      | SELL \<Rightarrow> Inr (is_greater_or_equal U (Instrument_position i) (Fin 0))
      | Side_UNDEFINED \<Rightarrow> assert_then dbg False (Inr False))"

section \<open>Helpers\<close>

definition Instrument_check_ready :: "'m utils_scheme \<Rightarrow> ('b, 'o) Instrument \<Rightarrow> ('b, 'o) Instrument" where
  "Instrument_check_ready U i = i\<lparr>i3_ready :=
     i3_connected i \<and> \<not> i3_download i \<and> is_greater U (i3_tick_size i) (Fin 0) \<and>
     is_greater U (i3_min_trade_vol i) (Fin 0) \<and> is_greater U (i3_multiplier i) (Fin 0) \<and>
     i3_trading_status i = OPEN \<and> i3_market_data i \<and> i3_order_management i\<rparr>"

definition Instrument_reset :: "('b, 'u) book_ops \<Rightarrow> ('b, 'o) Instrument \<Rightarrow> ('b, 'o) Instrument" where
  "Instrument_reset B i = i\<lparr>
     i3_connected := False, i3_download := False, i3_tick_size := NaN, i3_min_trade_vol := NaN,
     i3_trading_status := TradingStatus_UNDEFINED, i3_market_data := False, i3_order_management := False,
     i3_market_by_price := book_clear B (i3_market_by_price i),
     i3_long_position := Fin 0, i3_short_position := Fin 0, i3_ready := False,
     i3_last_order_id := 0, i3_last_traded_quantity := Fin 0\<rparr>"

definition Instrument_validate :: "'m utils_scheme \<Rightarrow> ('b, 'o) Instrument \<Rightarrow> unit result" where
  "Instrument_validate U i =
     (let l = i3_depth i ! 0 in
      if is_less_or_equal U (bid_quantity l) (Fin 0) \<or> is_less_or_equal U (ask_quantity l) (Fin 0) then Inr ()
      else let spread = dsub (ask_price l) (bid_price l) in
      if \<not> i3_allow_price_inversion i \<and> is_less_or_equal U spread (Fin 0) then Inl Fatal else Inr ())"

section \<open>Handlers\<close>

definition Instrument_on_Connected :: "'m utils_scheme \<Rightarrow> ('b, 'o) Instrument \<Rightarrow> ('b, 'o) Instrument" where
  "Instrument_on_Connected U i =
     (case update_bool U (i3_connected i) True of (changed, c) \<Rightarrow>
        if changed then Instrument_check_ready U (i\<lparr>i3_connected := c\<rparr>) else i\<lparr>i3_connected := c\<rparr>)"

definition Instrument_on_Disconnected ::
  "'m utils_scheme \<Rightarrow> ('b, 'u) book_ops \<Rightarrow> ('b, 'o) Instrument \<Rightarrow> ('b, 'o) Instrument" where
  "Instrument_on_Disconnected U B i =
     (case update_bool U (i3_connected i) False of (changed, c) \<Rightarrow>
        if changed then Instrument_reset B (i\<lparr>i3_connected := c\<rparr>) else i\<lparr>i3_connected := c\<rparr>)"

definition Instrument_on_DownloadBegin :: "bool \<Rightarrow> ('b, 'o) Instrument \<Rightarrow> download_begin \<Rightarrow> ('b, 'o) Instrument result" where
  "Instrument_on_DownloadBegin dbg i d =
     (if db_account d \<noteq> [] then Inr i
      else assert_then dbg (\<not> i3_download i) (Inr (i\<lparr>i3_download := True\<rparr>)))"

definition Instrument_on_DownloadEnd ::
  "bool \<Rightarrow> 'm utils_scheme \<Rightarrow> ('b, 'o) Instrument \<Rightarrow> download_end \<Rightarrow> ('b, 'o) Instrument result" where
  "Instrument_on_DownloadEnd dbg U i d =
     (if de_account d \<noteq> [] then Inr i
      else assert_then dbg (i3_download i) (Inr (Instrument_check_ready U (i\<lparr>i3_download := False\<rparr>))))"

definition Instrument_on_GatewayStatus ::
  "'m utils_scheme \<Rightarrow> ('b, 'o) Instrument \<Rightarrow> gateway_status \<Rightarrow> ('b, 'o) Instrument" where
  "Instrument_on_GatewayStatus U i g =
     (let i' =
        (if gs_account g = [] then
           let required = {REFERENCE_DATA, MARKET_STATUS, MARKET_BY_PRICE};
               market_data = (has_all U (available g) required \<and> has_none U (unavailable g) required)
           in i\<lparr>i3_market_data := snd (update_bool U (i3_market_data i) market_data)\<rparr>
         else if gs_account g = i3_account i then
           let required = {CREATE_ORDER_support, CANCEL_ORDER_support, ORDER, POSITION};
               order_management = (has_all U (available g) required \<and> has_none U (unavailable g) required)
           in i\<lparr>i3_order_management := snd (update_bool U (i3_order_management i) order_management)\<rparr>
         else i)
      in Instrument_check_ready U i')"

definition Instrument_on_ReferenceData ::
  "bool \<Rightarrow> 'm utils_scheme \<Rightarrow> ('b, 'o) Instrument \<Rightarrow> reference_data \<Rightarrow> ('b, 'o) Instrument result" where
  "Instrument_on_ReferenceData dbg U i r =
     assert_then dbg (i3_exchange i = rd_exchange r)
     (assert_then dbg (i3_symbol i = rd_symbol r)
     (Inr (Instrument_check_ready U (i\<lparr>
        i3_tick_size := snd (update_double U (i3_tick_size i) (rd_tick_size r)),
        i3_min_trade_vol := snd (update_double U (i3_min_trade_vol i) (rd_min_trade_vol r)),
        i3_multiplier := snd (update_double U (i3_multiplier i) (rd_multiplier r))\<rparr>))))"

definition Instrument_on_MarketStatus ::
  "bool \<Rightarrow> 'm utils_scheme \<Rightarrow> ('b, 'o) Instrument \<Rightarrow> market_status \<Rightarrow> ('b, 'o) Instrument result" where
  "Instrument_on_MarketStatus dbg U i m =
     assert_then dbg (i3_exchange i = ms_exchange m)
     (assert_then dbg (i3_symbol i = ms_symbol m)
     (Inr (Instrument_check_ready U (i\<lparr>
        i3_trading_status := snd (update_trading_status U (i3_trading_status i) (ms_trading_status m))\<rparr>))))"

definition Instrument_on_MarketByPriceUpdate ::
  "bool \<Rightarrow> 'm utils_scheme \<Rightarrow> ('b, 'u) book_ops \<Rightarrow> ('b, 'o) Instrument \<Rightarrow> 'u book_update \<Rightarrow> ('b, 'o) Instrument result" where
  "Instrument_on_MarketByPriceUpdate dbg U B i u =
     assert_then dbg (i3_exchange i = bu_exchange u)
     (assert_then dbg (i3_symbol i = bu_symbol u)
     (let book = book_apply B (i3_market_by_price i) u;
          i' = i\<lparr>i3_market_by_price := book, i3_depth := fst (book_extract B book (i3_depth i))\<rparr>
      in bind_result (Instrument_validate U i') (\<lambda>_. Inr i')))"

definition Instrument_on_MarketByOrderUpdate ::
  "bool \<Rightarrow> ('o, 'u) book_ops \<Rightarrow> ('b, 'o) Instrument \<Rightarrow> 'u book_update \<Rightarrow> ('b, 'o) Instrument result" where
  "Instrument_on_MarketByOrderUpdate dbg M i u =
     assert_then dbg (i3_exchange i = bu_exchange u)
     (assert_then dbg (i3_symbol i = bu_symbol u)
     (Inr (i\<lparr>i3_market_by_order := book_apply M (i3_market_by_order i) u\<rparr>)))"

definition Instrument_on_OrderUpdate ::
  "bool \<Rightarrow> ('b, 'o) Instrument \<Rightarrow> order_update \<Rightarrow> ('b, 'o) Instrument result" where
  "Instrument_on_OrderUpdate dbg i u =
     (let i1 = (if i3_last_order_id i \<noteq> ou_order_id u
                then i\<lparr>i3_last_order_id := ou_order_id u, i3_last_traded_quantity := Fin 0\<rparr> else i);
          quantity = dsub (ou_traded_quantity u) (i3_last_traded_quantity i1);
          i2 = i1\<lparr>i3_last_traded_quantity := ou_traded_quantity u\<rparr>
      in case ou_side u of
           BUY \<Rightarrow> Inr (i2\<lparr>i3_long_position := dadd (i3_long_position i2) quantity\<rparr>)
         | SELL \<Rightarrow> Inr (i2\<lparr>i3_short_position := dadd (i3_short_position i2) quantity\<rparr>)
         | Side_UNDEFINED \<Rightarrow> assert_then dbg False (Inr i2))"

definition Instrument_on_PositionUpdate ::
  "bool \<Rightarrow> ('b, 'o) Instrument \<Rightarrow> position_update \<Rightarrow> ('b, 'o) Instrument result" where
  "Instrument_on_PositionUpdate dbg i p =
     assert_then dbg (i3_account i = pu_account p)
     (Inr (if i3_download i
           then i\<lparr>i3_long_position := long_quantity p, i3_short_position := short_quantity p\<rparr> else i))"

text \<open>The overloads of \<open>Instrument::operator()\<close>; a message without an overload is not
  dispatched to the instrument.\<close>

fun Instrument_handle ::
  "bool \<Rightarrow> 'm utils_scheme \<Rightarrow> ('b, 'u) book_ops \<Rightarrow> ('o, 'u) book_ops \<Rightarrow> ('b, 'o) Instrument \<Rightarrow>
     'u message \<Rightarrow> ('b, 'o) Instrument result" where
  "Instrument_handle dbg U B M i Connected = Inr (Instrument_on_Connected U i)"
| "Instrument_handle dbg U B M i Disconnected = Inr (Instrument_on_Disconnected U B i)"
| "Instrument_handle dbg U B M i (DownloadBegin d) = Instrument_on_DownloadBegin dbg i d"
| "Instrument_handle dbg U B M i (DownloadEnd d) = Instrument_on_DownloadEnd dbg U i d"
| "Instrument_handle dbg U B M i (GatewayStatus g) = Inr (Instrument_on_GatewayStatus U i g)"
| "Instrument_handle dbg U B M i (ReferenceData r) = Instrument_on_ReferenceData dbg U i r"
| "Instrument_handle dbg U B M i (MarketStatus m) = Instrument_on_MarketStatus dbg U i m"
| "Instrument_handle dbg U B M i (MarketByPriceUpdate u) = Instrument_on_MarketByPriceUpdate dbg U B i u"
| "Instrument_handle dbg U B M i (MarketByOrderUpdate u) = Instrument_on_MarketByOrderUpdate dbg M i u"
| "Instrument_handle dbg U B M i (OrderUpdate u) = Instrument_on_OrderUpdate dbg i u"
| "Instrument_handle dbg U B M i (PositionUpdate p) = Instrument_on_PositionUpdate dbg i p"
| "Instrument_handle dbg U B M i _ = Inr i"

lemmas Instrument_handlers [machine_defs] =
  Instrument_on_Connected_def Instrument_on_Disconnected_def Instrument_on_DownloadBegin_def
  Instrument_on_DownloadEnd_def Instrument_on_GatewayStatus_def Instrument_on_ReferenceData_def
  Instrument_on_MarketStatus_def Instrument_on_MarketByPriceUpdate_def
  Instrument_on_MarketByOrderUpdate_def Instrument_on_OrderUpdate_def Instrument_on_PositionUpdate_def

section \<open>Invariants\<close>

text \<open>What the ready flag promises its reader: the conditions of \<open>check_ready\<close>.\<close>

definition Instrument_tradable :: "'m utils_scheme \<Rightarrow> ('b, 'o) Instrument \<Rightarrow> bool" where
  "Instrument_tradable U i \<longleftrightarrow>
     i3_connected i \<and> \<not> i3_download i \<and> is_greater U (i3_tick_size i) (Fin 0) \<and>
     is_greater U (i3_min_trade_vol i) (Fin 0) \<and> is_greater U (i3_multiplier i) (Fin 0) \<and>
     i3_trading_status i = OPEN \<and> i3_market_data i \<and> i3_order_management i"

text \<open>The beginning of a download leaves the flag, so the invariant speaks of the other conditions.\<close>

definition Instrument_inv :: "'m utils_scheme \<Rightarrow> ('b, 'o) Instrument \<Rightarrow> bool" where
  "Instrument_inv U i \<longleftrightarrow> (i3_ready i \<longrightarrow> Instrument_tradable U (i\<lparr>i3_download := False\<rparr>))"

text \<open>The messages that evaluate the flag anew.\<close>

fun Instrument_evaluates :: "('b, 'o) Instrument \<Rightarrow> 'u message \<Rightarrow> bool" where
  "Instrument_evaluates i Connected = (\<not> i3_connected i)"
| "Instrument_evaluates i (GatewayStatus g) = True"
| "Instrument_evaluates i (ReferenceData r) = True"
| "Instrument_evaluates i (MarketStatus m) = True"
| "Instrument_evaluates i (DownloadEnd d) = (de_account d = [])"
| "Instrument_evaluates i _ = False"

text \<open>No reference data since the last disconnect.\<close>

definition Instrument_blank :: "('b, 'o) Instrument \<Rightarrow> bool" where
  "Instrument_blank i \<longleftrightarrow> i3_tick_size i = NaN \<and> \<not> i3_ready i"

lemma check_ready_inv [simp]: "Instrument_inv U (Instrument_check_ready U i)"
  by (simp add: Instrument_inv_def Instrument_check_ready_def Instrument_tradable_def)

lemma Instrument_new_inv [simp]: "Instrument_inv U (Instrument_new settings layer0 b o')"
  by (simp add: Instrument_inv_def Instrument_new_def)

lemma update_bool_ok: "updates_ok U \<Longrightarrow> update_bool U c v = (c \<noteq> v, v)"
  by (simp add: updates_ok_def update_lawD)

lemma update_status_ok: "updates_ok U \<Longrightarrow> update_trading_status U c v = (c \<noteq> v, v)"
  by (simp add: updates_ok_def update_lawD)

lemma update_max_ok: "updates_ok U \<Longrightarrow> update_max U c v = (c < v, max c v)"
  by (simp add: updates_ok_def update_max_lawD)

lemma Instrument_step_inv:
  assumes U: "updates_ok U" and inv: "Instrument_inv U i"
    and step: "Instrument_handle dbg U B M i msg = Inr i'"
  shows "Instrument_inv U i'"
proof -
  note up = update_bool_ok [OF U]
  show ?thesis
    using step inv
    by (cases msg)
      (auto simp: machine_defs up result_Inr Let_def Instrument_inv_def Instrument_tradable_def
        Instrument_check_ready_def Instrument_reset_def split: if_splits side.splits)
qed

lemma Instrument_step_ready:
  assumes "updates_ok U" "Instrument_handle dbg U B M i msg = Inr i'"
  shows "Instrument_evaluates i msg \<Longrightarrow> i3_ready i' \<longleftrightarrow> Instrument_tradable U i'"
    and "i3_ready i' \<Longrightarrow> \<not> i3_ready i \<Longrightarrow> \<not> i3_download i'"
  using assms
  by (cases msg; force simp: machine_defs update_bool_ok result_Inr Let_def Instrument_check_ready_def Instrument_tradable_def
      Instrument_reset_def split: if_splits side.splits)+

interpretation instrument_ready: event_machine "Instrument_handle dbg U B M"
  "\<lambda>i. updates_ok U \<and> Instrument_inv U i" for dbg U B M
  by unfold_locales (auto intro: Instrument_step_inv)

lemma Instrument_step_blank:
  assumes U: "comparisons_ok U" and b: "Instrument_blank i"
    and step: "Instrument_handle dbg U B M i msg = Inr i'" and msg: "\<And>r. msg \<noteq> ReferenceData r"
  shows "Instrument_blank i'"
proof -
  have nan: "\<not> is_greater U NaN (Fin 0)" using U unfolding comparisons_ok_def by (metis dlt.simps(3))
  show ?thesis
    using step b msg nan
    by (cases msg)
      (auto simp: machine_defs result_Inr Let_def Instrument_blank_def
        Instrument_check_ready_def Instrument_reset_def split: if_splits side.splits prod.splits)
qed

lemma Instrument_run_blank:
  "comparisons_ok U \<Longrightarrow> Instrument_blank i \<Longrightarrow> run (Instrument_handle dbg U B M) i msgs = Inr i' \<Longrightarrow>
     \<forall>r. ReferenceData r \<notin> set msgs \<Longrightarrow> Instrument_blank i'"
proof (induction msgs arbitrary: i)
  case (Cons msg msgs)
  then obtain t where t: "Instrument_handle dbg U B M i msg = Inr t"
      "run (Instrument_handle dbg U B M) t msgs = Inr i'"
    by (auto simp: bind_result_eq_Inr)
  then have "Instrument_blank t"
    using Instrument_step_blank [OF Cons.prems(1,2) t(1)] Cons.prems(4) by auto
  then show ?case using Cons.IH Cons.prems t(2) by simp
qed simp

section \<open>Position accounting\<close>

text \<open>The updates of one working order: cumulative traded quantities in whole lots.\<close>

definition fill_update :: "order_update \<Rightarrow> u64 \<Rightarrow> side \<Rightarrow> int \<Rightarrow> order_update" where
  "fill_update u oid s q = u\<lparr>ou_order_id := oid, ou_side := s, ou_traded_quantity := dint q\<rparr>"

definition side_position :: "side \<Rightarrow> ('b, 'o) Instrument \<Rightarrow> double" where
  "side_position s i = (if s = BUY then i3_long_position i else i3_short_position i)"

lemma fill_step:
  assumes s: "s = BUY \<or> s = SELL"
    and last: "i3_last_order_id i = oid \<and> i3_last_traded_quantity i = dint t \<or>
               i3_last_order_id i \<noteq> oid \<and> t = 0"
    and pos: "side_position s i = dint P" and b: "\<bar>q - t\<bar> \<le> 2 ^ 53" "\<bar>P + (q - t)\<bar> \<le> 2 ^ 53"
  shows "\<exists>i'. Instrument_on_OrderUpdate dbg i (fill_update u oid s q) = Inr i' \<and>
    i3_last_order_id i' = oid \<and> i3_last_traded_quantity i' = dint q \<and>
    side_position s i' = dint (P + (q - t)) \<and>
    (\<forall>r. (r = BUY \<or> r = SELL) \<and> r \<noteq> s \<longrightarrow> side_position r i' = side_position r i)"
proof -
  have z: "Fin 0 = dint 0" by (simp add: dint_def)
  have "dsub (dint q) (dint t) = dint (q - t)" using b(1) by (rule dsub_dint)
  moreover have "dadd (dint P) (dint (q - t)) = dint (P + (q - t))" using b(2) by (rule dadd_dint)
  ultimately show ?thesis
    using s last pos
    by (auto simp: Instrument_on_OrderUpdate_def fill_update_def side_position_def z)
qed

lemma fills_run:
  assumes s: "s = BUY \<or> s = SELL"
  shows "i3_last_order_id i = oid \<and> i3_last_traded_quantity i = dint t \<or>
      i3_last_order_id i \<noteq> oid \<and> t = 0 \<Longrightarrow> side_position s i = dint (L + t) \<Longrightarrow>
    \<forall>q \<in> set (t # qs). \<bar>q\<bar> \<le> 2 ^ 52 \<Longrightarrow> \<bar>L\<bar> \<le> 2 ^ 52 \<Longrightarrow>
    \<exists>i'. run (Instrument_on_OrderUpdate dbg) i (map (fill_update u oid s) qs) = Inr i' \<and>
      side_position s i' = dint (L + last (t # qs)) \<and>
      i3_last_order_id i' = (if qs = [] then i3_last_order_id i else oid) \<and>
      (\<forall>r. (r = BUY \<or> r = SELL) \<and> r \<noteq> s \<longrightarrow> side_position r i' = side_position r i)"
proof (induction qs arbitrary: i t)
  case (Cons q qs)
  have "\<bar>q - t\<bar> \<le> 2 ^ 53" "\<bar>L + t + (q - t)\<bar> \<le> 2 ^ 53" using Cons.prems(3,4) by auto
  then obtain i1 where i1: "Instrument_on_OrderUpdate dbg i (fill_update u oid s q) = Inr i1"
      "i3_last_order_id i1 = oid" "i3_last_traded_quantity i1 = dint q"
      "side_position s i1 = dint (L + t + (q - t))"
      "\<forall>r. (r = BUY \<or> r = SELL) \<and> r \<noteq> s \<longrightarrow> side_position r i1 = side_position r i"
    using fill_step [OF s Cons.prems(1,2)] by blast
  moreover have "side_position s i1 = dint (L + q)" using i1(4) by simp
  ultimately show ?case using Cons.IH [of i1 q] Cons.prems(3,4) by auto
qed auto

text \<open>Stretches of updates of one order: order id, side and cumulative quantities.\<close>

type_synonym fill_block = "u64 \<times> side \<times> int list"

definition fill_updates :: "order_update \<Rightarrow> fill_block list \<Rightarrow> order_update list" where
  "fill_updates u blocks = concat (map (\<lambda>(oid, s, qs). map (fill_update u oid s) qs) blocks)"

fun apart :: "u64 \<Rightarrow> fill_block list \<Rightarrow> bool" where
  "apart n [] = True"
| "apart n ((oid, s, qs) # blocks) = (oid \<noteq> n \<and> apart oid blocks)"

definition filled :: "side \<Rightarrow> fill_block list \<Rightarrow> int" where
  "filled side blocks = (\<Sum>(oid, s, qs) \<leftarrow> blocks. if s = side then last qs else 0)"

lemma dint_not_NaN: "dint n \<noteq> NaN"
  by (simp add: dint_def)

lemma filled_le: "\<bar>filled side blocks\<bar> \<le> (\<Sum>(oid, s, qs) \<leftarrow> blocks. \<bar>last qs\<bar>)"
  by (induction blocks) (auto simp: filled_def)

lemma blocks_run:
  "apart (i3_last_order_id i) blocks \<Longrightarrow> side_position BUY i = dint L \<Longrightarrow> side_position SELL i = dint S \<Longrightarrow>
    \<bar>L\<bar> + (\<Sum>(oid, s, qs) \<leftarrow> blocks. \<bar>last qs\<bar>) \<le> 2 ^ 52 \<Longrightarrow> \<bar>S\<bar> + (\<Sum>(oid, s, qs) \<leftarrow> blocks. \<bar>last qs\<bar>) \<le> 2 ^ 52 \<Longrightarrow>
    \<forall>(oid, s, qs) \<in> set blocks. (s = BUY \<or> s = SELL) \<and> qs \<noteq> [] \<and> (\<forall>q \<in> set qs. \<bar>q\<bar> \<le> 2 ^ 52) \<Longrightarrow>
    \<exists>i'. run (Instrument_on_OrderUpdate dbg) i (fill_updates u blocks) = Inr i' \<and>
      side_position BUY i' = dint (L + filled BUY blocks) \<and> side_position SELL i' = dint (S + filled SELL blocks)"
proof (induction blocks arbitrary: i L S)
  case (Cons block blocks)
  obtain oid s qs where b: "block = (oid, s, qs)" by (cases block)
  have s: "s = BUY \<or> s = SELL" and qs: "qs \<noteq> []" "\<forall>q \<in> set (0 # qs). \<bar>q\<bar> \<le> 2 ^ 52" and n: "i3_last_order_id i \<noteq> oid"
    using Cons.prems b by auto
  have sum: "0 \<le> (\<Sum>(oid, s, qs) \<leftarrow> blocks. \<bar>last qs\<bar>)" by (rule sum_list_nonneg) auto
  let ?P = "if s = BUY then L else S"
  have P: "side_position s i = dint (?P + 0)" "\<bar>?P\<bar> \<le> 2 ^ 52" using s Cons.prems(2-5) b sum by auto
  obtain t where t: "run (Instrument_on_OrderUpdate dbg) i (map (fill_update u oid s) qs) = Inr t"
      "side_position s t = dint (?P + last qs)" "i3_last_order_id t = oid"
      "\<forall>r. (r = BUY \<or> r = SELL) \<and> r \<noteq> s \<longrightarrow> side_position r t = side_position r i"
    using fills_run [OF s disjI2 [OF conjI [OF n refl]] P(1) qs(2) P(2), of dbg u] qs(1) by auto
  let ?L = "if s = BUY then L + last qs else L" and ?S = "if s = SELL then S + last qs else S"
  have ls: "side_position BUY t = dint ?L" "side_position SELL t = dint ?S" using s t(2,4) Cons.prems(2,3) by auto
  obtain i' where "run (Instrument_on_OrderUpdate dbg) t (fill_updates u blocks) = Inr i'"
      "side_position BUY i' = dint (?L + filled BUY blocks)" "side_position SELL i' = dint (?S + filled SELL blocks)"
  proof -
    have "apart (i3_last_order_id t) blocks" using Cons.prems(1) t(3) b by simp
    moreover have "\<bar>?L\<bar> + (\<Sum>(oid, s, qs) \<leftarrow> blocks. \<bar>last qs\<bar>) \<le> 2 ^ 52" using Cons.prems(4) b sum abs_triangle_ineq [of L "last qs"] by auto
    moreover have "\<bar>?S\<bar> + (\<Sum>(oid, s, qs) \<leftarrow> blocks. \<bar>last qs\<bar>) \<le> 2 ^ 52" using Cons.prems(5) b sum abs_triangle_ineq [of S "last qs"] by auto
    ultimately show thesis using Cons.IH [of t ?L ?S] ls Cons.prems(6) that by auto
  qed
  then show ?case using t(1) s b by (auto simp: fill_updates_def filled_def run_append ac_simps)
qed (simp add: fill_updates_def filled_def)

section \<open>A concrete session\<close>

definition demo_settings :: e3_settings where
  "demo_settings = \<lparr>st_exchange = ''deribit'', st_symbol = ''BTC-PERPETUAL'', st_account = ''A1'',
     st_sample_freq = seconds 1, st_ema_alpha = Fin (1/2), st_warmup = 1,
     st_enable_trading = True, st_allow_price_inversion = False\<rparr>"

definition demo_layer :: layer where
  "demo_layer = \<lparr>bid_price = Fin 10, bid_quantity = Fin 1, ask_price = Fin 12, ask_quantity = Fin 1\<rparr>"

definition demo_instrument :: "(layer option, layer option) Instrument" where
  "demo_instrument = Instrument_new demo_settings demo_layer None None"

definition demo_reference_data :: reference_data where
  "demo_reference_data = \<lparr>rd_exchange = ''deribit'', rd_symbol = ''BTC-PERPETUAL'',
     rd_tick_size = Fin (1/2), rd_min_trade_vol = Fin 1, rd_multiplier = Fin 1\<rparr>"

definition demo_startup :: "layer message list" where
  "demo_startup = [Connected, DownloadBegin \<lparr>db_account = []\<rparr>, ReferenceData demo_reference_data,
     MarketStatus \<lparr>ms_exchange = ''deribit'', ms_symbol = ''BTC-PERPETUAL'', ms_trading_status = OPEN\<rparr>,
     GatewayStatus \<lparr>gs_account = [], available = {REFERENCE_DATA, MARKET_STATUS, MARKET_BY_PRICE}, unavailable = {}\<rparr>,
     GatewayStatus \<lparr>gs_account = ''A1'',
       available = {CREATE_ORDER_support, CANCEL_ORDER_support, ORDER, POSITION}, unavailable = {}\<rparr>,
     DownloadEnd \<lparr>de_account = [], de_max_order_id = 7\<rparr>]"

definition demo_fill :: order_update where
  "demo_fill = \<lparr>ou_order_id = 1, ou_side = BUY, ou_order_status = COMPLETED, ou_update_type = INCREMENTAL,
     ou_quantity = Fin 3, ou_price = Fin 10, ou_traded_quantity = Fin 0, ou_routing_id = []\<rparr>"

lemma demo_ready:
  "\<exists>i. run (Instrument_handle True exact_utils last_book last_book) demo_instrument demo_startup = Inr i \<and>
     i3_ready i \<and> \<not> i3_download i \<and> i3_connected i \<and> i3_multiplier i = Fin 1"
  by (simp add: demo_instrument_def demo_startup_def demo_settings_def demo_reference_data_def
      Instrument_new_def machine_defs Instrument_check_ready_def exact_utils_def Let_def)

lemma demo_last_step:
  "\<exists>i i'. run (Instrument_handle True exact_utils last_book last_book) demo_instrument (butlast demo_startup) = Inr i \<and>
     Instrument_handle True exact_utils last_book last_book i (DownloadEnd \<lparr>de_account = [], de_max_order_id = 7\<rparr>) = Inr i' \<and>
     \<not> i3_ready i \<and> i3_download i \<and> i3_ready i'"
  by (simp add: demo_instrument_def demo_startup_def demo_settings_def demo_reference_data_def
      Instrument_new_def machine_defs Instrument_check_ready_def exact_utils_def Let_def)

section \<open>Properties\<close>

text \<open>C7: Whatever messages a new instrument has handled, its ready flag is exact when it is evaluated:
  after a new connection, a gateway status, reference data, a market status and the end of the market download
  it is set if and only if the instrument is connected and not downloading, has a positive tick size, minimum
  volume and multiplier, the market is open, and both market data and order management are available. At any
  other time it is only set while all of these hold except possibly that no download is in progress, and it is
  never raised during a download.\<close>

theorem Instrument_ready_sound:
  assumes "updates_ok U"
    and "run (Instrument_handle dbg U B M) (Instrument_new settings layer0 b o') msgs = Inr i"
    and "Instrument_handle dbg U B M i msg = Inr i'"
  shows "(Instrument_evaluates i msg \<longrightarrow> (i3_ready i' \<longleftrightarrow> Instrument_tradable U i')) \<and>
    (i3_ready i' \<longrightarrow> Instrument_tradable U (i'\<lparr>i3_download := False\<rparr>)) \<and>
    (i3_ready i' \<and> \<not> i3_ready i \<longrightarrow> \<not> i3_download i')"
proof -
  have "updates_ok U \<and> Instrument_inv U i"
    by (rule instrument_ready.run_inv [OF _ assms(2)]) (simp add: assms(1))
  then have "Instrument_inv U i'" using Instrument_step_inv assms(3) by blast
  then show ?thesis using Instrument_step_ready [OF assms(1,3)] by (auto simp: Instrument_inv_def)
qed

theorem Instrument_ready_sound_witness:
  "\<exists>i i'. run (Instrument_handle True exact_utils last_book last_book) demo_instrument (butlast demo_startup) = Inr i \<and>
     Instrument_handle True exact_utils last_book last_book i (DownloadEnd \<lparr>de_account = [], de_max_order_id = 7\<rparr>) = Inr i' \<and>
     \<not> i3_ready i \<and> i3_download i \<and> i3_ready i' \<and> Instrument_tradable exact_utils i'"
proof -
  obtain i i' where i: "run (Instrument_handle True exact_utils last_book last_book) demo_instrument (butlast demo_startup) = Inr i"
      "Instrument_handle True exact_utils last_book last_book i (DownloadEnd \<lparr>de_account = [], de_max_order_id = 7\<rparr>) = Inr i'"
      "\<not> i3_ready i \<and> i3_download i \<and> i3_ready i'"
    using demo_last_step by blast
  then show ?thesis
    using Instrument_ready_sound [OF exact_utils_updates_ok i(1) [unfolded demo_instrument_def] i(2)] by auto
qed

text \<open>A disconnect makes the instrument blank, and however it is used afterwards it is not
  ready again before new reference data arrives.\<close>

theorem Instrument_not_ready_after_disconnect:
  assumes "updates_ok U" "comparisons_ok U" "i3_connected i"
    and "run (Instrument_handle dbg U B M) i (Disconnected # msgs) = Inr i'"
    and "\<forall>r. ReferenceData r \<notin> set msgs"
  shows "\<not> i3_ready i' \<and> i3_tick_size i' = NaN"
proof -
  have "Instrument_blank (Instrument_on_Disconnected U B i)"
    using assms(1,3) by (simp add: Instrument_on_Disconnected_def update_bool_ok Instrument_reset_def Instrument_blank_def)
  moreover have "run (Instrument_handle dbg U B M) (Instrument_on_Disconnected U B i) msgs = Inr i'"
    using assms(4) by simp
  ultimately have "Instrument_blank i'" using Instrument_run_blank [OF assms(2)] assms(5) by blast
  then show ?thesis by (simp add: Instrument_blank_def)
qed

theorem Instrument_not_ready_after_disconnect_witness:
  "\<exists>i i'. i3_ready i \<and>
     run (Instrument_handle True exact_utils last_book last_book) i [Disconnected, Connected] = Inr i' \<and> \<not> i3_ready i'"
proof -
  obtain i :: "(layer option, layer option) Instrument" where i: "i3_ready i" "i3_connected i" using demo_ready by blast
  obtain i' where "run (Instrument_handle True exact_utils last_book last_book) i [Disconnected, Connected] = Inr i'"
    by simp
  then show ?thesis
    using Instrument_not_ready_after_disconnect [OF exact_utils_updates_ok exact_utils_comparisons_ok i(2)] i
    by fastforce
qed

text \<open>What a disconnect resets: every cached field goes back to its initial value and the
  price book is cleared, except that the multiplier, the extracted depth and the market-by-order
  book keep their old contents.\<close>

theorem Instrument_disconnect_resets:
  assumes "updates_ok U" "i3_connected i"
  shows "Instrument_handle dbg U B M i Disconnected =
    Inr ((Instrument_new \<lparr>st_exchange = i3_exchange i, st_symbol = i3_symbol i, st_account = i3_account i,
            st_sample_freq = f, st_ema_alpha = a, st_warmup = w, st_enable_trading = t,
            st_allow_price_inversion = i3_allow_price_inversion i\<rparr> layer0
            (book_clear B (i3_market_by_price i)) (i3_market_by_order i))
         \<lparr>i3_multiplier := i3_multiplier i, i3_depth := i3_depth i\<rparr>)"
  using assms
  by (simp add: Instrument_on_Disconnected_def update_bool_ok Instrument_reset_def Instrument_new_def)

theorem Instrument_disconnect_resets_witness:
  "\<exists>i i'. i3_multiplier i = Fin 1 \<and>
     Instrument_handle True exact_utils last_book last_book i Disconnected = Inr i' \<and>
     i3_multiplier i' = Fin 1 \<and> i3_tick_size i' = NaN"
proof -
  obtain i :: "(layer option, layer option) Instrument" where i: "i3_connected i" "i3_multiplier i = Fin 1" using demo_ready by blast
  show ?thesis
    using Instrument_disconnect_resets [OF exact_utils_updates_ok i(1), of True last_book last_book] i(2)
    by - (rule exI [of _ i], simp add: Instrument_new_def)
qed

text \<open>The beginning of a market download does not lower the ready flag: an instrument that
  was ready stays ready while downloading, until the next message that re-evaluates the flag.\<close>

theorem Instrument_ready_during_download:
  assumes "i3_ready i" "\<not> i3_download i"
  shows "\<exists>i'. Instrument_handle dbg U B M i (DownloadBegin \<lparr>db_account = []\<rparr>) = Inr i' \<and>
    i3_ready i' \<and> i3_download i' \<and> \<not> i3_ready (Instrument_check_ready U i')"
  using assms by (simp add: Instrument_on_DownloadBegin_def Instrument_check_ready_def)

theorem Instrument_ready_during_download_witness:
  "\<exists>i i'. Instrument_handle True exact_utils last_book last_book i (DownloadBegin \<lparr>db_account = []\<rparr>) = Inr i' \<and>
     i3_ready i' \<and> i3_download i'"
proof -
  obtain i :: "(layer option, layer option) Instrument" where i: "i3_ready i" "\<not> i3_download i" using demo_ready by blast
  then show ?thesis using Instrument_ready_during_download [OF i, of True exact_utils last_book last_book] by blast
qed

text \<open>C8: The position follows the fills. Take any sequence of updates with whole lots, split into the stretches
  of consecutive updates of one order (the same order may come back in a later stretch). However the updates of
  a stretch repeat or revise the cumulative traded quantity, the stretch moves the position of its side by its last
  quantity; so at the end each side has moved by the sum of the last quantities of its stretches, and the net
  position is the difference, exactly, as long as the quantities and their sums stay within \<open>2 ^ 52\<close>. When
  the updates of an order are not interrupted by another order's, that is what the orders have traded.\<close>

theorem Instrument_position_tracks_fills:
  assumes "apart (i3_last_order_id i) blocks"
    and "i3_long_position i = dint L" "i3_short_position i = dint S"
    and "\<bar>L\<bar> + (\<Sum>(oid, s, qs) \<leftarrow> blocks. \<bar>last qs\<bar>) \<le> 2 ^ 52"
    and "\<bar>S\<bar> + (\<Sum>(oid, s, qs) \<leftarrow> blocks. \<bar>last qs\<bar>) \<le> 2 ^ 52"
    and "\<forall>(oid, s, qs) \<in> set blocks. (s = BUY \<or> s = SELL) \<and> qs \<noteq> [] \<and> (\<forall>q \<in> set qs. \<bar>q\<bar> \<le> 2 ^ 52)"
  shows "\<exists>i'. run (Instrument_on_OrderUpdate dbg) i (fill_updates u blocks) = Inr i' \<and>
    i3_long_position i' = dint (L + filled BUY blocks) \<and> i3_short_position i' = dint (S + filled SELL blocks) \<and>
    Instrument_position i' = dint (L + filled BUY blocks - (S + filled SELL blocks))"
proof -
  obtain i' where i': "run (Instrument_on_OrderUpdate dbg) i (fill_updates u blocks) = Inr i'"
      "side_position BUY i' = dint (L + filled BUY blocks)" "side_position SELL i' = dint (S + filled SELL blocks)"
    using blocks_run [OF assms(1) _ _ assms(4-6), of dbg u] assms(2,3) by (auto simp: side_position_def)
  have "\<bar>L + filled BUY blocks - (S + filled SELL blocks)\<bar> \<le> 2 ^ 53"
    using filled_le [of BUY blocks] filled_le [of SELL blocks] assms(4,5) by simp
  then show ?thesis using i' by (auto simp: side_position_def Instrument_position_def dsub_dint isnan_iff dint_not_NaN)
qed

theorem Instrument_position_tracks_fills_witness:
  "\<exists>i'. run (Instrument_on_OrderUpdate True) demo_instrument
       (fill_updates demo_fill [(1, BUY, [1, 3, 3]), (2, SELL, [2]), (3, BUY, [4, 4])]) = Inr i' \<and>
     i3_long_position i' = dint 7 \<and> i3_short_position i' = dint 2 \<and> Instrument_position i' = dint 5"
proof -
  have "i3_long_position demo_instrument = dint 0" "i3_short_position demo_instrument = dint 0"
      "apart (i3_last_order_id demo_instrument) [(1, BUY, [1, 3, 3]), (2, SELL, [2]), (3, BUY, [4, 4])]"
    by (simp_all add: demo_instrument_def Instrument_new_def dint_def)
  then show ?thesis
    using Instrument_position_tracks_fills [of demo_instrument "[(1, BUY, [1, 3, 3]), (2, SELL, [2]), (3, BUY, [4, 4])]" 0 0 True demo_fill]
    by (auto simp: filled_def)
qed

text \<open>
  A stretch is interrupted by any update of another order: only the last order id is kept, so an update of an
  order that is sent again after that counts its whole traded quantity a second time.
\<close>

theorem Instrument_repeated_fill_counts_twice:
  "\<exists>i'. run (Instrument_on_OrderUpdate dbg) demo_instrument
       (map (\<lambda>(oid, s, q). fill_update demo_fill oid s q) [(1, BUY, 2), (2, SELL, 1), (1, BUY, 2)]) = Inr i' \<and>
     i3_long_position i' = dint 4"
proof -
  have z: "Fin 0 = dint 0" by (simp add: dint_def)
  show ?thesis
    by (simp add: Instrument_on_OrderUpdate_def fill_update_def demo_instrument_def Instrument_new_def z dadd_dint dsub_dint)
qed

end
