(* ===== verification/E3_Model.thy ===== *)
theory E3_Model
  imports Roq_API
begin

text \<open>
  The signal model of example 3: the exponential moving average (\<open>ema.cpp\<close>) and the
  direction/signal state machine built on two of them (\<open>model.cpp\<close>). Logging is left out.
  Shown: when the warm-up ends, that the average is monotone in its samples, that the two
  directions exclude each other so the assertion of \<open>Model::update\<close> never fails, and when a
  signal can be produced.
\<close>

section \<open>EMA\<close>

record EMA =
  ema_alpha :: double
  ema_warmup :: u32
  ema_value :: double
  ema_countdown :: u32

definition EMA_new :: "double \<Rightarrow> u32 \<Rightarrow> EMA" where
  "EMA_new alpha warmup =
     \<lparr>ema_alpha = alpha, ema_warmup = warmup, ema_value = NaN, ema_countdown = warmup\<rparr>"

definition EMA_reset :: "EMA \<Rightarrow> EMA" where
  "EMA_reset e = e\<lparr>ema_value := NaN, ema_countdown := ema_warmup e\<rparr>"

definition EMA_is_ready :: "EMA \<Rightarrow> bool" where
  "EMA_is_ready e \<longleftrightarrow> ema_countdown e = 0"

definition EMA_update :: "EMA \<Rightarrow> double \<Rightarrow> double \<times> EMA" where
  "EMA_update e value =
     (let v = (if isnan (ema_value e) then value
               else dadd (dmul (ema_alpha e) value)
                         (dmul (dsub (Fin 1) (ema_alpha e)) (ema_value e)))
      in (v, e\<lparr>ema_countdown := max 1 (ema_countdown e) - 1, ema_value := v\<rparr>))"

text \<open>The state after a list of samples.\<close>

definition EMA_feed :: "EMA \<Rightarrow> double list \<Rightarrow> EMA" where
  "EMA_feed e vs = foldl (\<lambda>e v. snd (EMA_update e v)) e vs"

section \<open>Model\<close>

definition MAX_DEPTH :: nat where
  "MAX_DEPTH = 3"

record Model =
  bid_ema :: EMA
  ask_ema :: EMA
  selling :: bool
  buying :: bool

definition Model_new :: "double \<Rightarrow> u32 \<Rightarrow> Model" where
  "Model_new alpha warmup =
     \<lparr>bid_ema = EMA_new alpha warmup, ask_ema = EMA_new alpha warmup, selling = False, buying = False\<rparr>"

definition Model_reset :: "Model \<Rightarrow> Model" where
  "Model_reset m = m\<lparr>bid_ema := EMA_reset (bid_ema m), ask_ema := EMA_reset (ask_ema m),
                     selling := False, buying := False\<rparr>"

definition Model_validate :: "'m utils_scheme \<Rightarrow> layer list \<Rightarrow> bool" where
  "Model_validate U depth =
     foldl (\<lambda>value l. value \<and> is_greater U (bid_quantity l) (Fin 0) \<and> is_greater U (ask_quantity l) (Fin 0))
       True depth"

definition weighted_bid :: "layer list \<Rightarrow> double" where
  "weighted_bid depth =
     (let (sum_1, sum_2) = foldl (\<lambda>(s1, s2) l.
            (dadd s1 (dmul (bid_quantity l) (bid_price l)), dadd s2 (bid_quantity l))) (Fin 0, Fin 0) depth
      in ddiv sum_1 sum_2)"

definition weighted_ask :: "layer list \<Rightarrow> double" where
  "weighted_ask depth =
     (let (sum_1, sum_2) = foldl (\<lambda>(s1, s2) l.
            (dadd s1 (dmul (ask_quantity l) (ask_price l)), dadd s2 (ask_quantity l))) (Fin 0, Fin 0) depth
      in ddiv sum_1 sum_2)"

definition Model_update :: "bool \<Rightarrow> 'm utils_scheme \<Rightarrow> Model \<Rightarrow> layer list \<Rightarrow> (side \<times> Model) result" where
  "Model_update dbg U m depth =
     (if \<not> Model_validate U depth then Inr (Side_UNDEFINED, m) else
      let bid_fast = weighted_bid depth;
          (bid_slow, bid) = EMA_update (bid_ema m) bid_fast;
          ask_fast = weighted_ask depth;
          (ask_slow, ask) = EMA_update (ask_ema m) ask_fast;
          ready = (EMA_is_ready bid \<and> EMA_is_ready ask);
          (result_1, selling_1, buying_1) =
            (if selling m then
               (if ready \<and> dgt ask_fast ask_slow then (BUY, False, buying m)
                else (Side_UNDEFINED, True, buying m))
             else
               (if dlt ask_fast bid_slow \<and> dlt ask_fast ask_slow then (Side_UNDEFINED, True, False)
                else (Side_UNDEFINED, False, buying m)));
          (result_2, selling_2, buying_2) =
            (if buying_1 then
               (if ready \<and> dgt bid_fast bid_slow then (SELL, selling_1, False)
                else (result_1, selling_1, True))
             else
               (if dgt bid_fast ask_slow \<and> dgt bid_fast bid_slow then (result_1, False, True)
                else (result_1, selling_1, False)))
      in assert_then dbg (\<not> (selling_2 \<and> buying_2))
           (Inr (result_2, \<lparr>bid_ema = bid, ask_ema = ask, selling = selling_2, buying = buying_2\<rparr>)))"

text \<open>The signals of a sequence of depth samples.\<close>

primrec Model_signals ::
  "bool \<Rightarrow> 'm utils_scheme \<Rightarrow> Model \<Rightarrow> layer list list \<Rightarrow> (side list \<times> Model) result" where
  "Model_signals dbg U m [] = Inr ([], m)"
| "Model_signals dbg U m (d # ds) =
     bind_result (Model_update dbg U m d) (\<lambda>(r, m').
     bind_result (Model_signals dbg U m' ds) (\<lambda>(rs, m''). Inr (r # rs, m'')))"

definition Model_exclusive :: "Model \<Rightarrow> bool" where
  "Model_exclusive m \<longleftrightarrow> \<not> (selling m \<and> buying m)"

text \<open>A depth with the same prices and one lot on every level, for concrete runs.\<close>

definition flat_depth :: "rat \<Rightarrow> rat \<Rightarrow> layer list" where
  "flat_depth b a = replicate MAX_DEPTH
     \<lparr>bid_price = Fin b, bid_quantity = Fin 1, ask_price = Fin a, ask_quantity = Fin 1\<rparr>"

section \<open>Lemmas on the moving average\<close>

lemma EMA_feed_Nil [simp]: "EMA_feed e [] = e"
  by (simp add: EMA_feed_def)

lemma EMA_feed_snoc [simp]: "EMA_feed e (vs @ [v]) = snd (EMA_update (EMA_feed e vs) v)"
  by (simp add: EMA_feed_def)

lemma EMA_feed_single [simp]: "EMA_feed e [v] = snd (EMA_update e v)"
  by (simp add: EMA_feed_def)

lemma EMA_update_frame [simp]:
  "ema_alpha (snd (EMA_update e v)) = ema_alpha e"
  "ema_warmup (snd (EMA_update e v)) = ema_warmup e"
  by (simp_all add: EMA_update_def Let_def)

lemma EMA_update_countdown:
  "unat (ema_countdown (snd (EMA_update e v))) = unat (ema_countdown e) - 1"
  by (simp add: EMA_update_def Let_def unat_countdown)

lemma EMA_feed_alpha [simp]: "ema_alpha (EMA_feed e vs) = ema_alpha e"
  by (induction vs rule: rev_induct) simp_all

lemma EMA_feed_countdown:
  "unat (ema_countdown (EMA_feed e vs)) = unat (ema_countdown e) - length vs"
  by (induction vs rule: rev_induct) (simp_all add: EMA_update_countdown)

lemma EMA_is_ready_unat: "EMA_is_ready e \<longleftrightarrow> unat (ema_countdown e) = 0"
  by (simp add: EMA_is_ready_def unat_eq_0)

lemma to_double_unit:
  assumes "0 \<le> x" "x \<le> 1"
  shows "\<exists>b. to_double x = Fin b \<and> 0 \<le> b"
proof -
  have r: "0 \<le> rnd x" "rnd x \<le> 1"
    using rnd_nonneg [OF assms(1)] rnd_mono [OF assms(2)] rnd_of_int [of 1] by simp_all
  have "1 < dbl_overflow" by (simp add: dbl_overflow_def)
  then show ?thesis using r by (auto simp: to_double_def)
qed

lemma EMA_update_value:
  "ema_value (snd (EMA_update e v)) =
     (if ema_value e = NaN then v
      else dadd (dmul (ema_alpha e) v) (dmul (dsub (Fin 1) (ema_alpha e)) (ema_value e)))"
  by (simp add: EMA_update_def Let_def isnan_iff)

text \<open>One step of the average is monotone in the sample and in the old value.\<close>

lemma EMA_step_mono:
  assumes a: "ema_alpha e = Fin a" "ema_alpha e' = Fin a" "0 \<le> a" "a \<le> 1"
    and old: "dle (ema_value e) (ema_value e')" and new: "dle v v'"
    and num: "ema_value (snd (EMA_update e v)) \<noteq> NaN" "ema_value (snd (EMA_update e' v')) \<noteq> NaN"
  shows "dle (ema_value (snd (EMA_update e v))) (ema_value (snd (EMA_update e' v')))"
proof -
  obtain b where b: "dsub (Fin 1) (Fin a) = Fin b" "0 \<le> b"
    using to_double_unit [of "1 - a"] a(3,4) by (auto simp: dsub_def)
  have nan: "ema_value e \<noteq> NaN" "ema_value e' \<noteq> NaN" using dle_not_nan [OF old] by auto
  note eq = EMA_update_value [of e v] EMA_update_value [of e' v']
  have n: "dadd (dmul (Fin a) v) (dmul (Fin b) (ema_value e)) \<noteq> NaN"
      "dadd (dmul (Fin a) v') (dmul (Fin b) (ema_value e')) \<noteq> NaN"
    using num a b nan by (simp_all add: eq)
  have "dle (dmul (Fin a) v) (dmul (Fin a) v')"
    using dmul_mono_left [OF a(3) new] n dadd_not_nanD by blast
  moreover have "dle (dmul (Fin b) (ema_value e)) (dmul (Fin b) (ema_value e'))"
    using dmul_mono_left [OF b(2) old] n dadd_not_nanD by blast
  ultimately have "dle (dadd (dmul (Fin a) v) (dmul (Fin b) (ema_value e)))
      (dadd (dmul (Fin a) v') (dmul (Fin b) (ema_value e')))"
    using n by (rule dadd_mono)
  then show ?thesis using a b nan by (simp add: eq)
qed

definition EMA_numeric :: "EMA \<Rightarrow> double list \<Rightarrow> bool" where
  "EMA_numeric e vs \<longleftrightarrow>
     (\<forall>n \<in> {1..length vs}. ema_value (EMA_feed e (take n vs)) \<noteq> NaN)"

lemma EMA_numeric_snoc:
  "EMA_numeric e (vs @ [v]) \<Longrightarrow>
     EMA_numeric e vs \<and> ema_value (snd (EMA_update (EMA_feed e vs) v)) \<noteq> NaN"
proof -
  assume n: "EMA_numeric e (vs @ [v])"
  have "ema_value (EMA_feed e (take n vs)) \<noteq> NaN" if "n \<in> {1..length vs}" for n
    using n that unfolding EMA_numeric_def by (auto dest: bspec [of _ _ n])
  moreover have "ema_value (EMA_feed e (take (length vs + 1) (vs @ [v]))) \<noteq> NaN"
    using n unfolding EMA_numeric_def by (auto dest: bspec [of _ _ "length vs + 1"])
  ultimately show ?thesis by (simp add: EMA_numeric_def)
qed

lemma EMA_numeric_last: "EMA_numeric e vs \<Longrightarrow> vs \<noteq> [] \<Longrightarrow> ema_value (EMA_feed e vs) \<noteq> NaN"
  by (cases vs rule: rev_cases) (auto dest: EMA_numeric_snoc)

lemma EMA_feed_mono:
  assumes "ema_alpha e = Fin a" "0 \<le> a" "a \<le> 1" "ema_value e = NaN"
  shows "list_all2 dle xs ys \<Longrightarrow> EMA_numeric e xs \<Longrightarrow> EMA_numeric e ys \<Longrightarrow> xs \<noteq> [] \<Longrightarrow>
    dle (ema_value (EMA_feed e xs)) (ema_value (EMA_feed e ys))"
proof (induction xs arbitrary: ys rule: rev_induct)
  case (snoc x xs)
  from snoc.prems(1) obtain zs y where ys: "ys = zs @ [y]" "list_all2 dle xs zs" "dle x y"
    by (auto simp: list_all2_append1 list_all2_Cons1)
  have num: "EMA_numeric e xs" "EMA_numeric e zs"
      "ema_value (snd (EMA_update (EMA_feed e xs) x)) \<noteq> NaN"
      "ema_value (snd (EMA_update (EMA_feed e zs) y)) \<noteq> NaN"
    using EMA_numeric_snoc snoc.prems(2,3) ys(1) by blast+
  show ?case
  proof (cases "xs = []")
    case True
    then show ?thesis using ys assms(4) by (simp add: EMA_update_value)
  next
    case False
    have "dle (ema_value (EMA_feed e xs)) (ema_value (EMA_feed e zs))"
      using snoc.IH [OF ys(2) num(1,2) False] .
    then show ?thesis
      using EMA_step_mono [OF _ _ assms(2,3) _ ys(3) num(3,4)] assms(1) ys(1) by simp
  qed
qed simp

section \<open>Lemmas on the signal model\<close>

text \<open>The update as a relation between the flags before and after, on a valid depth.\<close>

lemma Model_update_invalid:
  "\<not> Model_validate U depth \<Longrightarrow> Model_update dbg U m depth = Inr (Side_UNDEFINED, m)"
  by (simp add: Model_update_def)

lemma Model_update_total:
  assumes "Model_exclusive m"
  shows "\<exists>r m'. Model_update dbg U m depth = Inr (r, m') \<and> Model_exclusive m'"
  using assms
  by (auto simp: Model_update_def Model_exclusive_def assert_then_def Let_def split: prod.splits)

lemma Model_update_exclusive:
  "Model_exclusive m \<Longrightarrow> Model_update dbg U m depth = Inr (r, m') \<Longrightarrow> Model_exclusive m'"
  using Model_update_total [of m dbg U depth] by auto

lemma Model_update_signal:
  assumes "Model_exclusive m" "Model_update dbg U m depth = Inr (r, m')" "r \<noteq> Side_UNDEFINED"
  shows "Model_validate U depth \<and> EMA_is_ready (bid_ema m') \<and> EMA_is_ready (ask_ema m') \<and>
    (r = BUY \<longrightarrow> selling m \<and> \<not> selling m' \<and> dgt (weighted_ask depth) (ema_value (ask_ema m'))) \<and>
    (r = SELL \<longrightarrow> buying m \<and> \<not> buying m' \<and> dgt (weighted_bid depth) (ema_value (bid_ema m')))"
  using assms
  by (auto simp: Model_update_def Model_exclusive_def assert_then_def EMA_update_def Let_def
      split: if_splits)

text \<open>On a valid depth both signals are decided by the direction and the two averages.\<close>

lemma Model_update_exact:
  assumes "Model_exclusive m" "Model_update dbg U m depth = Inr (r, m')" "Model_validate U depth"
  shows "r = BUY \<longleftrightarrow> selling m \<and> EMA_is_ready (bid_ema m') \<and> EMA_is_ready (ask_ema m') \<and>
      dgt (weighted_ask depth) (ema_value (ask_ema m'))"
    and "r = SELL \<longleftrightarrow> buying m \<and> EMA_is_ready (bid_ema m') \<and> EMA_is_ready (ask_ema m') \<and>
      dgt (weighted_bid depth) (ema_value (bid_ema m')) \<and>
      \<not> (dlt (weighted_ask depth) (ema_value (bid_ema m')) \<and> dlt (weighted_ask depth) (ema_value (ask_ema m')))"
  using assms
  by (auto simp: Model_update_def Model_exclusive_def assert_then_def EMA_update_def Let_def split: if_splits)

lemma Model_update_emas:
  assumes "Model_update dbg U m depth = Inr (r, m')" "Model_validate U depth"
  shows "bid_ema m' = snd (EMA_update (bid_ema m) (weighted_bid depth)) \<and>
         ask_ema m' = snd (EMA_update (ask_ema m) (weighted_ask depth))"
  using assms by (auto simp: Model_update_def assert_then_def Let_def split: if_splits prod.splits)

lemma Model_update_countdown:
  assumes "Model_update dbg U m depth = Inr (r, m')"
  shows "unat (ema_countdown (bid_ema m')) =
    unat (ema_countdown (bid_ema m)) - length (filter (Model_validate U) [depth])"
  using assms Model_update_emas [OF assms] Model_update_invalid [of U depth dbg m]
  by (cases "Model_validate U depth") (simp_all add: EMA_update_countdown)

lemma Model_reset_exclusive [simp]: "Model_exclusive (Model_reset m)"
  by (simp add: Model_exclusive_def Model_reset_def)

lemma Model_new_exclusive [simp]: "Model_exclusive (Model_new a w)"
  by (simp add: Model_exclusive_def Model_new_def)

lemma Model_signals_total:
  "Model_exclusive m \<Longrightarrow>
     \<exists>rs m'. Model_signals dbg U m ds = Inr (rs, m') \<and> Model_exclusive m' \<and> length rs = length ds"
proof (induction ds arbitrary: m)
  case (Cons d ds)
  obtain r m' where u: "Model_update dbg U m d = Inr (r, m')" and m': "Model_exclusive m'"
    using Model_update_total [OF Cons.prems] by blast
  from Cons.IH [OF m'] u show ?case by auto
qed simp

lemma Model_signals_warm:
  assumes "Model_exclusive m" "Model_signals dbg U m ds = Inr (rs, m')"
    "i < length rs" "rs ! i \<noteq> Side_UNDEFINED"
  shows "unat (ema_countdown (bid_ema m)) \<le> length (filter (Model_validate U) (take (Suc i) ds))"
  using assms
proof (induction ds arbitrary: m rs i)
  case (Cons d ds)
  from Cons.prems(2) obtain r m1 rs' where u: "Model_update dbg U m d = Inr (r, m1)"
      and t: "Model_signals dbg U m1 ds = Inr (rs', m')" and rs: "rs = r # rs'"
    by (auto simp: bind_result_eq_Inr)
  have m1: "Model_exclusive m1" using Model_update_exclusive [OF Cons.prems(1) u] .
  note cd = Model_update_countdown [OF u]
  show ?case
  proof (cases i)
    case 0
    then have "r \<noteq> Side_UNDEFINED" using Cons.prems(4) rs by simp
    then have "Model_validate U d" "EMA_is_ready (bid_ema m1)"
      using Model_update_signal [OF Cons.prems(1) u] by auto
    then show ?thesis using cd 0 by (simp add: EMA_is_ready_unat)
  next
    case (Suc j)
    then have "unat (ema_countdown (bid_ema m1)) \<le> length (filter (Model_validate U) (take (Suc j) ds))"
      using Cons.IH [OF m1 t] Cons.prems(3,4) rs by simp
    then show ?thesis using cd Suc by (simp split: if_splits)
  qed
qed simp

subsection \<open>A concrete run\<close>

lemma flat_depth_valid [simp]: "Model_validate exact_utils (flat_depth b a)"
  by (simp add: Model_validate_def flat_depth_def MAX_DEPTH_def exact_utils_def numeral_3_eq_3)

lemma flat_depth_weights:
  "weighted_bid (flat_depth 10 12) = Fin 10" "weighted_ask (flat_depth 10 12) = Fin 12"
  "weighted_bid (flat_depth 4 6) = Fin 4" "weighted_ask (flat_depth 4 6) = Fin 6"
  "weighted_bid (flat_depth 12 14) = Fin 12" "weighted_ask (flat_depth 12 14) = Fin 14"
  by (simp_all add: weighted_bid_def weighted_ask_def flat_depth_def MAX_DEPTH_def numeral_3_eq_3)

lemmas Model_eval = Model_update_def Model_reset_def Model_new_def EMA_new_def EMA_reset_def
  EMA_update_def EMA_is_ready_def dsub_def flat_depth_weights Let_def

text \<open>Prices fall, the direction becomes selling; they rise above the slow average: BUY.\<close>

lemma dip_signals:
  "\<exists>m'. Model_signals True exact_utils (Model_reset (Model_new (Fin (1/2)) 1))
     [flat_depth 10 12, flat_depth 4 6, flat_depth 12 14] =
     Inr ([Side_UNDEFINED, Side_UNDEFINED, BUY], m')"
  by (simp add: Model_eval)

definition dip_model :: Model where
  "dip_model = \<lparr>bid_ema = \<lparr>ema_alpha = Fin (1/2), ema_warmup = 1, ema_value = Fin 7, ema_countdown = 0\<rparr>,
                ask_ema = \<lparr>ema_alpha = Fin (1/2), ema_warmup = 1, ema_value = Fin 9, ema_countdown = 0\<rparr>,
                selling = True, buying = False\<rparr>"

lemma dip_update:
  "\<exists>m'. Model_update True exact_utils dip_model (flat_depth 12 14) = Inr (BUY, m')"
  by (simp add: Model_eval dip_model_def)

text \<open>In the buying direction the fast bid rises above the slow one: SELL.\<close>

definition peak_model :: Model where
  "peak_model = dip_model\<lparr>selling := False, buying := True\<rparr>"

lemma peak_update:
  "\<exists>m'. Model_update True exact_utils peak_model (flat_depth 12 14) = Inr (SELL, m')"
  by (simp add: Model_eval dip_model_def peak_model_def)

section \<open>Properties\<close>

text \<open>After a reset the average reports ready exactly when it has seen at least \<open>warmup\<close>
  samples: the unsigned countdown of \<open>EMA::update\<close> neither underflows nor restarts.\<close>

theorem EMA_warmup:
  "EMA_is_ready (EMA_feed (EMA_reset e) vs) \<longleftrightarrow> unat (ema_warmup e) \<le> length vs"
  by (simp add: EMA_is_ready_unat EMA_feed_countdown EMA_reset_def)

text \<open>C9: For a smoothing factor between 0 and 1 the average is monotone in its samples in
  binary64 arithmetic, rounding included: samples that are pointwise no larger give an average
  that is no larger, as long as no value along the two runs is NaN.\<close>

theorem EMA_monotone:
  assumes "ema_alpha e = Fin a" "0 \<le> a" "a \<le> 1" "list_all2 dle xs ys" "xs \<noteq> []"
    "EMA_numeric (EMA_reset e) xs" "EMA_numeric (EMA_reset e) ys"
  shows "dle (ema_value (EMA_feed (EMA_reset e) xs)) (ema_value (EMA_feed (EMA_reset e) ys))"
  using assms by (intro EMA_feed_mono) (simp_all add: EMA_reset_def)

lemma EMA_numeric_two:
  "v \<noteq> NaN \<Longrightarrow> ema_value (snd (EMA_update (snd (EMA_update e v)) w)) \<noteq> NaN \<Longrightarrow> ema_value e = NaN \<Longrightarrow>
     EMA_numeric e [v, w]"
proof -
  assume h: "v \<noteq> NaN" "ema_value (snd (EMA_update (snd (EMA_update e v)) w)) \<noteq> NaN" "ema_value e = NaN"
  have "{1..length [v, w]} = {1, 2}" by auto
  then show ?thesis using h by (simp add: EMA_numeric_def EMA_feed_def EMA_update_value numeral_2_eq_2)
qed

theorem EMA_monotone_witness:
  "dle (ema_value (EMA_feed (EMA_reset (EMA_new (Fin (1/2)) 2)) [Fin 4, Fin 8]))
       (ema_value (EMA_feed (EMA_reset (EMA_new (Fin (1/2)) 2)) [Fin 6, Fin 8]))"
proof (rule EMA_monotone [where a = "1/2"])
  show "EMA_numeric (EMA_reset (EMA_new (Fin (1/2)) 2)) [Fin 4, Fin 8]"
    by (rule EMA_numeric_two) (simp_all add: EMA_new_def EMA_reset_def EMA_update_value dsub_def)
  show "EMA_numeric (EMA_reset (EMA_new (Fin (1/2)) 2)) [Fin 6, Fin 8]"
    by (rule EMA_numeric_two) (simp_all add: EMA_new_def EMA_reset_def EMA_update_value dsub_def)
qed (simp_all add: EMA_new_def EMA_reset_def)

text \<open>From a reset model every sequence of depth samples is processed without a failed
  assertion, in a debug build as in a release build: the directions \<open>selling\<close> and \<open>buying\<close>
  are never both set, and there is one signal per sample.\<close>

theorem Model_never_both:
  "\<exists>rs m'. Model_signals dbg U (Model_reset m) ds = Inr (rs, m') \<and>
     \<not> (selling m' \<and> buying m') \<and> length rs = length ds"
  using Model_signals_total [OF Model_reset_exclusive] unfolding Model_exclusive_def .

text \<open>After a reset no signal is produced before \<open>warmup\<close> samples with full depth have
  been seen: the sample with the first signal is at least the \<open>warmup\<close>-th valid one.\<close>

theorem Model_signal_after_warmup:
  assumes "Model_signals dbg U (Model_reset m) ds = Inr (rs, m')"
    "i < length rs" "rs ! i \<noteq> Side_UNDEFINED"
  shows "unat (ema_warmup (bid_ema m)) \<le> length (filter (Model_validate U) (take (Suc i) ds))"
  using Model_signals_warm [OF Model_reset_exclusive assms] by (simp add: Model_reset_def EMA_reset_def)

theorem Model_signal_after_warmup_witness:
  "unat (ema_warmup (bid_ema (Model_new (Fin (1/2)) 1))) \<le>
     length (filter (Model_validate exact_utils)
       (take (Suc 2) [flat_depth 10 12, flat_depth 4 6, flat_depth 12 14]))"
proof -
  obtain m' where m': "Model_signals True exact_utils (Model_reset (Model_new (Fin (1/2)) 1))
     [flat_depth 10 12, flat_depth 4 6, flat_depth 12 14] =
     Inr ([Side_UNDEFINED, Side_UNDEFINED, BUY], m')"
    using dip_signals by blast
  show ?thesis using Model_signal_after_warmup [OF m', of 2] by simp
qed

text \<open>C10: The signals are exactly these. BUY is given if and only if the depth is full, the direction is
  selling, both averages are warm and the fast ask is above the slow ask; SELL if and only if the depth is full,
  the direction is buying, both averages are warm, the fast bid is above the slow bid, and the fast ask is not
  below both slow averages (which would turn the direction to selling first). Each signal ends its direction.\<close>

theorem Model_signal_sound:
  assumes "Model_exclusive m" "Model_update dbg U m depth = Inr (r, m')"
  shows "(r = BUY \<longleftrightarrow> Model_validate U depth \<and> selling m \<and> EMA_is_ready (bid_ema m') \<and> EMA_is_ready (ask_ema m') \<and>
      dgt (weighted_ask depth) (ema_value (ask_ema m'))) \<and>
    (r = SELL \<longleftrightarrow> Model_validate U depth \<and> buying m \<and> EMA_is_ready (bid_ema m') \<and> EMA_is_ready (ask_ema m') \<and>
      dgt (weighted_bid depth) (ema_value (bid_ema m')) \<and>
      \<not> (dlt (weighted_ask depth) (ema_value (bid_ema m')) \<and> dlt (weighted_ask depth) (ema_value (ask_ema m')))) \<and>
    (r = BUY \<longrightarrow> \<not> selling m') \<and> (r = SELL \<longrightarrow> \<not> buying m')"
proof (cases "Model_validate U depth")
  case True
  then show ?thesis using Model_update_exact [OF assms True] Model_update_signal [OF assms] by auto
next
  case False
  then show ?thesis using assms(2) by (auto simp: Model_update_invalid)
qed

theorem Model_signal_sound_witness:
  "\<exists>m' m''. Model_update True exact_utils dip_model (flat_depth 12 14) = Inr (BUY, m') \<and> \<not> selling m' \<and>
     Model_update True exact_utils peak_model (flat_depth 12 14) = Inr (SELL, m'') \<and> \<not> buying m''"
proof -
  obtain m' where m': "Model_update True exact_utils dip_model (flat_depth 12 14) = Inr (BUY, m')"
    using dip_update by blast
  obtain m'' where m'': "Model_update True exact_utils peak_model (flat_depth 12 14) = Inr (SELL, m'')"
    using peak_update by blast
  have "Model_exclusive dip_model" "Model_exclusive peak_model"
    by (simp_all add: Model_exclusive_def dip_model_def peak_model_def)
  then show ?thesis using Model_signal_sound [OF _ m'] Model_signal_sound [OF _ m''] m' m'' by auto
qed

end
