(* ===== verification/E3_Strategy.thy ===== *)
theory E3_Strategy
  imports E3_Instrument E3_Model
begin

text \<open>
  The trading strategy of example 3 (\<open>strategy.hpp\<close>, \<open>strategy.cpp\<close>): a timer samples the
  signal model while the instrument is ready, and a signal may cancel the working order or
  create a new one. The state carries the requests handed to the dispatcher (\<open>s3_sent\<close>).
  Shown: no requests unless trading is enabled, what every order that is sent looks like and
  when it may be sent, one working order at a time, and order ids that are never recycled.
\<close>

section \<open>State\<close>

record ('b, 'o) Strategy3 =
  s3_instrument :: "('b, 'o) Instrument"
  s3_max_order_id :: u64
  s3_model :: Model
  s3_next_sample :: nanoseconds
  s3_working_order_id :: u64
  s3_working_side :: side
  s3_sent :: outbox

definition Strategy3_new :: "'a e3_settings_scheme \<Rightarrow> layer \<Rightarrow> 'b \<Rightarrow> 'o \<Rightarrow> ('b, 'o) Strategy3" where
  "Strategy3_new settings layer0 b o' = \<lparr>
     s3_instrument = Instrument_new settings layer0 b o', s3_max_order_id = 0,
     s3_model = Model_new (st_ema_alpha settings) (st_warmup settings), s3_next_sample = 0,
     s3_working_order_id = 0, s3_working_side = Side_UNDEFINED, s3_sent = []\<rparr>"

section \<open>Operations\<close>

definition Strategy3_send :: "dispatcher \<Rightarrow> request \<Rightarrow> u8 \<Rightarrow> ('b, 'o) Strategy3 \<Rightarrow> ('b, 'o) Strategy3 result" where
  "Strategy3_send D r src s =
     (case D r src of Some x \<Rightarrow> Inl (Raised x) | None \<Rightarrow> Inr (s\<lparr>s3_sent := s3_sent s @ [(r, src)]\<rparr>))"

definition Strategy3_create_order ::
  "'a e3_settings_scheme \<Rightarrow> ('b, 'o) Strategy3 \<Rightarrow> u64 \<Rightarrow> side \<Rightarrow> double \<Rightarrow> create_order" where
  "Strategy3_create_order settings s order_id sd price = \<lparr>
     co_account = st_account settings, co_order_id = order_id, co_exchange = st_exchange settings,
     co_symbol = st_symbol settings, co_side = sd, co_max_show_quantity = NaN, co_order_type = LIMIT,
     co_time_in_force = GTC, co_execution_instructions = [],
     co_quantity = i3_min_trade_vol (s3_instrument s), co_price = price, co_stop_price = NaN,
     co_leverage = NaN, co_routing_id = [], co_strategy_id = 0\<rparr>"

definition Strategy3_try_trade ::
  "bool \<Rightarrow> 'm utils_scheme \<Rightarrow> 'a e3_settings_scheme \<Rightarrow> dispatcher \<Rightarrow> ('b, 'o) Strategy3 \<Rightarrow> side \<Rightarrow> double \<Rightarrow>
     ('b, 'o) Strategy3 result" where
  "Strategy3_try_trade dbg U settings D s sd price =
     (if \<not> st_enable_trading settings then Inr s
      else if s3_working_order_id s \<noteq> 0 then
        (if sd \<noteq> s3_working_side s then
           Strategy3_send D (CancelOrder \<lparr>ca_account = st_account settings,
             ca_order_id = s3_working_order_id s, ca_routing_id = []\<rparr>) 0 s
         else Inr s)
      else bind_result (Instrument_can_trade dbg U (s3_instrument s) sd) (\<lambda>ok.
        if \<not> ok then Inr s
        else let order_id = s3_max_order_id s + 1;
                 s1 = s\<lparr>s3_max_order_id := order_id\<rparr>
          in bind_result
               (Strategy3_send D (CreateOrder (Strategy3_create_order settings s1 order_id sd price)) 0 s1)
               (\<lambda>s2. Inr (s2\<lparr>s3_working_order_id := order_id, s3_working_side := sd\<rparr>))))"

definition Strategy3_update_model ::
  "bool \<Rightarrow> 'm utils_scheme \<Rightarrow> 'a e3_settings_scheme \<Rightarrow> dispatcher \<Rightarrow> ('b, 'o) Strategy3 \<Rightarrow> ('b, 'o) Strategy3 result" where
  "Strategy3_update_model dbg U settings D s =
     (if i3_ready (s3_instrument s) then
        bind_result (Model_update dbg U (s3_model s) (i3_depth (s3_instrument s))) (\<lambda>(sd, m).
        let s1 = s\<lparr>s3_model := m\<rparr>
        in case sd of
             Side_UNDEFINED \<Rightarrow> Inr s1
           | BUY \<Rightarrow> Strategy3_try_trade dbg U settings D s1 sd (Instrument_best_bid (s3_instrument s1))
           | SELL \<Rightarrow> Strategy3_try_trade dbg U settings D s1 sd (Instrument_best_ask (s3_instrument s1)))
      else Inr (s\<lparr>s3_model := Model_reset (s3_model s)\<rparr>))"

text \<open>\<open>std::chrono::duration_cast\<close> to seconds truncates towards zero.\<close>

definition floor_seconds :: "nanoseconds \<Rightarrow> nanoseconds" where
  "floor_seconds t = (if 0 \<le> t then seconds (t div seconds 1) else - seconds ((- t) div seconds 1))"

definition Strategy3_on_Timer ::
  "bool \<Rightarrow> 'm utils_scheme \<Rightarrow> 'a e3_settings_scheme \<Rightarrow> dispatcher \<Rightarrow> ('b, 'o) Strategy3 \<Rightarrow> nanoseconds \<Rightarrow>
     ('b, 'o) Strategy3 result" where
  "Strategy3_on_Timer dbg U settings D s now =
     (if now < s3_next_sample s then Inr s
      else bind_result
        (if s3_next_sample s \<noteq> 0 then Strategy3_update_model dbg U settings D s else Inr s)
        (\<lambda>s1. Inr (s1\<lparr>s3_next_sample := floor_seconds now + st_sample_freq settings\<rparr>)))"

definition Strategy3_dispatch ::
  "bool \<Rightarrow> 'm utils_scheme \<Rightarrow> ('b, 'u) book_ops \<Rightarrow> ('o, 'u) book_ops \<Rightarrow> message_info \<Rightarrow> ('b, 'o) Strategy3 \<Rightarrow>
     'u message \<Rightarrow> ('b, 'o) Strategy3 result" where
  "Strategy3_dispatch dbg U B M info s msg =
     (if source info = 0 then
        bind_result (Instrument_handle dbg U B M (s3_instrument s) msg) (\<lambda>i. Inr (s\<lparr>s3_instrument := i\<rparr>))
      else Inr s)"

fun Strategy3_step ::
  "bool \<Rightarrow> 'm utils_scheme \<Rightarrow> ('b, 'u) book_ops \<Rightarrow> ('o, 'u) book_ops \<Rightarrow> 'a e3_settings_scheme \<Rightarrow>
     ('b, 'o) Strategy3 \<Rightarrow> 'u client_event \<Rightarrow> ('b, 'o) Strategy3 result" where
  "Strategy3_step dbg U B M settings s (D, info, Timer now) = Strategy3_on_Timer dbg U settings D s now"
| "Strategy3_step dbg U B M settings s (D, info, DownloadEnd d) =
     bind_result (Strategy3_dispatch dbg U B M info s (DownloadEnd d)) (\<lambda>s1.
     Inr (s1\<lparr>s3_max_order_id := snd (update_max U (s3_max_order_id s1) (de_max_order_id d))\<rparr>))"
| "Strategy3_step dbg U B M settings s (D, info, OrderUpdate u) =
     bind_result (Strategy3_dispatch dbg U B M info s (OrderUpdate u)) (\<lambda>s1.
     Inr (if is_order_complete U (ou_order_status u)
          then s1\<lparr>s3_working_order_id := 0, s3_working_side := Side_UNDEFINED\<rparr> else s1))"
| "Strategy3_step dbg U B M settings s (D, info, Connected) = Strategy3_dispatch dbg U B M info s Connected"
| "Strategy3_step dbg U B M settings s (D, info, Disconnected) = Strategy3_dispatch dbg U B M info s Disconnected"
| "Strategy3_step dbg U B M settings s (D, info, DownloadBegin d) = Strategy3_dispatch dbg U B M info s (DownloadBegin d)"
| "Strategy3_step dbg U B M settings s (D, info, GatewayStatus g) = Strategy3_dispatch dbg U B M info s (GatewayStatus g)"
| "Strategy3_step dbg U B M settings s (D, info, ReferenceData r) = Strategy3_dispatch dbg U B M info s (ReferenceData r)"
| "Strategy3_step dbg U B M settings s (D, info, MarketStatus m) = Strategy3_dispatch dbg U B M info s (MarketStatus m)"
| "Strategy3_step dbg U B M settings s (D, info, MarketByPriceUpdate u) = Strategy3_dispatch dbg U B M info s (MarketByPriceUpdate u)"
| "Strategy3_step dbg U B M settings s (D, info, MarketByOrderUpdate u) = Strategy3_dispatch dbg U B M info s (MarketByOrderUpdate u)"
| "Strategy3_step dbg U B M settings s (D, info, PositionUpdate p) = Strategy3_dispatch dbg U B M info s (PositionUpdate p)"
| "Strategy3_step dbg U B M settings s (D, info, _) = Inr s"

section \<open>Lemmas\<close>

text \<open>What trading on a signal can do: nothing, cancel the working order, or create one.\<close>

definition cancels :: "'a e3_settings_scheme \<Rightarrow> ('b, 'o) Strategy3 \<Rightarrow> side \<Rightarrow> ('b, 'o) Strategy3 \<Rightarrow> bool" where
  "cancels settings s sd s' \<longleftrightarrow>
     st_enable_trading settings \<and> s3_working_order_id s \<noteq> 0 \<and> sd \<noteq> s3_working_side s \<and>
     s' = s\<lparr>s3_sent := s3_sent s @ [(CancelOrder \<lparr>ca_account = st_account settings,
             ca_order_id = s3_working_order_id s, ca_routing_id = []\<rparr>, 0)]\<rparr>"

definition creates ::
  "bool \<Rightarrow> 'm utils_scheme \<Rightarrow> 'a e3_settings_scheme \<Rightarrow> ('b, 'o) Strategy3 \<Rightarrow> side \<Rightarrow> double \<Rightarrow> ('b, 'o) Strategy3 \<Rightarrow> bool" where
  "creates dbg U settings s sd price s' \<longleftrightarrow>
     st_enable_trading settings \<and> s3_working_order_id s = 0 \<and>
     Instrument_can_trade dbg U (s3_instrument s) sd = Inr True \<and>
     s' = s\<lparr>s3_max_order_id := s3_max_order_id s + 1,
            s3_working_order_id := s3_max_order_id s + 1, s3_working_side := sd,
            s3_sent := s3_sent s @
              [(CreateOrder (Strategy3_create_order settings s (s3_max_order_id s + 1) sd price), 0)]\<rparr>"

lemma try_trade_cases:
  assumes "Strategy3_try_trade dbg U settings D s sd price = Inr s'"
  shows "s' = s \<or> cancels settings s sd s' \<or> creates dbg U settings s sd price s'"
  using assms
  by (auto simp: Strategy3_try_trade_def Strategy3_send_def cancels_def creates_def result_Inr Let_def
      Strategy3_create_order_def split: if_splits option.splits)

lemma update_model_cases:
  assumes "Strategy3_update_model dbg U settings D s = Inr s'"
  shows "\<exists>m sd price. let s1 = s\<lparr>s3_model := m\<rparr> in
    s' = s1 \<or>
    i3_ready (s3_instrument s) \<and> (sd = BUY \<and> price = Instrument_best_bid (s3_instrument s) \<or>
       sd = SELL \<and> price = Instrument_best_ask (s3_instrument s)) \<and>
    Model_update dbg U (s3_model s) (i3_depth (s3_instrument s)) = Inr (sd, m) \<and>
    (cancels settings s1 sd s' \<or> creates dbg U settings s1 sd price s')"
proof (cases "i3_ready (s3_instrument s)")
  case True
  then obtain sd m where u: "Model_update dbg U (s3_model s) (i3_depth (s3_instrument s)) = Inr (sd, m)"
    using assms by (auto simp: Strategy3_update_model_def result_Inr)
  show ?thesis
  proof (cases sd)
    case Side_UNDEFINED
    then show ?thesis using assms u True by (auto simp: Strategy3_update_model_def Let_def)
  next
    case BUY
    then have "Strategy3_try_trade dbg U settings D (s\<lparr>s3_model := m\<rparr>) BUY
        (Instrument_best_bid (s3_instrument s)) = Inr s'"
      using assms u True by (simp add: Strategy3_update_model_def Let_def)
    from try_trade_cases [OF this] show ?thesis using u True BUY by (fastforce simp: Let_def)
  next
    case SELL
    then have "Strategy3_try_trade dbg U settings D (s\<lparr>s3_model := m\<rparr>) SELL
        (Instrument_best_ask (s3_instrument s)) = Inr s'"
      using assms u True by (simp add: Strategy3_update_model_def Let_def)
    from try_trade_cases [OF this] show ?thesis using u True SELL by (fastforce simp: Let_def)
  qed
next
  case False
  then have "s' = s\<lparr>s3_model := Model_reset (s3_model s)\<rparr>"
    using assms by (simp add: Strategy3_update_model_def)
  then show ?thesis by (auto simp: Let_def)
qed

text \<open>The relation between the states around one event, as the properties below use it: the
  trading part is untouched, a completed order is forgotten, or the timer acted on a signal.\<close>

definition same_orders :: "('b, 'o) Strategy3 \<Rightarrow> ('b, 'o) Strategy3 \<Rightarrow> bool" where
  "same_orders s s' \<longleftrightarrow> s3_sent s' = s3_sent s \<and> s3_working_order_id s' = s3_working_order_id s \<and>
     s3_working_side s' = s3_working_side s"

definition signalled ::
  "bool \<Rightarrow> 'm utils_scheme \<Rightarrow> ('b, 'o) Strategy3 \<Rightarrow> nanoseconds \<Rightarrow> side \<Rightarrow> double \<Rightarrow> Model \<Rightarrow> bool" where
  "signalled dbg U s now sd price m \<longleftrightarrow>
     s3_next_sample s \<noteq> 0 \<and> s3_next_sample s \<le> now \<and> i3_ready (s3_instrument s) \<and>
     Model_update dbg U (s3_model s) (i3_depth (s3_instrument s)) = Inr (sd, m) \<and>
     (sd = BUY \<and> price = Instrument_best_bid (s3_instrument s) \<or>
      sd = SELL \<and> price = Instrument_best_ask (s3_instrument s))"

lemma timer_cases:
  assumes "Strategy3_on_Timer dbg U settings D s now = Inr s'"
  shows "same_orders s s' \<and> s3_max_order_id s' = s3_max_order_id s \<or>
    (\<exists>sd price m t. signalled dbg U s now sd price m \<and>
       (cancels settings (s\<lparr>s3_model := m\<rparr>) sd t \<or> creates dbg U settings (s\<lparr>s3_model := m\<rparr>) sd price t) \<and>
       s' = t\<lparr>s3_next_sample := floor_seconds now + st_sample_freq settings\<rparr>)"
proof (cases "now < s3_next_sample s \<or> s3_next_sample s = 0")
  case True
  then show ?thesis using assms by (auto simp: Strategy3_on_Timer_def same_orders_def split: if_splits)
next
  case False
  then obtain t where t: "Strategy3_update_model dbg U settings D s = Inr t"
      and s': "s' = t\<lparr>s3_next_sample := floor_seconds now + st_sample_freq settings\<rparr>"
    using assms by (auto simp: Strategy3_on_Timer_def result_Inr)
  from update_model_cases [OF t] False show ?thesis
    unfolding Let_def signalled_def s' by (fastforce simp: same_orders_def)
qed

lemma dispatch_same:
  assumes "Strategy3_dispatch dbg U B M info s msg = Inr s'"
  shows "same_orders s s' \<and> s3_max_order_id s' = s3_max_order_id s"
  using assms by (auto simp: Strategy3_dispatch_def same_orders_def result_Inr split: if_splits)

lemma other_cases:
  assumes "Strategy3_step dbg U B M settings s (D, info, msg) = Inr s'" and "\<forall>now. msg \<noteq> Timer now"
  shows "s3_sent s' = s3_sent s"
    and "same_orders s s' \<or> (\<exists>u. msg = OrderUpdate u \<and> is_order_complete U (ou_order_status u))"
    and "updates_ok U \<Longrightarrow> s3_max_order_id s \<le> s3_max_order_id s'"
proof -
  have "s3_sent s' = s3_sent s \<and>
    (same_orders s s' \<or> (\<exists>u. msg = OrderUpdate u \<and> is_order_complete U (ou_order_status u))) \<and>
    (updates_ok U \<longrightarrow> s3_max_order_id s \<le> s3_max_order_id s')"
    using assms dispatch_same
    by (cases msg) (fastforce simp: result_Inr same_orders_def updates_ok_def update_max_lawD
        split: if_splits)+
  then show "s3_sent s' = s3_sent s"
    and "same_orders s s' \<or> (\<exists>u. msg = OrderUpdate u \<and> is_order_complete U (ou_order_status u))"
    and "updates_ok U \<Longrightarrow> s3_max_order_id s \<le> s3_max_order_id s'" by blast+
qed

lemmas action_defs = signalled_def cancels_def creates_def

interpretation e3_orders: order_id_source
  "Strategy3_step dbg U B M settings" s3_max_order_id "\<lambda>s. created_ids (s3_sent s)"
  "\<lambda>s. updates_ok U \<and> s3_max_order_id s \<noteq> - 1"
  for dbg U B M settings
proof
  fix s s' e
  assume step: "Strategy3_step dbg U B M settings s e = Inr s'"
    and room: "updates_ok U \<and> s3_max_order_id s \<noteq> - 1"
  obtain D info msg where e: "e = (D, info, msg)" by (cases e)
  show "\<exists>ids. created_ids (s3_sent s') = created_ids (s3_sent s) @ ids \<and> sorted_wrt (<) ids \<and>
      (\<forall>i \<in> set ids. s3_max_order_id s < i \<and> i \<le> s3_max_order_id s') \<and>
      s3_max_order_id s \<le> s3_max_order_id s'"
  proof (cases "\<exists>now. msg = Timer now")
    case True
    then obtain now where "Strategy3_on_Timer dbg U settings D s now = Inr s'" using step e by auto
    from timer_cases [OF this] show ?thesis
      using room word_less_plus_one [of "s3_max_order_id s"]
      by (fastforce simp: same_orders_def action_defs Strategy3_create_order_def)
  next
    case False
    then show ?thesis using other_cases [OF step [unfolded e]] room by auto
  qed
qed

section \<open>A concrete session\<close>

text \<open>The gateway comes up, three depths arrive (prices fall and rise again), one timer after
  each: the third sample gives a BUY signal and the strategy sends its first order, id 8.\<close>

definition demo_info :: message_info where
  "demo_info = \<lparr>source = 0, receive_time = 0, origin_create_time = 0\<rparr>"

definition demo_depth :: "rat \<Rightarrow> rat \<Rightarrow> layer message" where
  "demo_depth b a = MarketByPriceUpdate \<lparr>bu_exchange = ''deribit'', bu_symbol = ''BTC-PERPETUAL'',
     bu_update_type = SNAPSHOT, bu_content =
       \<lparr>bid_price = Fin b, bid_quantity = Fin 1, ask_price = Fin a, ask_quantity = Fin 1\<rparr>\<rparr>"

definition demo_session_start :: "layer client_event list" where
  "demo_session_start = map (\<lambda>m. (accept_all, demo_info, m))
     (Timer (seconds 1) # demo_startup @
      [demo_depth 40 48, Timer (seconds 2), demo_depth 16 24, Timer (seconds 3), demo_depth 48 56])"

definition demo_strategy :: "(layer option, layer option) Strategy3" where
  "demo_strategy = Strategy3_new demo_settings demo_layer None None"

definition demo_order :: create_order where
  "demo_order = \<lparr>co_account = ''A1'', co_order_id = 8, co_exchange = ''deribit'',
     co_symbol = ''BTC-PERPETUAL'', co_side = BUY, co_max_show_quantity = NaN, co_order_type = LIMIT,
     co_time_in_force = GTC, co_execution_instructions = [], co_quantity = Fin 1, co_price = Fin 48,
     co_stop_price = NaN, co_leverage = NaN, co_routing_id = [], co_strategy_id = 0\<rparr>"

definition demo_step where
  "demo_step = Strategy3_step True exact_utils last_book last_book demo_settings"

lemmas demo_eval = demo_step_def demo_session_start_def demo_startup_def demo_settings_def demo_info_def
  demo_depth_def demo_strategy_def demo_reference_data_def demo_order_def demo_layer_def
  Strategy3_new_def Instrument_new_def Strategy3_dispatch_def Strategy3_on_Timer_def
  Strategy3_update_model_def Strategy3_try_trade_def Strategy3_send_def Strategy3_create_order_def
  floor_seconds_def Instrument_check_ready_def Instrument_validate_def Instrument_can_trade_def
  Instrument_position_def Instrument_best_bid_def Instrument_best_ask_def
  accept_all_def last_book_def exact_utils_def Model_eval MAX_DEPTH_def Model_validate_def
  weighted_bid_def weighted_ask_def numeral_3_eq_3 machine_defs


definition demo_tick :: "layer client_event" where
  "demo_tick = (accept_all, demo_info, Timer (seconds 4))"

definition demo_session_rest :: "layer client_event list" where
  "demo_session_rest = [(accept_all, demo_info, demo_depth 80 88), (accept_all, demo_info, Timer (seconds 5))]"

lemma demo_session_run:
  "\<exists>s s' s''. run demo_step demo_strategy demo_session_start = Inr s \<and> s3_sent s = [] \<and>
     demo_step s demo_tick = Inr s' \<and> s3_sent s' = [(CreateOrder demo_order, 0)] \<and>
     s3_working_order_id s' = 8 \<and>
     run demo_step s' demo_session_rest = Inr s'' \<and> length (s3_sent s'') = 2"
  by (simp add: demo_eval demo_tick_def demo_session_rest_def)

lemma demo_session_room:
  "\<forall>t \<in> set (states demo_step demo_strategy (demo_session_start @ [demo_tick])). s3_max_order_id t \<noteq> - 1"
  by (simp add: demo_eval demo_tick_def)

section \<open>Properties\<close>

text \<open>
  With trading disabled in the configuration, no request is ever handed to the
  dispatcher, whatever events arrive.
\<close>

theorem Strategy3_disabled_sends_nothing:
  assumes "\<not> st_enable_trading settings"
    and "run (Strategy3_step dbg U B M settings) s es = Inr s'"
  shows "s3_sent s' = s3_sent s"
  using assms(2)
proof (rule run_preserves)
  fix t t' e
  assume t: "s3_sent t = s3_sent s" and step: "Strategy3_step dbg U B M settings t e = Inr t'"
  obtain D info msg where e: "e = (D, info, msg)" by (cases e)
  have "s3_sent t' = s3_sent t"
  proof (cases "\<exists>now. msg = Timer now")
    case True
    then show ?thesis
      using step e timer_cases [of dbg U settings D t] assms(1) by (fastforce simp: same_orders_def action_defs)
  next
    case False
    then show ?thesis using other_cases(1) [OF step [unfolded e]] by simp
  qed
  then show "s3_sent t' = s3_sent s" using t by simp
qed simp

theorem Strategy3_disabled_sends_nothing_witness:
  "\<exists>s'. run (Strategy3_step True exact_utils last_book last_book (demo_settings\<lparr>st_enable_trading := False\<rparr>))
     demo_strategy demo_session_start = Inr s' \<and> s3_sent s' = []"
proof -
  let ?S = "demo_settings\<lparr>st_enable_trading := False\<rparr>"
  obtain s' where "run (Strategy3_step True exact_utils last_book last_book ?S)
      demo_strategy demo_session_start = Inr s'"
    by (simp add: demo_eval)
  moreover from this have "s3_sent s' = s3_sent demo_strategy"
    by (rule Strategy3_disabled_sends_nothing [rotated]) simp
  ultimately show ?thesis by (auto simp: demo_strategy_def Strategy3_new_def)
qed



text \<open>
  C2: One order at a time. While an order is working and no update reports a complete
  order, the working order stays what it is, the only requests sent are cancellations of
  exactly that order, and no new order id is taken into use by an order.
\<close>

theorem Strategy3_single_working_order:
  assumes "s3_working_order_id s = oid" and "oid \<noteq> 0"
    and "run (Strategy3_step dbg U B M settings) s es = Inr s'"
    and "\<forall>(D, info, msg) \<in> set es. \<forall>u. msg = OrderUpdate u \<longrightarrow> \<not> is_order_complete U (ou_order_status u)"
  shows "s3_working_order_id s' = oid \<and> s3_working_side s' = s3_working_side s \<and>
    (\<exists>n. s3_sent s' = s3_sent s @ replicate n
       (CancelOrder \<lparr>ca_account = st_account settings, ca_order_id = oid, ca_routing_id = []\<rparr>, 0))"
    (is "?P s'")
  using assms(3)
proof (rule run_preserves)
  show "?P s" using assms(1) by (auto intro: exI [of _ 0])
next
  fix t t' e
  assume e_in: "e \<in> set es" and t: "?P t" and step: "Strategy3_step dbg U B M settings t e = Inr t'"
  obtain D info msg where e: "e = (D, info, msg)" by (cases e)
  let ?c = "(CancelOrder \<lparr>ca_account = st_account settings, ca_order_id = oid, ca_routing_id = []\<rparr>, 0)"
  have "s3_working_order_id t' = oid \<and> s3_working_side t' = s3_working_side t \<and>
      (s3_sent t' = s3_sent t \<or> s3_sent t' = s3_sent t @ [?c])"
  proof (cases "\<exists>now. msg = Timer now")
    case True
    then show ?thesis
      using step e t assms(2) timer_cases [of dbg U settings D t]
      by (fastforce simp: same_orders_def action_defs)
  next
    case False
    then show ?thesis
      using other_cases(2) [OF step [unfolded e]] assms(4) e_in e t by (auto simp: same_orders_def)
  qed
  then show "?P t'" using t
    by (auto simp: ex_replicate_snoc)
qed

theorem Strategy3_single_working_order_witness:
  "\<exists>s s'. run demo_step s demo_session_rest = Inr s' \<and> s3_working_order_id s = 8 \<and>
     s3_working_order_id s' = 8 \<and> s3_sent s' \<noteq> s3_sent s \<and>
     (CancelOrder \<lparr>ca_account = ''A1'', ca_order_id = 8, ca_routing_id = []\<rparr>, 0) \<in> set (s3_sent s')"
proof -
  obtain s s' where s: "s3_sent s = [(CreateOrder demo_order, 0)]" "s3_working_order_id s = 8"
      and run: "run demo_step s demo_session_rest = Inr s'" and len: "length (s3_sent s') = 2"
    using demo_session_run by blast
  have "\<forall>(D, info, msg) \<in> set demo_session_rest.
      \<forall>u. msg = OrderUpdate u \<longrightarrow> \<not> is_order_complete exact_utils (ou_order_status u)"
    by (simp add: demo_session_rest_def demo_depth_def)
  with Strategy3_single_working_order [OF s(2) _ run [unfolded demo_step_def]] obtain n
    where n: "s3_working_order_id s' = 8" "s3_sent s' = s3_sent s @ replicate n
      (CancelOrder \<lparr>ca_account = ''A1'', ca_order_id = 8, ca_routing_id = []\<rparr>, 0)"
    by (auto simp: demo_settings_def)
  then have "n = 1" using s(1) len by simp
  then show ?thesis using n s run by (intro exI [of _ s] exI [of _ s']) simp
qed

text \<open>
  C4: Order ids are never recycled. From the start of the program, as long as the 64-bit
  counter has not reached its maximum, the ids of the orders sent are strictly increasing in
  the order of sending, and none is above the largest id the strategy knows of.
\<close>

theorem Strategy3_order_ids_increase:
  assumes "updates_ok U"
    and "run (Strategy3_step dbg U B M settings) (Strategy3_new settings layer0 b o') es = Inr s'"
    and "\<forall>t \<in> set (states (Strategy3_step dbg U B M settings) (Strategy3_new settings layer0 b o') es).
           s3_max_order_id t \<noteq> - 1"
  shows "sorted_wrt (<) (created_ids (s3_sent s')) \<and>
    (\<forall>i \<in> set (created_ids (s3_sent s')). i \<le> s3_max_order_id s')"
  using e3_orders.run_sorted [OF _ assms(2)] assms(1,3) by (simp add: Strategy3_new_def)

theorem Strategy3_order_ids_increase_witness:
  "\<exists>s'. run demo_step demo_strategy (demo_session_start @ [demo_tick]) = Inr s' \<and>
     created_ids (s3_sent s') = [8] \<and> 8 \<le> s3_max_order_id s'"
proof -
  obtain s' where s': "run demo_step demo_strategy (demo_session_start @ [demo_tick]) = Inr s'"
      "s3_sent s' = [(CreateOrder demo_order, 0)]"
    using demo_session_run by (auto simp: run_append)
  then show ?thesis
    using Strategy3_order_ids_increase [OF exact_utils_updates_ok
        s'(1) [unfolded demo_step_def demo_strategy_def] demo_session_room [unfolded demo_step_def demo_strategy_def]]
    by (simp add: demo_order_def)
qed

end
