(* ===== verification/E3_Typed.thy ===== *)
theory E3_Typed
  imports E3_Strategy
begin

text \<open>
  Types that C++ checks and the model has to keep: every \<open>double\<close> of the state of example 3 and of the
  requests it sends is a binary64 value, the depth is an array of three layers, the countdowns of the
  averages stay within the warm-up, and an order that is sent has a side. Shown: a session of well-typed
  events keeps all of it. The order book caches are typed by a predicate on their states (\<open>tb\<close>) and
  one on the content of their updates (\<open>tu\<close>).
\<close>

section \<open>Typing\<close>

definition layer_typed :: "layer \<Rightarrow> bool" where
  "layer_typed l \<longleftrightarrow> is_double (bid_price l) \<and> is_double (bid_quantity l) \<and>
     is_double (ask_price l) \<and> is_double (ask_quantity l)"

fun message_typed :: "('u \<Rightarrow> bool) \<Rightarrow> 'u message \<Rightarrow> bool" where
  "message_typed tu (ReferenceData r) \<longleftrightarrow>
     is_double (rd_tick_size r) \<and> is_double (rd_min_trade_vol r) \<and> is_double (rd_multiplier r)"
| "message_typed tu (MarketByPriceUpdate u) \<longleftrightarrow> tu (bu_content u)"
| "message_typed tu (OrderUpdate u) \<longleftrightarrow> is_double (ou_traded_quantity u)"
| "message_typed tu (PositionUpdate p) \<longleftrightarrow> is_double (long_quantity p) \<and> is_double (short_quantity p)"
| "message_typed tu _ \<longleftrightarrow> True"

text \<open>What is relied on of a book cache: typed updates keep it typed, and \<open>extract\<close> overwrites a
  buffer of typed layers by as many typed layers.\<close>

definition book_typed :: "('b, 'u) book_ops \<Rightarrow> ('b \<Rightarrow> bool) \<Rightarrow> ('u \<Rightarrow> bool) \<Rightarrow> bool" where
  "book_typed B tb tu \<longleftrightarrow>
     (\<forall>b u. tb b \<and> tu (bu_content u) \<longrightarrow> tb (book_apply B b u)) \<and> (\<forall>b. tb b \<longrightarrow> tb (book_clear B b)) \<and>
     (\<forall>b buf. tb b \<and> list_all layer_typed buf \<longrightarrow>
        list_all layer_typed (fst (book_extract B b buf)) \<and> length (fst (book_extract B b buf)) = length buf)"

definition Instrument_typed :: "('b \<Rightarrow> bool) \<Rightarrow> ('b, 'o) Instrument \<Rightarrow> bool" where
  "Instrument_typed tb i \<longleftrightarrow>
     is_double (i3_tick_size i) \<and> is_double (i3_min_trade_vol i) \<and> is_double (i3_multiplier i) \<and>
     is_double (i3_long_position i) \<and> is_double (i3_short_position i) \<and> is_double (i3_last_traded_quantity i) \<and>
     length (i3_depth i) = MAX_DEPTH \<and> list_all layer_typed (i3_depth i) \<and> tb (i3_market_by_price i)"

definition EMA_typed :: "EMA \<Rightarrow> bool" where
  "EMA_typed e \<longleftrightarrow> is_double (ema_alpha e) \<and> is_double (ema_value e) \<and> ema_countdown e \<le> ema_warmup e"

definition Model_typed :: "Model \<Rightarrow> bool" where
  "Model_typed m \<longleftrightarrow> EMA_typed (bid_ema m) \<and> EMA_typed (ask_ema m)"

fun request_typed :: "request \<Rightarrow> bool" where
  "request_typed (CreateOrder c) \<longleftrightarrow>
     is_double (co_max_show_quantity c) \<and> is_double (co_quantity c) \<and> is_double (co_price c) \<and>
     is_double (co_stop_price c) \<and> is_double (co_leverage c) \<and> co_side c \<noteq> Side_UNDEFINED"
| "request_typed (ModifyOrder m) \<longleftrightarrow> is_double (mo_quantity m) \<and> is_double (mo_price m)"
| "request_typed _ \<longleftrightarrow> True"

definition Strategy3_typed :: "('b \<Rightarrow> bool) \<Rightarrow> ('b, 'o) Strategy3 \<Rightarrow> bool" where
  "Strategy3_typed tb s \<longleftrightarrow> Instrument_typed tb (s3_instrument s) \<and> Model_typed (s3_model s) \<and>
     (\<forall>(r, src) \<in> set (s3_sent s). request_typed r) \<and>
     (s3_working_side s = Side_UNDEFINED \<longrightarrow> s3_working_order_id s = 0)"

section \<open>Preservation\<close>

lemma update_double_typed:
  assumes "updates_ok U" "is_double c" "is_double v"
  shows "is_double (snd (update_double U c v))"
  using update_double_lawD [of "update_double U" c v] assms by (auto simp: updates_ok_def)

lemma Instrument_check_ready_typed [simp]: "Instrument_typed tb (Instrument_check_ready U i) = Instrument_typed tb i"
  by (simp add: Instrument_check_ready_def Instrument_typed_def)

lemma Instrument_new_typed:
  "layer_typed layer0 \<Longrightarrow> tb b \<Longrightarrow> Instrument_typed tb (Instrument_new settings layer0 b o')"
  by (simp add: Instrument_new_def Instrument_typed_def MAX_DEPTH_def numeral_3_eq_3)

lemma Instrument_handle_typed:
  assumes "updates_ok U" "book_typed B tb tu" "Instrument_typed tb i" "message_typed tu msg"
    and "Instrument_handle dbg U B M i msg = Inr i'"
  shows "Instrument_typed tb i'"
  using assms(3-5)
proof (cases msg)
  case (MarketByPriceUpdate u)
  then show ?thesis using assms unfolding book_typed_def
    by (auto simp: machine_defs result_Inr Let_def Instrument_typed_def)
next
  case Disconnected
  then show ?thesis using assms unfolding book_typed_def
    by (auto simp: machine_defs Instrument_reset_def Instrument_typed_def split: prod.splits if_splits)
qed (auto simp: machine_defs result_Inr Let_def Instrument_typed_def Instrument_check_ready_def update_double_typed [OF assms(1)]
      split: if_splits side.splits prod.splits)

text \<open>The averages.\<close>

lemma countdown_le: "c \<le> w \<Longrightarrow> max 1 c - 1 \<le> (w :: 'a::len word)"
  by (simp add: word_le_nat_alt unat_countdown)

lemma EMA_update_typed: "EMA_typed e \<Longrightarrow> is_double v \<Longrightarrow> EMA_typed (snd (EMA_update e v))"
  by (simp add: EMA_typed_def EMA_update_def Let_def countdown_le)

lemma EMA_reset_typed: "EMA_typed e \<Longrightarrow> EMA_typed (EMA_reset e)"
  by (simp add: EMA_typed_def EMA_reset_def)

lemma Model_reset_typed: "Model_typed m \<Longrightarrow> Model_typed (Model_reset m)"
  by (simp add: Model_typed_def Model_reset_def EMA_reset_typed)

lemma weighted_typed: "is_double (weighted_bid depth)" "is_double (weighted_ask depth)"
  by (simp_all add: weighted_bid_def weighted_ask_def split_beta)

lemma Model_update_typed:
  assumes "Model_typed m" "Model_update dbg U m depth = Inr (sd, m')"
  shows "Model_typed m'"
proof (cases "Model_validate U depth")
  case True
  then have "bid_ema m' = snd (EMA_update (bid_ema m) (weighted_bid depth))"
      "ask_ema m' = snd (EMA_update (ask_ema m) (weighted_ask depth))"
    using assms(2) by (auto simp: Model_update_def result_Inr Let_def split_beta)
  then show ?thesis using assms(1) by (simp add: Model_typed_def EMA_update_typed weighted_typed)
next
  case False
  then show ?thesis using assms by (simp add: Model_update_def)
qed

text \<open>The strategy: a timer samples the model and may send a request, every other event goes to the instrument.\<close>

lemma best_typed:
  assumes "Instrument_typed tb i"
  shows "is_double (Instrument_best_bid i) \<and> is_double (Instrument_best_ask i)"
proof -
  have "layer_typed (i3_depth i ! 0)" using assms by (simp add: Instrument_typed_def MAX_DEPTH_def list_all_length)
  then show ?thesis by (simp add: layer_typed_def Instrument_best_bid_def Instrument_best_ask_def)
qed

lemma Strategy3_typed_frame [simp]:
  "Strategy3_typed tb (s\<lparr>s3_next_sample := t\<rparr>) = Strategy3_typed tb s"
  "Strategy3_typed tb (s\<lparr>s3_max_order_id := n\<rparr>) = Strategy3_typed tb s"
  "Strategy3_typed tb s \<Longrightarrow> Strategy3_typed tb (s\<lparr>s3_working_order_id := 0, s3_working_side := Side_UNDEFINED\<rparr>)"
  by (simp_all add: Strategy3_typed_def)

lemma try_trade_typed:
  assumes "Strategy3_typed tb s" "is_double price" "sd \<noteq> Side_UNDEFINED"
    and "Strategy3_try_trade dbg U settings D s sd price = Inr s'"
  shows "Strategy3_typed tb s'"
  using try_trade_cases [OF assms(4)] assms(1-3)
  by (auto simp: Strategy3_typed_def cancels_def creates_def Strategy3_create_order_def Instrument_typed_def)

lemma update_model_typed:
  assumes "Strategy3_typed tb s" "Strategy3_update_model dbg U settings D s = Inr s'"
  shows "Strategy3_typed tb s'"
proof (cases "i3_ready (s3_instrument s)")
  case True
  then obtain sd m where u: "Model_update dbg U (s3_model s) (i3_depth (s3_instrument s)) = Inr (sd, m)"
    using assms(2) by (auto simp: Strategy3_update_model_def result_Inr)
  let ?s1 = "s\<lparr>s3_model := m\<rparr>"
  have s1: "Strategy3_typed tb ?s1"
    using assms(1) Model_update_typed [OF _ u] by (simp add: Strategy3_typed_def)
  have best: "is_double (Instrument_best_bid (s3_instrument s))" "is_double (Instrument_best_ask (s3_instrument s))"
    using best_typed [of tb "s3_instrument s"] assms(1) by (simp_all add: Strategy3_typed_def)
  show ?thesis
  proof (cases sd)
    case Side_UNDEFINED
    then show ?thesis using assms(2) s1 u True by (simp add: Strategy3_update_model_def Let_def)
  next
    case BUY
    then have "Strategy3_try_trade dbg U settings D ?s1 BUY (Instrument_best_bid (s3_instrument s)) = Inr s'"
      using assms(2) u True by (simp add: Strategy3_update_model_def Let_def)
    then show ?thesis by (rule try_trade_typed [OF s1 best(1), rotated]) simp
  next
    case SELL
    then have "Strategy3_try_trade dbg U settings D ?s1 SELL (Instrument_best_ask (s3_instrument s)) = Inr s'"
      using assms(2) u True by (simp add: Strategy3_update_model_def Let_def)
    then show ?thesis by (rule try_trade_typed [OF s1 best(2), rotated]) simp
  qed
next
  case False
  then show ?thesis using assms by (auto simp: Strategy3_update_model_def Strategy3_typed_def Model_reset_typed)
qed

lemma on_Timer_typed:
  assumes "Strategy3_typed tb s" "Strategy3_on_Timer dbg U settings D s now = Inr s'"
  shows "Strategy3_typed tb s'"
  using assms update_model_typed [OF assms(1)]
  by (auto simp: Strategy3_on_Timer_def result_Inr split: if_splits)

lemma dispatch_typed:
  assumes "updates_ok U" "book_typed B tb tu" "Strategy3_typed tb s" "message_typed tu msg"
    and "Strategy3_dispatch dbg U B M info s msg = Inr s'"
  shows "Strategy3_typed tb s'"
  using assms(3,5) Instrument_handle_typed [OF assms(1,2) _ assms(4)]
  by (auto simp: Strategy3_dispatch_def Strategy3_typed_def result_Inr split: if_splits)

lemma Strategy3_step_typed:
  assumes "updates_ok U \<and> book_typed B tb tu \<and> Strategy3_typed tb s" "case e of (D, info, msg) \<Rightarrow> message_typed tu msg"
  shows "result_all (\<lambda>s. updates_ok U \<and> book_typed B tb tu \<and> Strategy3_typed tb s) (\<lambda>f. \<not> False)
    (Strategy3_step dbg U B M settings s e)"
proof (cases "Strategy3_step dbg U B M settings s e")
  case (Inr s')
  obtain D info msg where e: "e = (D, info, msg)" by (cases e)
  have U: "updates_ok U" and B: "book_typed B tb tu" and s: "Strategy3_typed tb s" and msg: "message_typed tu msg"
    using assms e by auto
  have "Strategy3_typed tb s'"
    using Inr s dispatch_typed [OF U B s msg] on_Timer_typed [OF s] unfolding e
    by (cases msg) (auto simp: result_Inr split: if_splits)
  then show ?thesis using U B Inr by simp
qed simp

interpretation e3_typed: guarded_machine "Strategy3_step dbg U B M settings"
  "\<lambda>s. updates_ok U \<and> book_typed B tb tu \<and> Strategy3_typed tb s" "\<lambda>_. True"
  "\<lambda>(D, info, msg). message_typed tu msg" "\<lambda>_. False"
  for dbg U B M settings tb tu
  by unfold_locales (rule Strategy3_step_typed)

section \<open>Properties\<close>

text \<open>
  C5: Example 3 is well typed. From a start with a typed configuration, a session of well-typed
  events ends, if it ends normally, in a well-typed state: every \<open>double\<close> of the instrument and of the
  averages is a binary64 value, the depth has its three layers, a countdown is at most the warm-up,
  a working order has a side, and every request that was sent has binary64 prices and quantities and
  (an order) a side.
\<close>

theorem Strategy3_well_typed:
  assumes "updates_ok U" "book_typed B tb tu" "tb b" "layer_typed layer0" "is_double (st_ema_alpha settings)"
    and "\<forall>(D, info, msg) \<in> set es. message_typed tu msg"
    and "run (Strategy3_step dbg U B M settings) (Strategy3_new settings layer0 b o') es = Inr s'"
  shows "Strategy3_typed tb s'"
proof -
  have "Strategy3_typed tb (Strategy3_new settings layer0 b o')"
    using Instrument_new_typed [OF assms(4), of tb b settings o'] assms(3,5)
    by (simp add: Strategy3_new_def Strategy3_typed_def Model_typed_def Model_new_def EMA_new_def EMA_typed_def)
  then show ?thesis
    using e3_typed.run_all [where U = U and B = B and tb = tb and tu = tu and es = es and dbg = dbg and M = M and
        settings = settings and s = "Strategy3_new settings layer0 b o'"] assms(1,2,6,7) by simp
qed

lemma is_double_small [simp]:
  "is_double (Fin 1)" "(numeral k :: int) \<le> 2 ^ 53 \<Longrightarrow> is_double (Fin (numeral k))" "is_double (Fin (1 / 2))"
  using is_double_dint [of 1] is_double_dint [of "numeral k"] is_double_to_double [of "1 / 2"]
  by (simp_all add: dint_def del: is_double_to_double is_double.simps)

definition last_book_typed :: "layer option \<Rightarrow> bool" where
  "last_book_typed b = pred_option layer_typed b"

lemma last_book_typed: "book_typed last_book last_book_typed layer_typed"
  by (auto simp: book_typed_def last_book_def last_book_typed_def list_all_iff split: option.splits)

theorem Strategy3_well_typed_witness:
  "\<exists>s'. run demo_step demo_strategy (demo_session_start @ [demo_tick]) = Inr s' \<and>
     s3_sent s' = [(CreateOrder demo_order, 0)] \<and> Strategy3_typed last_book_typed s'"
proof -
  obtain s' where s': "run demo_step demo_strategy (demo_session_start @ [demo_tick]) = Inr s'"
      "s3_sent s' = [(CreateOrder demo_order, 0)]"
    using demo_session_run by (auto simp: run_append)
  have "\<forall>(D, info, msg) \<in> set (demo_session_start @ [demo_tick]). message_typed layer_typed msg"
    by (simp add: demo_session_start_def demo_tick_def demo_startup_def demo_depth_def demo_reference_data_def
        layer_typed_def del: is_double.simps)
  then show ?thesis
    using Strategy3_well_typed [OF exact_utils_updates_ok last_book_typed _ _ _ _
        s'(1) [unfolded demo_step_def demo_strategy_def]] s'
    by (simp add: last_book_typed_def demo_layer_def layer_typed_def demo_settings_def del: is_double.simps)
qed

end
