(* ===== verification/Import_Processor.thy ===== *)
theory Import_Processor
  imports Roq_API
begin

text \<open>
  The import sample (\<open>import/processor.cpp\<close>): it writes an event log of five messages, each
  with its sequence number and timestamp, for a gateway simulator to replay. The flatbuffers
  encoder and the case-insensitive comparison are parameters, and so is whether the output
  file could be opened. Message fields the code leaves at their default are not represented.
  Shown: the file is the encoding of a stream that honours the settings its first message
  declares; the encoding option has no effect.
\<close>

section \<open>Messages\<close>

record mbp_update =
  mu_price :: double
  mu_quantity :: double
  mu_implied_quantity :: double

record import_gateway_settings =
  gs_mbp_max_depth :: u32
  gs_mbp_tick_size_multiplier :: double
  gs_mbp_min_trade_vol_multiplier :: double
  gs_mbp_allow_remove_non_existing :: bool
  gs_mbp_allow_price_inversion :: bool
  gs_oms_download_has_state :: bool
  gs_oms_download_has_routing_id :: bool

record import_reference_data =
  ir_exchange :: string
  ir_symbol :: string
  ir_tick_size :: double
  ir_multiplier :: double
  ir_min_notional :: double
  ir_min_trade_vol :: double
  ir_max_trade_vol :: double
  ir_trade_vol_step_size :: double
  ir_strike_price :: double

record import_mbp =
  im_exchange :: string
  im_symbol :: string
  im_bids :: "mbp_update list"
  im_asks :: "mbp_update list"
  im_update_type :: update_type

datatype import_message =
    I_GatewaySettings import_gateway_settings
  | I_ReferenceData import_reference_data
  | I_MarketStatus market_status
  | I_MarketByPriceUpdate import_mbp

record import_info =
  ii_source_seqno :: u64
  ii_receive_time_utc :: nanoseconds
  ii_receive_time :: nanoseconds
  ii_source_send_time :: nanoseconds
  ii_source_receive_time :: nanoseconds
  ii_origin_create_time :: nanoseconds
  ii_origin_create_time_utc :: nanoseconds
  ii_is_last :: bool

type_synonym import_encoder = "import_info \<times> import_message \<Rightarrow> u8 list"

section \<open>The processor\<close>

definition IMPORT_EXCHANGE :: string where
  "IMPORT_EXCHANGE = ''CME''"

definition IMPORT_SYMBOL :: string where
  "IMPORT_SYMBOL = ''GEZ1''"

definition TICK_SIZE :: double where
  "TICK_SIZE = to_double (25 / 10000)"

definition MULTIPLIER :: double where
  "MULTIPLIER = to_double 2500"

definition MIN_TRADE_VOL :: double where
  "MIN_TRADE_VOL = to_double 1"

datatype encoding = BINARY | BASE64

record Processor =
  pr_seqno :: u64
  pr_file :: "u8 list"
  pr_encoding :: encoding

definition use_base64 :: "(string \<Rightarrow> string \<Rightarrow> bool) \<Rightarrow> string \<Rightarrow> bool result" where
  "use_base64 same_ignoring_case encoding =
     (if same_ignoring_case encoding ''binary'' then Inr False
      else if same_ignoring_case encoding ''base64'' then Inr True
      else Inl (Raised RuntimeError))"

definition Processor_new :: "(string \<Rightarrow> string \<Rightarrow> bool) \<Rightarrow> string \<Rightarrow> bool \<Rightarrow> Processor result" where
  "Processor_new same_ignoring_case encoding opened =
     bind_result (use_base64 same_ignoring_case encoding) (\<lambda>b.
     if \<not> opened then Inl (Raised RuntimeError)
     else Inr \<lparr>pr_seqno = 0, pr_file = [], pr_encoding = (if b then BASE64 else BINARY)\<rparr>)"

definition create_message_info :: "nanoseconds \<Rightarrow> Processor \<Rightarrow> import_info \<times> Processor" where
  "create_message_info timestamp_utc p =
     (let seqno = pr_seqno p + 1 in
      (\<lparr>ii_source_seqno = seqno, ii_receive_time_utc = timestamp_utc, ii_receive_time = timestamp_utc,
        ii_source_send_time = timestamp_utc, ii_source_receive_time = timestamp_utc,
        ii_origin_create_time = timestamp_utc, ii_origin_create_time_utc = timestamp_utc, ii_is_last = True\<rparr>,
       p\<lparr>pr_seqno := seqno\<rparr>))"

definition Processor_process ::
  "bool \<Rightarrow> import_encoder \<Rightarrow> import_message \<Rightarrow> nanoseconds \<Rightarrow> Processor \<Rightarrow> Processor result" where
  "Processor_process dbg encoder val timestamp_utc p =
     (let (message_info, p) = create_message_info timestamp_utc p;
          message = encoder (message_info, val)
      in assert_then dbg (message \<noteq> []) (Inr (p\<lparr>pr_file := pr_file p @ message\<rparr>)))"

definition level :: "rat \<Rightarrow> rat \<Rightarrow> mbp_update" where
  "level price quantity =
     \<lparr>mu_price = to_double price, mu_quantity = to_double quantity, mu_implied_quantity = NaN\<rparr>"

definition bids_image :: "mbp_update list" where
  "bids_image = [level (99785 / 1000) 3, level (99780 / 1000) 2, level (99775 / 1000) 1]"

definition asks_image :: "mbp_update list" where
  "asks_image = [level (99800 / 1000) 3, level (99805 / 1000) 2, level (99810 / 1000) 1]"

definition bids_update :: "mbp_update list" where
  "bids_update = [level (99785 / 1000) 0, level (99770 / 1000) 2]"

definition import_settings :: import_gateway_settings where
  "import_settings = \<lparr>
     gs_mbp_max_depth = 3, gs_mbp_tick_size_multiplier = NaN, gs_mbp_min_trade_vol_multiplier = NaN,
     gs_mbp_allow_remove_non_existing = False, gs_mbp_allow_price_inversion = False,
     gs_oms_download_has_state = False, gs_oms_download_has_routing_id = False\<rparr>"

definition import_reference :: import_reference_data where
  "import_reference = \<lparr>
     ir_exchange = IMPORT_EXCHANGE, ir_symbol = IMPORT_SYMBOL, ir_tick_size = TICK_SIZE,
     ir_multiplier = MULTIPLIER, ir_min_notional = NaN, ir_min_trade_vol = MIN_TRADE_VOL,
     ir_max_trade_vol = NaN, ir_trade_vol_step_size = NaN, ir_strike_price = NaN\<rparr>"

definition Processor_dispatch :: "bool \<Rightarrow> import_encoder \<Rightarrow> Processor \<Rightarrow> Processor result" where
  "Processor_dispatch dbg encoder p =
     bind_result (Processor_process dbg encoder (I_GatewaySettings import_settings) 1 p) (\<lambda>p.
     bind_result (Processor_process dbg encoder (I_ReferenceData import_reference) 2 p) (\<lambda>p.
     bind_result (Processor_process dbg encoder (I_MarketStatus
       \<lparr>ms_exchange = IMPORT_EXCHANGE, ms_symbol = IMPORT_SYMBOL, ms_trading_status = OPEN\<rparr>) 3 p) (\<lambda>p.
     bind_result (Processor_process dbg encoder (I_MarketByPriceUpdate
       \<lparr>im_exchange = IMPORT_EXCHANGE, im_symbol = IMPORT_SYMBOL, im_bids = bids_image, im_asks = asks_image,
         im_update_type = SNAPSHOT\<rparr>) 4 p) (\<lambda>p.
     Processor_process dbg encoder (I_MarketByPriceUpdate
       \<lparr>im_exchange = IMPORT_EXCHANGE, im_symbol = IMPORT_SYMBOL, im_bids = bids_update, im_asks = [],
         im_update_type = INCREMENTAL\<rparr>) 5 p))))"

text \<open>\<open>Application::main\<close>: exactly one argument, then the whole log; the result is the file.\<close>

definition Import_main ::
  "bool \<Rightarrow> import_encoder \<Rightarrow> (string \<Rightarrow> string \<Rightarrow> bool) \<Rightarrow> string \<Rightarrow> bool \<Rightarrow> string list \<Rightarrow> u8 list result" where
  "Import_main dbg encoder same_ignoring_case encoding opened params =
     (if length params \<noteq> 1 then Inl Fatal
      else bind_result (Processor_new same_ignoring_case encoding opened) (\<lambda>p.
           bind_result (Processor_dispatch dbg encoder p) (\<lambda>p. Inr (pr_file p))))"

section \<open>What a replay expects\<close>

text \<open>
  One side of a book, best price first; \<open>better\<close> orders its prices. A level of quantity zero
  removes its price, which has to be there; any other replaces or inserts it.
\<close>

definition put_level :: "(double \<Rightarrow> double \<Rightarrow> bool) \<Rightarrow> mbp_update \<Rightarrow> double list \<Rightarrow> double list option" where
  "put_level better u side =
     (if mu_quantity u = Fin 0 then
        (if mu_price u \<in> set side then Some (removeAll (mu_price u) side) else None)
      else if mu_price u \<in> set side then Some side
      else Some (takeWhile (\<lambda>p. better p (mu_price u)) side @ mu_price u # dropWhile (\<lambda>p. better p (mu_price u)) side))"

primrec put_levels :: "(double \<Rightarrow> double \<Rightarrow> bool) \<Rightarrow> mbp_update list \<Rightarrow> double list \<Rightarrow> double list option" where
  "put_levels better [] side = Some side"
| "put_levels better (u # us) side =
     (case put_level better u side of None \<Rightarrow> None | Some side \<Rightarrow> put_levels better us side)"

definition well_formed_book :: "import_gateway_settings \<Rightarrow> double list \<Rightarrow> double list \<Rightarrow> bool" where
  "well_formed_book gs bids asks \<longleftrightarrow>
     sorted_wrt (\<lambda>p q. dlt q p) bids \<and> sorted_wrt dlt asks \<and>
     length bids \<le> unat (gs_mbp_max_depth gs) \<and> length asks \<le> unat (gs_mbp_max_depth gs) \<and>
     (\<forall>b \<in> set bids. \<forall>a \<in> set asks. dlt b a)"

text \<open>
  The state of a replay: the settings once they arrived, the book once its image arrived.
  A stream is refused when a message comes before the settings, an incremental update before
  the image, or an update leaves a book that the settings do not allow.
\<close>

type_synonym replay_state = "import_gateway_settings option \<times> (double list \<times> double list) option"

fun replay_message :: "replay_state \<Rightarrow> import_message \<Rightarrow> replay_state option" where
  "replay_message (gs, book) (I_GatewaySettings s) = (if gs = None then Some (Some s, book) else None)"
| "replay_message (None, book) _ = None"
| "replay_message (Some s, book) (I_MarketByPriceUpdate u) =
     (case (if im_update_type u = SNAPSHOT then Some ([], []) else book) of
        None \<Rightarrow> None
      | Some (bids, asks) \<Rightarrow>
          (case (put_levels (\<lambda>p q. dlt q p) (im_bids u) bids, put_levels dlt (im_asks u) asks) of
             (Some bids, Some asks) \<Rightarrow>
               (if well_formed_book s bids asks then Some (Some s, Some (bids, asks)) else None)
           | _ \<Rightarrow> None))"
| "replay_message (Some s, book) (I_ReferenceData r) = Some (Some s, book)"
| "replay_message (Some s, book) (I_MarketStatus m) = Some (Some s, book)"

primrec replay :: "replay_state \<Rightarrow> import_message list \<Rightarrow> replay_state option" where
  "replay st [] = Some st"
| "replay st (m # ms) = (case replay_message st m of None \<Rightarrow> None | Some st \<Rightarrow> replay st ms)"

section \<open>The prices of the example\<close>

lemma import_price_finite:
  "(numeral m / numeral n :: rat) \<le> 1024 \<Longrightarrow> to_double (numeral m / numeral n) = Fin (rnd (numeral m / numeral n))"
proof -
  assume "(numeral m / numeral n :: rat) \<le> 1024"
  then obtain y where "to_double (numeral m / numeral n) = Fin y"
    using to_double_bound [of "numeral m / numeral n" 10] by auto
  then show ?thesis by (auto simp: to_double_def split: if_splits)
qed

text \<open>The prices 99.770, 99.775, 99.780, 99.785, 99.800, 99.805 and 99.810, in lowest terms.\<close>

lemma import_prices_ordered:
  "rnd (9977 / 100) < rnd (3991 / 40)" "rnd (3991 / 40) < rnd (4989 / 50)"
  "rnd (4989 / 50) < rnd (19957 / 200)" "rnd (19957 / 200) < rnd (499 / 5)"
  "rnd (499 / 5) < rnd (19961 / 200)" "rnd (19961 / 200) < rnd (9981 / 100)"
  using rnd_less [of "9977 / 100" 102166 "- 10" "3991 / 40"] rnd_less [of "3991 / 40" 102171 "- 10" "4989 / 50"]
    rnd_less [of "4989 / 50" 102176 "- 10" "19957 / 200"] rnd_less [of "19957 / 200" 102190 "- 10" "499 / 5"]
    rnd_less [of "499 / 5" 102197 "- 10" "19961 / 200"] rnd_less [of "19961 / 200" 102202 "- 10" "9981 / 100"]
  by (simp_all add: power_int_def power_one_over)

lemma import_replay:
  assumes "q0 < q1" "q1 < q2" "q2 < q3" "q3 < q4" "q4 < q5" "(q5 :: rat) < q6"
  shows "replay (None, None)
     [I_GatewaySettings import_settings, I_ReferenceData r, I_MarketStatus m,
      I_MarketByPriceUpdate \<lparr>im_exchange = e, im_symbol = s,
        im_bids = [\<lparr>mu_price = Fin q3, mu_quantity = Fin 3, mu_implied_quantity = NaN\<rparr>,
          \<lparr>mu_price = Fin q2, mu_quantity = Fin 2, mu_implied_quantity = NaN\<rparr>,
          \<lparr>mu_price = Fin q1, mu_quantity = Fin 1, mu_implied_quantity = NaN\<rparr>],
        im_asks = [\<lparr>mu_price = Fin q4, mu_quantity = Fin 3, mu_implied_quantity = NaN\<rparr>,
          \<lparr>mu_price = Fin q5, mu_quantity = Fin 2, mu_implied_quantity = NaN\<rparr>,
          \<lparr>mu_price = Fin q6, mu_quantity = Fin 1, mu_implied_quantity = NaN\<rparr>],
        im_update_type = SNAPSHOT\<rparr>,
      I_MarketByPriceUpdate \<lparr>im_exchange = e, im_symbol = s,
        im_bids = [\<lparr>mu_price = Fin q3, mu_quantity = Fin 0, mu_implied_quantity = NaN\<rparr>,
          \<lparr>mu_price = Fin q0, mu_quantity = Fin 2, mu_implied_quantity = NaN\<rparr>],
        im_asks = [], im_update_type = INCREMENTAL\<rparr>] =
     Some (Some import_settings, Some ([Fin q2, Fin q1, Fin q0], [Fin q4, Fin q5, Fin q6]))"
proof -
  have lt: "q0 < q2" "q0 < q3" "q1 < q3" "q0 < q4" "q1 < q4" "q2 < q4" "q0 < q5" "q1 < q5" "q2 < q5" "q3 < q5" "q4 < q6"
    "q0 < q6" "q1 < q6" "q2 < q6" "q3 < q6"
    using assms by linarith+
  have wf: "well_formed_book import_settings [Fin q3, Fin q2, Fin q1] [Fin q4, Fin q5, Fin q6]"
    "well_formed_book import_settings [Fin q2, Fin q1, Fin q0] [Fin q4, Fin q5, Fin q6]"
    using assms lt by (simp_all add: well_formed_book_def import_settings_def)
  have ne: "q2 \<noteq> q3" "q1 \<noteq> q3" "q1 \<noteq> q2" "q0 \<noteq> q1" "q0 \<noteq> q2" "q4 \<noteq> q5" "q5 \<noteq> q6" "q4 \<noteq> q6" using assms lt by auto
  have up: "put_levels (\<lambda>p q. dlt q p)
        [\<lparr>mu_price = Fin q3, mu_quantity = Fin 3, mu_implied_quantity = NaN\<rparr>,
         \<lparr>mu_price = Fin q2, mu_quantity = Fin 2, mu_implied_quantity = NaN\<rparr>,
         \<lparr>mu_price = Fin q1, mu_quantity = Fin 1, mu_implied_quantity = NaN\<rparr>] [] = Some [Fin q3, Fin q2, Fin q1]"
      "put_levels dlt [\<lparr>mu_price = Fin q4, mu_quantity = Fin 3, mu_implied_quantity = NaN\<rparr>,
         \<lparr>mu_price = Fin q5, mu_quantity = Fin 2, mu_implied_quantity = NaN\<rparr>,
         \<lparr>mu_price = Fin q6, mu_quantity = Fin 1, mu_implied_quantity = NaN\<rparr>] [] = Some [Fin q4, Fin q5, Fin q6]"
      "put_levels (\<lambda>p q. dlt q p)
        [\<lparr>mu_price = Fin q3, mu_quantity = Fin 0, mu_implied_quantity = NaN\<rparr>,
         \<lparr>mu_price = Fin q0, mu_quantity = Fin 2, mu_implied_quantity = NaN\<rparr>] [Fin q3, Fin q2, Fin q1] =
         Some [Fin q2, Fin q1, Fin q0]"
    using assms lt ne ne [symmetric] by (simp_all add: put_level_def)
  show ?thesis by (simp add: up wf del: put_levels.simps(2))
qed

section \<open>Properties\<close>

lemmas import_defs = Import_main_def Processor_new_def Processor_dispatch_def Processor_process_def
  create_message_info_def

text \<open>
  C29: The event log. When the program is given one argument, a valid encoding and a file it can
  open, it writes the encoding of a stream of events with the sequence numbers 1, 2, 3, ... and
  increasing timestamps, which starts with the gateway settings and which a replay accepts: no
  update before the image, no removal of a level that is not there, no inverted prices, and
  never more levels than the settings declare. (Prices are doubles, so this includes that the
  decimal literals stay distinct when rounded.)
\<close>

theorem Import_stream_replays:
  assumes "\<And>e. encoder e \<noteq> []"
    and "same encoding ''binary'' \<or> same encoding ''base64''"
  shows "\<exists>stream bids asks. Import_main dbg encoder same encoding True [path] = Inr (concat (map encoder stream)) \<and>
    map (ii_source_seqno \<circ> fst) stream = map of_nat [1..<Suc (length stream)] \<and>
    sorted_wrt (<) (map (ii_receive_time_utc \<circ> fst) stream) \<and>
    replay (None, None) (map snd stream) = Some (Some import_settings, Some (bids, asks)) \<and>
    bids \<noteq> [] \<and> asks \<noteq> []"
proof -
  define info where "info k = \<lparr>ii_source_seqno = of_nat k, ii_receive_time_utc = int k, ii_receive_time = int k,
     ii_source_send_time = int k, ii_source_receive_time = int k, ii_origin_create_time = int k,
     ii_origin_create_time_utc = int k, ii_is_last = True\<rparr>" for k
  define stream where "stream = [(info 1, I_GatewaySettings import_settings), (info 2, I_ReferenceData import_reference),
     (info 3, I_MarketStatus \<lparr>ms_exchange = IMPORT_EXCHANGE, ms_symbol = IMPORT_SYMBOL, ms_trading_status = OPEN\<rparr>),
     (info 4, I_MarketByPriceUpdate \<lparr>im_exchange = IMPORT_EXCHANGE, im_symbol = IMPORT_SYMBOL, im_bids = bids_image,
        im_asks = asks_image, im_update_type = SNAPSHOT\<rparr>),
     (info 5, I_MarketByPriceUpdate \<lparr>im_exchange = IMPORT_EXCHANGE, im_symbol = IMPORT_SYMBOL, im_bids = bids_update,
        im_asks = [], im_update_type = INCREMENTAL\<rparr>)]"
  have written: "Import_main dbg encoder same encoding True [path] = Inr (concat (map encoder stream))"
    using assms by (auto simp: import_defs stream_def info_def use_base64_def)
  have seq: "map (ii_source_seqno \<circ> fst) stream = map of_nat [1..<Suc (length stream)]"
    "sorted_wrt (<) (map (ii_receive_time_utc \<circ> fst) stream)"
    by (simp_all add: stream_def info_def)
  have "\<exists>bids asks. replay (None, None) (map snd stream) = Some (Some import_settings, Some (bids, asks)) \<and>
      bids \<noteq> [] \<and> asks \<noteq> []"
    by (simp only: stream_def list.map snd_conv bids_image_def asks_image_def bids_update_def level_def)
      (simp add: import_price_finite import_replay [OF import_prices_ordered] del: replay.simps)
  then show ?thesis using written seq by blast
qed

definition demo_encoder :: import_encoder where
  "demo_encoder e = [0]"

theorem Import_stream_replays_witness:
  "\<exists>stream bids asks. Import_main True demo_encoder (=) ''binary'' True [''log''] = Inr (concat (map demo_encoder stream)) \<and>
    map (ii_source_seqno \<circ> fst) stream = map of_nat [1..<Suc (length stream)] \<and>
    sorted_wrt (<) (map (ii_receive_time_utc \<circ> fst) stream) \<and>
    replay (None, None) (map snd stream) = Some (Some import_settings, Some (bids, asks)) \<and>
    bids \<noteq> [] \<and> asks \<noteq> []"
  by (rule Import_stream_replays) (simp_all add: demo_encoder_def)

text \<open>
  The encoding option only matters when it is unknown: the file is the same for both values,
  because nothing reads the encoding the processor stores.
\<close>

lemma Import_encoding_ignored:
  assumes "same enc1 ''binary'' \<or> same enc1 ''base64''" "same enc2 ''binary'' \<or> same enc2 ''base64''"
  shows "Import_main dbg encoder same enc1 opened params = Import_main dbg encoder same enc2 opened params"
  using assms by (auto simp: import_defs use_base64_def assert_then_def Let_def)

end
