(* ===== verification/Import_Base64.thy ===== *)
theory Import_Base64
  imports Roq_Prelude
begin

text \<open>
  The base64 encoder of the import sample (\<open>import/base64.cpp\<close>). The C++ code fills a string
  of padding characters through a raw pointer; the model writes the same positions of a list,
  and a read or write outside its buffer is undefined behaviour. The \<open>int\<close> values of the code
  stay below 2 to the 24 (its assertions say so, and they are proved), so they are HOL integers.
  Shown: the encoder never leaves its buffers and no assertion fails, it computes the
  reference encoding by groups of three bytes, and an independent decoder inverts it.
\<close>

unbundle bit_operations_syntax

section \<open>The encoder\<close>

definition B64chars :: string where
  "B64chars = ''ABCDEFGHIJKLMNOPQRSTUVWXYZabcdefghijklmnopqrstuvwxyz0123456789+/''"

text \<open>Reading the table; position 64 holds the terminating zero of the literal.\<close>

definition b64_at :: "int \<Rightarrow> char result" where
  "b64_at k = (if k < 0 \<or> 64 < k then Inl Undefined_Behaviour
     else if k = 64 then Inr (CHR 0x00) else Inr (B64chars ! nat k))"

definition b64_byte :: "u8 list \<Rightarrow> nat \<Rightarrow> int result" where
  "b64_byte data i = (if i < length data then Inr (uint (data ! i)) else Inl Undefined_Behaviour)"

text \<open>\<open>str[j++] = c\<close>\<close>

definition b64_put :: "char \<Rightarrow> string \<times> nat \<Rightarrow> (string \<times> nat) result" where
  "b64_put c sj = (case sj of (str, j) \<Rightarrow>
     if j < length str then Inr (str[j := c], j + 1) else Inl Undefined_Behaviour)"

definition b64_put_at :: "int \<Rightarrow> string \<times> nat \<Rightarrow> (string \<times> nat) result" where
  "b64_put_at k sj = bind_result (b64_at k) (\<lambda>c. b64_put c sj)"

text \<open>The loop over the full groups of three bytes, from index \<open>i\<close> to \<open>last\<close>.\<close>

function b64_loop :: "bool \<Rightarrow> u8 list \<Rightarrow> nat \<Rightarrow> nat \<Rightarrow> string \<times> nat \<Rightarrow> (string \<times> nat) result" where
  "b64_loop dbg data last1 i sj =
     (if i < last1 then
        bind_result (b64_byte data i) (\<lambda>a.
        bind_result (b64_byte data (i + 1)) (\<lambda>b.
        bind_result (b64_byte data (i + 2)) (\<lambda>c.
        let n = push_bit 16 a OR push_bit 8 b OR c in
        assert_then dbg (n \<ge> 0 \<and> n < push_bit 24 1)
          (bind_result (b64_put_at (drop_bit 18 n) sj) (\<lambda>sj.
           bind_result (b64_put_at (drop_bit 12 n AND 0x3F) sj) (\<lambda>sj.
           bind_result (b64_put_at (drop_bit 6 n AND 0x3F) sj) (\<lambda>sj.
           bind_result (b64_put_at (n AND 0x3F) sj) (\<lambda>sj.
           b64_loop dbg data last1 (i + 3) sj))))))))
      else Inr sj)"
  by pat_completeness auto
termination by (relation "measure (\<lambda>(dbg, data, last1, i, sj). last1 - i)") auto

definition b64_tail :: "bool \<Rightarrow> u8 list \<Rightarrow> nat \<Rightarrow> nat \<Rightarrow> string \<times> nat \<Rightarrow> (string \<times> nat) result" where
  "b64_tail dbg data last1 pad0 sj =
     (let pad = pad0 - 1 in
      bind_result
        (if pad \<noteq> 0 then
           bind_result (b64_byte data last1) (\<lambda>a.
           bind_result (b64_byte data (last1 + 1)) (\<lambda>b. Inr (push_bit 8 a OR b)))
         else b64_byte data last1) (\<lambda>n.
      assert_then dbg (n \<ge> 0 \<and> n < push_bit 16 1)
        (bind_result (b64_put_at (if pad \<noteq> 0 then drop_bit 10 n AND 0x3F else drop_bit 2 n) sj) (\<lambda>sj.
         bind_result (b64_put_at (if pad \<noteq> 0 then drop_bit 4 n AND 0x3F else push_bit 4 n AND 0x3F) sj) (\<lambda>sj.
         if pad \<noteq> 0 then b64_put_at (push_bit 2 n AND 0x3F) sj else b64_put (CHR ''='') sj)))))"

definition b64encode :: "bool \<Rightarrow> u8 list \<Rightarrow> string result" where
  "b64encode dbg data =
     (let len = length data;
          result = replicate ((len + 2) div 3 * 4) (CHR ''='');
          pad = len mod 3;
          last1 = len - pad
      in bind_result (b64_loop dbg data last1 0 (result, 0)) (\<lambda>sj.
         bind_result (if pad \<noteq> 0 then b64_tail dbg data last1 pad sj else Inr sj) (\<lambda>sj.
         Inr (fst sj))))"

text \<open>\<open>std::strlen\<close> of the string: the position of its first zero character.\<close>

definition b64_strlen :: "string \<Rightarrow> nat" where
  "b64_strlen s = length (takeWhile (\<lambda>c. c \<noteq> CHR 0x00) s)"

definition Base64_encode :: "bool \<Rightarrow> u8 list \<Rightarrow> string result" where
  "Base64_encode dbg data =
     bind_result (b64encode dbg data) (\<lambda>result.
     assert_then dbg (length result = b64_strlen result) (Inr result))"

section \<open>Reference encoding and decoder\<close>

definition b64_char :: "int \<Rightarrow> char" where
  "b64_char k = B64chars ! nat (k mod 64)"

fun b64_ref :: "int list \<Rightarrow> string" where
  "b64_ref (a # b # c # r) =
     [b64_char (a div 4), b64_char (a mod 4 * 16 + b div 16),
      b64_char (b mod 16 * 4 + c div 64), b64_char (c mod 64)] @ b64_ref r"
| "b64_ref [a, b] =
     [b64_char (a div 4), b64_char (a mod 4 * 16 + b div 16), b64_char (b mod 16 * 4), CHR ''='']"
| "b64_ref [a] = [b64_char (a div 4), b64_char (a mod 4 * 16), CHR ''='', CHR ''='']"
| "b64_ref [] = []"

text \<open>The position of a character in the alphabet.\<close>

definition b64_value :: "char \<Rightarrow> int option" where
  "b64_value c = (let k = length (takeWhile (\<lambda>d. d \<noteq> c) B64chars)
     in if k < 64 then Some (int k) else None)"

fun b64_decode :: "string \<Rightarrow> int list option" where
  "b64_decode [] = Some []"
| "b64_decode (p # q # r # s # rest) =
     (case (b64_value p, b64_value q, b64_value r, b64_value s) of
        (Some x, Some y, Some z, Some w) \<Rightarrow>
          map_option ((@) [x * 4 + y div 16, y mod 16 * 16 + z div 4, z mod 4 * 64 + w]) (b64_decode rest)
      | (Some x, Some y, Some z, None) \<Rightarrow>
          (if s = CHR ''='' \<and> rest = [] \<and> z mod 4 = 0 then Some [x * 4 + y div 16, y mod 16 * 16 + z div 4] else None)
      | (Some x, Some y, None, None) \<Rightarrow>
          (if r = CHR ''='' \<and> s = CHR ''='' \<and> rest = [] \<and> y mod 16 = 0 then Some [x * 4 + y div 16] else None)
      | _ \<Rightarrow> None)"
| "b64_decode _ = None"
section \<open>The encoder computes the reference encoding\<close>

lemma push_or:
  fixes x c :: int
  assumes "0 \<le> c" "c < 2 ^ k"
  shows "push_bit k x OR c = x * 2 ^ k + c"
proof -
  have c: "c = take_bit k c" using assms by (simp add: take_bit_int_eq_self)
  have "push_bit k x AND c = 0"
    by (subst c) (auto simp: bit_eq_iff bit_simps)
  then have "push_bit k x OR c = push_bit k x + c" by (simp add: disjunctive_add_eq_or)
  then show ?thesis by (simp add: push_bit_eq_mult)
qed

lemma pack3:
  fixes a b c :: int
  assumes "0 \<le> a" "a < 256" "0 \<le> b" "b < 256" "0 \<le> c" "c < 256"
  shows "push_bit 16 a OR push_bit 8 b OR c = a * 65536 + b * 256 + c"
  using assms push_or [of c 8 b] push_or [of "b * 256 + c" 16 a] by (simp add: or.assoc)

lemma pack2:
  fixes a b :: int
  assumes "0 \<le> a" "a < 256" "0 \<le> b" "b < 256"
  shows "push_bit 8 a OR b = a * 256 + b"
  using assms push_or [of b 8 a] by simp

lemma mask6: "(k :: int) AND 63 = k mod 64"
  using take_bit_eq_mask [of 6 k] by (simp add: take_bit_eq_mod mask_eq_exp_minus_1)

lemma b64_at_char [simp]: "0 \<le> k \<Longrightarrow> k < 64 \<Longrightarrow> b64_at k = Inr (b64_char k)"
  by (simp add: b64_at_def b64_char_def)

lemma b64_put_fill [simp]:
  "b64_put c (out @ x # post, length out) = Inr ((out @ [c]) @ post, length (out @ [c]))"
  by (simp add: b64_put_def)

lemma b64_put_at_fill:
  "0 \<le> k \<Longrightarrow> k < 64 \<Longrightarrow>
   b64_put_at k (out @ x # post, length out) = Inr ((out @ [b64_char k]) @ post, length (out @ [b64_char k]))"
  by (simp add: b64_put_at_def)

lemma b64_put_at_replicate:
  assumes "0 \<le> k" "k < 64"
  shows "b64_put_at k (out @ replicate (Suc m) x, length out) =
     Inr ((out @ [b64_char k]) @ replicate m x, length (out @ [b64_char k]))"
  using b64_put_at_fill [OF assms, of out x "replicate m x"] by simp

lemma byte_bounds: "0 \<le> uint (w :: u8)" "uint (w :: u8) < 256"
  using uint_lt2p [of w] by simp_all

lemma group_indices:
  fixes a b c :: int
  assumes "0 \<le> a" "a < 256" "0 \<le> b" "b < 256" "0 \<le> c" "c < 256"
  defines "n \<equiv> a * 65536 + b * 256 + c"
  shows "n div 262144 = a div 4" "n div 4096 mod 64 = a mod 4 * 16 + b div 16"
    "n div 64 mod 64 = b mod 16 * 4 + c div 64" "n mod 64 = c mod 64"
    "0 \<le> n" "n < 16777216"
proof -
  define ah al bh bl ch cl where d: "ah = a div 4" "al = a mod 4" "bh = b div 16" "bl = b mod 16"
    "ch = c div 64" "cl = c mod 64"
  have e: "a = 4 * ah + al" "b = 16 * bh + bl" "c = 64 * ch + cl" by (simp_all add: d)
  have r: "0 \<le> al" "al < 4" "0 \<le> bl" "bl < 16" "0 \<le> cl" "cl < 64" by (simp_all add: d)
  have h: "0 \<le> ah" "ah < 64" "0 \<le> bh" "bh < 16" "0 \<le> ch" "ch < 4"
    using assms by (auto simp: d)
  have n: "n = 262144 * ah + 65536 * al + 4096 * bh + 256 * bl + 64 * ch + cl"
    by (simp add: n_def e)
  have l: "bl * 256 + c < 4096" "al * 65536 + b * 256 + c < 262144" using assms r by simp_all
  note lin = e r h n l
  show "n div 262144 = a div 4"
    unfolding d(1) [symmetric]
    by (rule int_div_pos_eq [of _ _ _ "al * 65536 + b * 256 + c"]) (use lin assms in linarith)+
  have q2: "n div 4096 = ah * 64 + (al * 16 + bh)"
    by (rule int_div_pos_eq [of _ _ _ "bl * 256 + c"]) (use n e(3) l(1) r(3) assms(5) in simp_all)
  show "n div 4096 mod 64 = a mod 4 * 16 + b div 16"
    unfolding q2 d(2,3) [symmetric]
    by (rule int_mod_pos_eq [of _ _ ah]) (use r h in linarith)+
  have q3: "n div 64 = (ah * 64 + al * 16 + bh) * 64 + (bl * 4 + ch)"
    by (rule int_div_pos_eq [of _ _ _ cl]) (use n r in simp_all)
  show "n div 64 mod 64 = b mod 16 * 4 + c div 64"
    unfolding q3 d(4,5) [symmetric]
    by (rule int_mod_pos_eq [of _ _ "ah * 64 + al * 16 + bh"]) (use r h in linarith)+
  show "n mod 64 = c mod 64"
    unfolding d(6) [symmetric]
    by (rule int_mod_pos_eq [of _ _ "(ah * 64 + al * 16 + bh) * 64 + (bl * 4 + ch)"]) (use n r in simp_all)
  show "0 \<le> n" "n < 16777216" using assms by (simp_all add: n_def)
qed

lemma b64_put4:
  assumes "0 \<le> k1" "k1 < 64" "0 \<le> k2" "k2 < 64" "0 \<le> k3" "k3 < 64" "0 \<le> k4" "k4 < 64"
  shows "bind_result (b64_put_at k1 (out @ replicate (4 + m) x, length out)) (\<lambda>sj.
      bind_result (b64_put_at k2 sj) (\<lambda>sj.
      bind_result (b64_put_at k3 sj) (\<lambda>sj.
      bind_result (b64_put_at k4 sj) F))) =
    F ((out @ [b64_char k1, b64_char k2, b64_char k3, b64_char k4]) @ replicate m x, length out + 4)"
proof -
  have four: "replicate (4 + m) x = replicate (Suc (Suc (Suc (Suc m)))) x"
    by (simp add: numeral_eq_Suc)
  show ?thesis
    unfolding four using assms
    by (simp only: b64_put_at_replicate bind_result_Inr) (simp add: numeral_eq_Suc)
qed

lemma b64_loop_step:
  fixes a b c :: u8
  assumes "i + 2 < length data" "data ! i = a" "data ! (i + 1) = b" "data ! (i + 2) = c" "i < last1"
  shows "b64_loop dbg data last1 i (out @ replicate (4 + m) x, length out) =
     b64_loop dbg data last1 (i + 3) ((out @ b64_ref [uint a, uint b, uint c]) @ replicate m x, length out + 4)"
proof -
  note bytes = byte_bounds [of a] byte_bounds [of b] byte_bounds [of c]
  define n where "n = uint a * 65536 + uint b * 256 + uint c"
  note gi = group_indices [OF bytes, folded n_def]
  have pack: "push_bit 16 (uint a) OR push_bit 8 (uint b) OR uint c = n"
    using pack3 [OF bytes] by (simp add: n_def)
  have ref: "b64_ref [uint a, uint b, uint c] = [b64_char (n div 262144), b64_char (n div 4096 mod 64),
      b64_char (n div 64 mod 64), b64_char (n mod 64)]"
    by (simp only: gi(1-4)) simp
  have "0 \<le> n div 262144" "n div 262144 < 64" using gi(5,6) by simp_all
  then have put: "bind_result (b64_put_at (n div 262144) (out @ replicate (4 + m) x, length out)) (\<lambda>sj.
      bind_result (b64_put_at (n div 4096 mod 64) sj) (\<lambda>sj.
      bind_result (b64_put_at (n div 64 mod 64) sj) (\<lambda>sj.
      bind_result (b64_put_at (n mod 64) sj) F))) =
    F ((out @ b64_ref [uint a, uint b, uint c]) @ replicate m x, length out + 4)" for F
    by (subst b64_put4) (simp_all add: ref del: b64_ref.simps)
  have rd: "b64_byte data i = Inr (uint a)" "b64_byte data (i + 1) = Inr (uint b)"
    "b64_byte data (i + 2) = Inr (uint c)"
    using assms by (simp_all add: b64_byte_def)
  have shifts: "drop_bit 18 n = n div 262144" "drop_bit 12 n = n div 4096" "drop_bit 6 n = n div 64"
    "push_bit 24 1 = (16777216 :: int)"
    by (simp_all add: drop_bit_eq_div push_bit_eq_mult)
  show ?thesis
    using assms(5) gi(5,6)
    by (subst b64_loop.simps)
      (simp only: rd pack shifts put if_True bind_result_Inr Let_def mask6 assert_then_True simp_thms)
qed

lemma list3_cases: "length (xs :: 'a list) < 3 \<or> (\<exists>a b c ys. xs = a # b # c # ys)"
  by (cases xs; cases "tl xs"; cases "tl (tl xs)") auto

lemma b64_loop_ref:
  assumes "3 * k \<le> length r"
  shows "b64_loop dbg (dp @ r) (length dp + 3 * k) (length dp) (out @ replicate (4 * k + m) x, length out) =
     Inr ((out @ b64_ref (map uint (take (3 * k) r))) @ replicate m x, length out + 4 * k)"
  using assms
proof (induction k arbitrary: dp r out)
  case 0
  show ?case by (subst b64_loop.simps) simp
next
  case (Suc k)
  then obtain a b c r' where r: "r = a # b # c # r'"
    using list3_cases [of r] by auto
  have data: "dp @ r = (dp @ [a, b, c]) @ r'" and last1: "length dp + 3 * Suc k = length (dp @ [a, b, c]) + 3 * k"
    by (simp_all add: r)
  have "b64_loop dbg (dp @ r) (length dp + 3 * Suc k) (length dp) (out @ replicate (4 + (4 * k + m)) x, length out) =
     b64_loop dbg (dp @ r) (length dp + 3 * Suc k) (length dp + 3)
       ((out @ b64_ref [uint a, uint b, uint c]) @ replicate (4 * k + m) x, length out + 4)"
    by (rule b64_loop_step) (simp_all add: r nth_append)
  also have "\<dots> = b64_loop dbg ((dp @ [a, b, c]) @ r') (length (dp @ [a, b, c]) + 3 * k) (length (dp @ [a, b, c]))
       ((out @ b64_ref [uint a, uint b, uint c]) @ replicate (4 * k + m) x, length (out @ b64_ref [uint a, uint b, uint c]))"
    unfolding data last1 by (simp add: numeral_eq_Suc del: b64_loop.simps)
  also have "\<dots> = Inr (((out @ b64_ref [uint a, uint b, uint c]) @ b64_ref (map uint (take (3 * k) r'))) @ replicate m x,
       length (out @ b64_ref [uint a, uint b, uint c]) + 4 * k)"
    by (rule Suc.IH) (use Suc.prems r in simp)
  finally show ?case by (simp add: r numeral_eq_Suc del: b64_loop.simps)
qed

lemma tail2_indices:
  fixes a b :: int
  assumes "0 \<le> a" "a < 256" "0 \<le> b" "b < 256"
  shows "(a * 256 + b) div 1024 mod 64 = a div 4" "(a * 256 + b) div 16 mod 64 = a mod 4 * 16 + b div 16"
    "(a * 256 + b) * 4 mod 64 = b mod 16 * 4"
proof -
  note gi = group_indices [OF assms, of 0]
  have e: "(a * 65536 + b * 256 + 0) = (a * 256 + b) * 256" by simp
  have d: "(a * 256 + b) * 256 div 262144 = (a * 256 + b) div 1024" "(a * 256 + b) * 256 div 4096 = (a * 256 + b) div 16"
    "(a * 256 + b) * 256 div 64 = (a * 256 + b) * 4"
    by simp_all
  show "(a * 256 + b) div 1024 mod 64 = a div 4"
    using gi(1) assms unfolding e d by simp
  show "(a * 256 + b) div 16 mod 64 = a mod 4 * 16 + b div 16" using gi(2) unfolding e d by simp
  show "(a * 256 + b) * 4 mod 64 = b mod 16 * 4" using gi(3) unfolding e d by simp
qed

lemma tail1_indices:
  fixes a :: int
  assumes "0 \<le> a" "a < 256"
  shows "a * 16 mod 64 = a mod 4 * 16" "0 \<le> a div 4" "a div 4 < 64"
  using assms mult_mod_right [of 16 a 4] by (simp_all add: mult.commute)

lemma b64_put3:
  assumes "0 \<le> k1" "k1 < 64" "0 \<le> k2" "k2 < 64"
  shows "bind_result (b64_put_at k1 (out @ replicate 4 (CHR ''=''), length out)) (\<lambda>sj.
      bind_result (b64_put_at k2 sj) F) =
    F ((out @ [b64_char k1, b64_char k2]) @ ''=='', length (out @ [b64_char k1, b64_char k2]))"
proof -
  have four: "replicate 4 (CHR ''='') = replicate (Suc (Suc 2)) (CHR ''='')" by (simp add: numeral_eq_Suc)
  show ?thesis
    unfolding four using assms
    by (simp only: b64_put_at_replicate bind_result_Inr) (simp add: numeral_eq_Suc)
qed

lemma b64_tail_two:
  fixes a b :: u8
  shows "b64_tail dbg (dp @ [a, b]) (length dp) 2 (out @ replicate 4 (CHR ''=''), length out) =
     Inr (out @ b64_ref [uint a, uint b], length out + 3)"
proof -
  note bytes = byte_bounds [of a] byte_bounds [of b]
  define n where "n = uint a * 256 + uint b"
  note ti = tail2_indices [OF bytes, folded n_def]
  have pack: "push_bit 8 (uint a) OR uint b = n" using pack2 [OF bytes] by (simp add: n_def)
  have n: "0 \<le> n" "n < 65536" using bytes by (simp_all add: n_def)
  have ref: "b64_ref [uint a, uint b] =
      [b64_char (n div 1024 mod 64), b64_char (n div 16 mod 64), b64_char (n * 4 mod 64), CHR ''='']"
    by (simp only: ti) simp
  have shifts: "drop_bit 10 n = n div 1024" "drop_bit 4 n = n div 16" "push_bit 2 n = n * 4"
    "push_bit 16 1 = (65536 :: int)"
    by (simp_all add: drop_bit_eq_div push_bit_eq_mult)
  have rd: "b64_byte (dp @ [a, b]) (length dp) = Inr (uint a)" "b64_byte (dp @ [a, b]) (length dp + 1) = Inr (uint b)"
    by (simp_all add: b64_byte_def nth_append)
  have two: "2 - 1 = (1 :: nat)" "((1 :: nat) \<noteq> 0) = True" by simp_all
  have put: "b64_put_at (n * 4 mod 64) ((out @ ws) @ ''=='', length (out @ ws)) =
      Inr (out @ ws @ [b64_char (n * 4 mod 64), CHR ''=''], length (out @ ws) + 1)" for ws
    using b64_put_at_fill [of "n * 4 mod 64" "out @ ws" "CHR ''=''" "''=''"] by simp
  show ?thesis
    unfolding b64_tail_def Let_def two if_True rd bind_result_Inr pack shifts mask6
    by (subst b64_put3)
      (use put [of "[b64_char (n div 1024 mod 64), b64_char (n div 16 mod 64)]"] in
        \<open>simp_all add: n ref numeral_3_eq_3 del: b64_ref.simps\<close>)
qed

lemma b64_tail_one:
  fixes a :: u8
  shows "b64_tail dbg (dp @ [a]) (length dp) 1 (out @ replicate 4 (CHR ''=''), length out) =
     Inr (out @ b64_ref [uint a], length out + 3)"
proof -
  note bytes = byte_bounds [of a]
  note ti = tail1_indices [OF bytes]
  have ref: "b64_ref [uint a] = [b64_char (uint a div 4), b64_char (uint a * 16 mod 64), CHR ''='', CHR ''='']"
    by (simp only: ti) simp
  have shifts: "drop_bit 2 (uint a) = uint a div 4" "push_bit 4 (uint a) = uint a * 16" "push_bit 16 1 = (65536 :: int)"
    by (simp_all add: drop_bit_eq_div push_bit_eq_mult)
  have rd: "b64_byte (dp @ [a]) (length dp) = Inr (uint a)"
    by (simp add: b64_byte_def)
  have one: "1 - 1 = (0 :: nat)" "((0 :: nat) \<noteq> 0) = False" by simp_all
  have lt: "uint a < 65536" using bytes by simp
  show ?thesis
    unfolding b64_tail_def Let_def one if_False rd bind_result_Inr shifts mask6
    by (subst b64_put3) (simp_all add: ti(2,3) lt b64_put_def list_update_append ref del: b64_ref.simps)
qed

lemma b64_ref_append:
  "length xs mod 3 = 0 \<Longrightarrow> b64_ref (xs @ ys) = b64_ref xs @ b64_ref ys"
proof (induction xs rule: b64_ref.induct)
  case (1 a b c r)
  have "length (a # b # c # r) = length r + 3" by simp
  then have "length r mod 3 = 0" using 1(2) by (simp only: mod_add_self2)
  then show ?case using 1 by simp
qed simp_all

lemma length_b64_ref: "length (b64_ref xs) = (length xs + 2) div 3 * 4"
proof (induction xs rule: b64_ref.induct)
  case (1 a b c r)
  have "(length (a # b # c # r) + 2) div 3 = (length r + 2) div 3 + 1" by simp
  then show ?case using 1 by simp
qed simp_all

lemma b64encode_ref: "b64encode dbg data = Inr (b64_ref (map uint data))"
proof -
  define k pad where k: "k = length data div 3" and pad: "pad = length data mod 3"
  define rest where "rest = drop (3 * k) data"
  have len: "length data = 3 * k + pad" "pad < 3" by (simp_all add: k pad)
  have rest: "length rest = pad" "data = take (3 * k) data @ rest" using len by (simp_all add: rest_def)
  define m where "m = (if pad = 0 then 0 else 4 :: nat)"
  have "pad = 0 \<or> pad = 1 \<or> pad = 2" using len(2) by linarith
  then have size: "(length data + 2) div 3 * 4 = 4 * k + m"
    unfolding len(1) m_def by (elim disjE) simp_all
  have loop: "b64_loop dbg data (length data - pad) 0 (replicate (4 * k + m) x, 0) =
      Inr (b64_ref (map uint (take (3 * k) data)) @ replicate m x, 4 * k)" for x
    using b64_loop_ref [of k data dbg "[]" "[]" m x] len by (simp del: b64_loop.simps)
  have split: "b64_ref (map uint data) = b64_ref (map uint (take (3 * k) data)) @ b64_ref (map uint rest)"
    by (subst rest(2)) (simp add: b64_ref_append len del: append_take_drop_id)
  have pos: "4 * k = length (b64_ref (map uint (take (3 * k) data)))" "length data - pad = length (take (3 * k) data)"
    using len by (simp_all add: length_b64_ref)
  have tail: "(if pad \<noteq> 0 then b64_tail dbg data (length data - pad) pad
        (b64_ref (map uint (take (3 * k) data)) @ replicate m (CHR ''=''), 4 * k)
      else Inr (b64_ref (map uint (take (3 * k) data)) @ replicate m (CHR ''=''), 4 * k)) =
      Inr (b64_ref (map uint data), if pad = 0 then 4 * k else 4 * k + 3)"
  proof -
    consider "rest = []" | a where "rest = [a]" | a b where "rest = [a, b]"
      using rest(1) len(2) by (cases rest; cases "tl rest"; cases "tl (tl rest)") auto
    then show ?thesis
    proof cases
      case 1
      then show ?thesis using rest(1) by (simp add: split m_def)
    next
      case (2 a)
      then show ?thesis
        using rest b64_tail_one [of dbg "take (3 * k) data" a "b64_ref (map uint (take (3 * k) data))"]
        by (simp add: split m_def len(1) pos(1) [symmetric])
    next
      case (3 a b)
      then show ?thesis
        using rest b64_tail_two [of dbg "take (3 * k) data" a b "b64_ref (map uint (take (3 * k) data))"]
        by (simp add: split m_def len(1) numeral_2_eq_2 pos(1) [symmetric])
    qed
  qed
  show ?thesis
    unfolding b64encode_def Let_def size pad [symmetric] loop bind_result_Inr tail by simp
qed

section \<open>The decoder inverts it\<close>

lemma B64chars_facts: "distinct B64chars" "length B64chars = 64" "CHR 0x00 \<notin> set B64chars"
  by (simp_all add: B64chars_def)

lemma length_takeWhile_nth:
  "distinct xs \<Longrightarrow> k < length xs \<Longrightarrow> length (takeWhile (\<lambda>d. d \<noteq> xs ! k) xs) = k"
  by (induction xs arbitrary: k) (auto simp: nth_Cons split: nat.splits)

lemma b64_value_pad [simp]: "b64_value (CHR ''='') = None"
  by (simp add: b64_value_def B64chars_def)

lemma b64_value_char [simp]: "0 \<le> k \<Longrightarrow> k < 64 \<Longrightarrow> b64_value (b64_char k) = Some k"
  using length_takeWhile_nth [of B64chars "nat k"]
  by (simp add: b64_char_def b64_value_def B64chars_facts Let_def)

lemma b64_char_not_zero [simp]: "b64_char k \<noteq> CHR 0x00"
proof -
  have "b64_char k \<in> set B64chars"
    unfolding b64_char_def by (rule nth_mem) (simp add: B64chars_facts nat_less_iff)
  then show ?thesis using B64chars_facts(3) by metis
qed

lemma b64_ref_no_zero: "CHR 0x00 \<notin> set (b64_ref xs)"
  by (induction xs rule: b64_ref.induct) (use b64_char_not_zero in \<open>auto simp: eq_commute [of "CHR 0x00"]\<close>)

lemma split_byte:
  fixes a b :: int
  assumes "0 \<le> a" "a < 256" "0 \<le> b" "b < 256"
  shows "0 \<le> a div 4" "a div 4 < 64" "0 \<le> a mod 4 * 16 + b div 16" "a mod 4 * 16 + b div 16 < 64"
    "a div 4 * 4 + (a mod 4 * 16 + b div 16) div 16 = a" "(a mod 4 * 16 + b div 16) mod 16 = b div 16"
    "a mod 4 * 16 < 64" "0 \<le> a mod 4 * 16"
proof -
  have h: "0 \<le> b div 16" "b div 16 < 16" "0 \<le> a mod 4" "a mod 4 < 4" using assms by simp_all
  then show "0 \<le> a mod 4 * 16 + b div 16" "a mod 4 * 16 + b div 16 < 64" "a mod 4 * 16 < 64" "0 \<le> a mod 4 * 16"
    by linarith+
  show "0 \<le> a div 4" "a div 4 < 64" using assms by simp_all
  show "a div 4 * 4 + (a mod 4 * 16 + b div 16) div 16 = a"
    using h by simp
  show "(a mod 4 * 16 + b div 16) mod 16 = b div 16" using h by simp
qed

lemma split_byte2:
  fixes b c :: int
  assumes "0 \<le> b" "b < 256" "0 \<le> c" "c < 256"
  shows "0 \<le> b mod 16 * 4 + c div 64" "b mod 16 * 4 + c div 64 < 64" "0 \<le> b mod 16 * 4" "b mod 16 * 4 < 64"
    "b div 16 * 16 + (b mod 16 * 4 + c div 64) div 4 = b"
    "(b mod 16 * 4 + c div 64) mod 4 * 64 + c mod 64 = c"
proof -
  have h: "0 \<le> c div 64" "c div 64 < 4" "0 \<le> b mod 16" "b mod 16 < 16" using assms by simp_all
  then show "0 \<le> b mod 16 * 4 + c div 64" "b mod 16 * 4 + c div 64 < 64" "0 \<le> b mod 16 * 4" "b mod 16 * 4 < 64"
    by linarith+
  show "b div 16 * 16 + (b mod 16 * 4 + c div 64) div 4 = b" using h by simp
  show "(b mod 16 * 4 + c div 64) mod 4 * 64 + c mod 64 = c" using h by simp
qed

lemma b64_decode_group:
  assumes "b64_value p = Some x" "b64_value q = Some y" "b64_value r = Some z" "b64_value s = Some w"
  shows "b64_decode ([p, q, r, s] @ rest) =
     map_option ((@) [x * 4 + y div 16, y mod 16 * 16 + z div 4, z mod 4 * 64 + w]) (b64_decode rest)"
  using assms by simp

lemma b64_decode_ref:
  "\<forall>x \<in> set xs. 0 \<le> x \<and> x < 256 \<Longrightarrow> b64_decode (b64_ref xs) = Some xs"
proof (induction xs rule: b64_ref.induct)
  case (1 a b c r)
  then have bytes: "0 \<le> a" "a < 256" "0 \<le> b" "b < 256" "0 \<le> c" "c < 256"
    and IH: "b64_decode (b64_ref r) = Some r" by simp_all
  note s1 = split_byte [OF bytes(1-4)] and s2 = split_byte2 [OF bytes(3-6)]
  have v: "b64_value (b64_char (a div 4)) = Some (a div 4)"
    "b64_value (b64_char (a mod 4 * 16 + b div 16)) = Some (a mod 4 * 16 + b div 16)"
    "b64_value (b64_char (b mod 16 * 4 + c div 64)) = Some (b mod 16 * 4 + c div 64)"
    "b64_value (b64_char (c mod 64)) = Some (c mod 64)"
    by (intro b64_value_char s1 s2; simp)+
  show ?case
    by (simp only: b64_ref.simps b64_decode_group [OF v] IH s1(5,6) s2(5,6)) simp
next
  case (2 a b)
  then have bytes: "0 \<le> a" "a < 256" "0 \<le> b" "b < 256" by simp_all
  note s1 = split_byte [OF bytes] and s2 = split_byte2 [OF bytes(3,4), of 0]
  have v: "b64_value (b64_char (a div 4)) = Some (a div 4)"
    "b64_value (b64_char (a mod 4 * 16 + b div 16)) = Some (a mod 4 * 16 + b div 16)"
    "b64_value (b64_char (b mod 16 * 4)) = Some (b mod 16 * 4)"
    by (intro b64_value_char s1 s2; simp)+
  have b: "b div 16 * 16 + b mod 16 * 4 div 4 = b" "b mod 16 * 4 mod 4 = 0" by simp_all
  show ?case
    by (simp only: b64_ref.simps b64_decode.simps v b64_value_pad option.case prod.case s1(5,6) b
        simp_thms if_True)
next
  case (3 a)
  then have bytes: "0 \<le> a" "a < 256" by simp_all
  note s1 = split_byte [OF bytes, of 0]
  have v: "b64_value (b64_char (a div 4)) = Some (a div 4)"
    "b64_value (b64_char (a mod 4 * 16)) = Some (a mod 4 * 16)"
    by (intro b64_value_char s1; simp)+
  have a: "a div 4 * 4 + a mod 4 * 16 div 16 = a" "a mod 4 * 16 mod 16 = 0" by simp_all
  show ?case
    by (simp only: b64_ref.simps b64_decode.simps v b64_value_pad option.case prod.case a simp_thms if_True)
qed simp

lemma strlen_b64_ref: "b64_strlen (b64_ref xs) = length (b64_ref xs)"
proof -
  have "takeWhile (\<lambda>c. c \<noteq> CHR 0x00) (b64_ref xs) = b64_ref xs"
    unfolding takeWhile_eq_all_conv using b64_ref_no_zero [of xs] by auto
  then show ?thesis by (simp only: b64_strlen_def)
qed

lemma Base64_encode_ref: "Base64_encode dbg data = Inr (b64_ref (map uint data))"
  by (simp add: Base64_encode_def b64encode_ref strlen_b64_ref)

section \<open>Properties\<close>

text \<open>
  C27: For every input, in debug and in release builds, the encoder ends normally: it never
  reads or writes outside its buffers and no assertion fails. Its result is the reference
  encoding, which works on groups of three bytes, and has four characters for every group.
\<close>

theorem Base64_encode_reference:
  "Base64_encode dbg data = Inr (b64_ref (map uint data)) \<and>
   length (b64_ref (map uint data)) = (length data + 2) div 3 * 4"
  by (simp add: Base64_encode_ref length_b64_ref)

text \<open>
  C28: Decoding what the encoder returns gives the bytes back, so two inputs never have the
  same encoding.
\<close>

theorem Base64_round_trip:
  "\<exists>s. Base64_encode dbg data = Inr s \<and> map_option (map word_of_int) (b64_decode s) = Some data"
proof -
  note Base64_encode_ref
  moreover have "b64_decode (b64_ref (map uint data)) = Some (map uint data)"
    by (rule b64_decode_ref) (auto simp: byte_bounds)
  ultimately show ?thesis by (auto simp: comp_def)
qed

end
