(* ===== verification/Loggers.thy ===== *)
theory Loggers
  imports Roq_API
begin

text \<open>
  The clients whose handlers write their events to the log: \<open>example-1/strategy.*\<close> and
  \<open>example-4/strategy.*\<close> (and the printing handlers of examples 5 and 9 and of the minimal sample),
  and \<open>bridge/bridge.*\<close>, whose handlers are empty. A handler is described by the level and the label
  of the line it writes; a level that is above the verbosity (\<open>ROQ_v\<close>) prints nothing. What the
  formatter makes of a value is a parameter: a line keeps the value.
  Shown: the output of a session is one line for each event that has a handler and a level within the
  verbosity, in order; a higher verbosity only adds lines; with the default verbosity the hot path of
  examples 1 and 4 prints nothing, which their comments ask for.
\<close>

section \<open>Events and lines\<close>

text \<open>The types of the events that the handlers of the samples are declared for.\<close>

datatype event_type =
    EV_Start | EV_Stop | EV_Timer | EV_Connected | EV_Disconnected | EV_DownloadBegin | EV_DownloadEnd | EV_Ready
  | EV_Control | EV_ControlAck | EV_ServiceUpdate | EV_StrategyUpdate | EV_LegsUpdate | EV_GatewaySettings
  | EV_StreamStatus | EV_ExternalLatency | EV_RateLimitsUpdate | EV_RateLimitTrigger | EV_GatewayStatus
  | EV_ReferenceData | EV_MarketStatus | EV_MarketSegmentStatus | EV_TopOfBook | EV_MarketByPriceUpdate
  | EV_MarketByOrderUpdate | EV_TradeSummary | EV_StatisticsUpdate | EV_TimeSeriesUpdate | EV_Subscribe
  | EV_CreateOrder | EV_ModifyOrder | EV_CancelOrder | EV_CancelAllOrders | EV_CancelAllOrdersAck | EV_OrderAck
  | EV_OrderUpdate | EV_TradeUpdate | EV_PositionUpdate | EV_FundsUpdate | EV_CustomMetricsUpdate
  | EV_CustomMatrixUpdate | EV_ParametersUpdate | EV_PortfolioUpdate | EV_RiskLimits | EV_RiskLimitsUpdate
  | EV_MassQuote | EV_MassQuoteAck | EV_CancelQuotes | EV_CancelQuotesAck | EV_CustomMessage

text \<open>The types are finitely many, so statements about all of them can be decided by enumeration.\<close>

instantiation event_type :: enum
begin

definition enum_event_type :: "event_type list" where
  "enum_event_type = [
     EV_Start, EV_Stop, EV_Timer, EV_Connected, EV_Disconnected, EV_DownloadBegin, EV_DownloadEnd, EV_Ready,
     EV_Control, EV_ControlAck, EV_ServiceUpdate, EV_StrategyUpdate, EV_LegsUpdate, EV_GatewaySettings,
     EV_StreamStatus, EV_ExternalLatency, EV_RateLimitsUpdate, EV_RateLimitTrigger, EV_GatewayStatus,
     EV_ReferenceData, EV_MarketStatus, EV_MarketSegmentStatus, EV_TopOfBook, EV_MarketByPriceUpdate,
     EV_MarketByOrderUpdate, EV_TradeSummary, EV_StatisticsUpdate, EV_TimeSeriesUpdate, EV_Subscribe, EV_CreateOrder,
     EV_ModifyOrder, EV_CancelOrder, EV_CancelAllOrders, EV_CancelAllOrdersAck, EV_OrderAck, EV_OrderUpdate,
     EV_TradeUpdate, EV_PositionUpdate, EV_FundsUpdate, EV_CustomMetricsUpdate, EV_CustomMatrixUpdate,
     EV_ParametersUpdate, EV_PortfolioUpdate, EV_RiskLimits, EV_RiskLimitsUpdate, EV_MassQuote, EV_MassQuoteAck,
     EV_CancelQuotes, EV_CancelQuotesAck, EV_CustomMessage]"

definition enum_all_event_type :: "(event_type \<Rightarrow> bool) \<Rightarrow> bool" where
  "enum_all_event_type P = list_all P enum_class.enum"

definition enum_ex_event_type :: "(event_type \<Rightarrow> bool) \<Rightarrow> bool" where
  "enum_ex_event_type P = list_ex P enum_class.enum"

instance
proof
  show univ: "(UNIV :: event_type set) = set enum_class.enum"
  proof (intro set_eqI iffI UNIV_I)
    fix k :: event_type
    show "k \<in> set enum_class.enum" by (cases k) (simp_all add: enum_event_type_def)
  qed
  show "distinct (enum_class.enum :: event_type list)" by (simp add: enum_event_type_def)
  show "enum_class.enum_all P = Ball UNIV P" for P :: "event_type \<Rightarrow> bool"
    by (simp add: enum_all_event_type_def univ list_all_iff)
  show "enum_class.enum_ex P = Bex UNIV P" for P :: "event_type \<Rightarrow> bool"
    by (simp add: enum_ex_event_type_def univ list_ex_iff)
qed

end

record 'v log_event =
  le_type :: event_type
  le_source :: u8
  le_source_name :: string
  le_value :: 'v

record 'v log_line =
  ll_source :: u8
  ll_source_name :: string
  ll_label :: string
  ll_value :: 'v

text \<open>\<open>log::info<level>\<close>: the line appears when the level is within the verbosity.\<close>

definition log_info :: "nat \<Rightarrow> nat \<Rightarrow> 'l \<Rightarrow> 'l list \<Rightarrow> 'l list" where
  "log_info verbosity level l out = (if level \<le> verbosity then out @ [l] else out)"

text \<open>One event of a client whose handlers have the levels and labels \<open>H\<close>.\<close>

definition log_step :: "(event_type \<Rightarrow> (nat \<times> string) option) \<Rightarrow> nat \<Rightarrow> 'v log_line list \<Rightarrow> 'v log_event \<Rightarrow> 'v log_line list" where
  "log_step H verbosity out e =
     (case H (le_type e) of
        None \<Rightarrow> out
      | Some (level, label) \<Rightarrow> log_info verbosity level
          \<lparr>ll_source = le_source e, ll_source_name = le_source_name e, ll_label = label, ll_value = le_value e\<rparr> out)"

section \<open>The handlers\<close>

fun Example1_handlers :: "event_type \<Rightarrow> (nat \<times> string) option" where
  "Example1_handlers EV_Connected = Some (0, ''connected'')"
| "Example1_handlers EV_Disconnected = Some (0, ''Disconnected'')"
| "Example1_handlers EV_DownloadBegin = Some (0, ''DownloadBegin'')"
| "Example1_handlers EV_DownloadEnd = Some (0, ''DownloadEnd'')"
| "Example1_handlers EV_GatewaySettings = Some (0, ''Settings'')"
| "Example1_handlers EV_StreamStatus = Some (0, ''StreamStatus'')"
| "Example1_handlers EV_ExternalLatency = Some (1, ''ExternalLatency'')"
| "Example1_handlers EV_RateLimitTrigger = Some (1, ''RateLimitTrigger'')"
| "Example1_handlers EV_GatewayStatus = Some (1, ''GatewayStatus'')"
| "Example1_handlers EV_ReferenceData = Some (0, ''ReferenceData'')"
| "Example1_handlers EV_MarketStatus = Some (0, ''MarketStatus'')"
| "Example1_handlers EV_TopOfBook = Some (1, ''TopOfBook'')"
| "Example1_handlers EV_MarketByPriceUpdate = Some (1, ''MarketByPriceUpdate'')"
| "Example1_handlers EV_MarketByOrderUpdate = Some (1, ''MarketByOrderUpdate'')"
| "Example1_handlers EV_TradeSummary = Some (1, ''TradeSummary'')"
| "Example1_handlers EV_CustomMetricsUpdate = Some (1, ''CustomMetricsUpdate'')"
| "Example1_handlers _ = None"

fun Example4_handlers :: "event_type \<Rightarrow> (nat \<times> string) option" where
  "Example4_handlers EV_Connected = Some (0, ''Connected'')"
| "Example4_handlers EV_Disconnected = Some (0, ''Disconnected'')"
| "Example4_handlers EV_DownloadBegin = Some (0, ''DownloadBegin'')"
| "Example4_handlers EV_DownloadEnd = Some (0, ''DownloadEnd'')"
| "Example4_handlers EV_GatewayStatus = Some (0, ''GatewayStatus'')"
| "Example4_handlers EV_ReferenceData = Some (0, ''ReferenceData'')"
| "Example4_handlers EV_MarketStatus = Some (0, ''MarketStatus'')"
| "Example4_handlers EV_MarketByPriceUpdate = Some (1, ''MarketByPriceUpdate'')"
| "Example4_handlers EV_MarketByOrderUpdate = Some (1, ''MarketByOrderUpdate'')"
| "Example4_handlers EV_TradeSummary = Some (1, ''TradeSummary'')"
| "Example4_handlers _ = None"

text \<open>Example 5 forwards \<open>Start\<close> and \<open>Stop\<close> to its producer and prints two types of events.\<close>

fun Example5_handlers :: "event_type \<Rightarrow> (nat \<times> string) option" where
  "Example5_handlers EV_TopOfBook = Some (0, ''TopOfBook'')"
| "Example5_handlers EV_CustomMessage = Some (0, ''CustomMessage'')"
| "Example5_handlers _ = None"

text \<open>The minimal sample prints every event it handles, with a template for the level.\<close>

fun Minimal_print_level :: "event_type \<Rightarrow> nat option" where
  "Minimal_print_level EV_Connected = Some 0"
| "Minimal_print_level EV_Disconnected = Some 0"
| "Minimal_print_level EV_DownloadBegin = Some 0"
| "Minimal_print_level EV_DownloadEnd = Some 0"
| "Minimal_print_level EV_Ready = Some 0"
| "Minimal_print_level EV_ReferenceData = Some 1"
| "Minimal_print_level EV_MarketStatus = Some 1"
| "Minimal_print_level EV_TopOfBook = Some 1"
| "Minimal_print_level EV_MarketByPriceUpdate = Some 1"
| "Minimal_print_level EV_MarketByOrderUpdate = Some 1"
| "Minimal_print_level EV_TradeSummary = Some 1"
| "Minimal_print_level EV_StatisticsUpdate = Some 1"
| "Minimal_print_level EV_CancelAllOrdersAck = Some 0"
| "Minimal_print_level EV_OrderAck = Some 0"
| "Minimal_print_level EV_OrderUpdate = Some 0"
| "Minimal_print_level EV_TradeUpdate = Some 0"
| "Minimal_print_level _ = None"

definition Minimal_print :: "event_type \<Rightarrow> (nat \<times> string) option" where
  "Minimal_print k = map_option (\<lambda>level. (level, ''event'')) (Minimal_print_level k)"

text \<open>The bridge sample has five handlers, all empty, and no state but its dispatcher.\<close>

fun Bridge_sample_handle :: "'s \<Rightarrow> event_type \<Rightarrow> 's" where
  "Bridge_sample_handle s EV_Start = s"
| "Bridge_sample_handle s EV_Stop = s"
| "Bridge_sample_handle s EV_Timer = s"
| "Bridge_sample_handle s EV_Connected = s"
| "Bridge_sample_handle s EV_Disconnected = s"
| "Bridge_sample_handle s _ = s"

section \<open>Contract: the output of a logging client\<close>

text \<open>The lines of one event.\<close>

definition lines_of :: "(event_type \<Rightarrow> (nat \<times> string) option) \<Rightarrow> nat \<Rightarrow> 'v log_event \<Rightarrow> 'v log_line list" where
  "lines_of H verbosity e = log_step H verbosity [] e"

lemma log_step_lines: "log_step H verbosity out e = out @ lines_of H verbosity e"
  by (simp add: lines_of_def log_step_def log_info_def split: option.split)

lemma log_output: "foldl (log_step H verbosity) out es = out @ concat (map (lines_of H verbosity) es)"
  by (induction es arbitrary: out) (simp_all add: log_step_lines)

lemma log_output_mono:
  assumes "v \<le> w"
  shows "set (foldl (log_step H v) out es) \<subseteq> set (foldl (log_step H w) out es)"
proof -
  have "set (lines_of H v e) \<subseteq> set (lines_of H w e)" for e
    using assms by (cases "H (le_type e)") (auto simp: lines_of_def log_step_def log_info_def)
  then show ?thesis unfolding log_output by fastforce
qed

text \<open>
  The comments of example 1 ask for verbose logging only in the hot path, the handlers of the events
  that arrive at a high rate (\<open>hot\<close>).
\<close>

locale quiet_client =
  fixes handlers :: "event_type \<Rightarrow> (nat \<times> string) option"
    and hot :: "event_type \<Rightarrow> bool"
  assumes hot_verbose: "hot k \<Longrightarrow> handlers k = Some (level, label) \<Longrightarrow> 0 < level"
begin

lemma hot_silent: "hot (le_type e) \<Longrightarrow> lines_of handlers 0 e = []"
  using hot_verbose by (force simp: lines_of_def log_step_def log_info_def split: option.splits)

lemma default_output:
  "foldl (log_step handlers 0) [] es = foldl (log_step handlers 0) [] (filter (\<lambda>e. \<not> hot (le_type e)) es)"
  unfolding log_output by (induction es) (auto simp: hot_silent)

end

fun market_data_event :: "event_type \<Rightarrow> bool" where
  "market_data_event EV_TopOfBook = True"
| "market_data_event EV_MarketByPriceUpdate = True"
| "market_data_event EV_MarketByOrderUpdate = True"
| "market_data_event EV_TradeSummary = True"
| "market_data_event EV_StatisticsUpdate = True"
| "market_data_event EV_CustomMetricsUpdate = True"
| "market_data_event EV_ExternalLatency = True"
| "market_data_event EV_RateLimitTrigger = True"
| "market_data_event _ = False"

interpretation example1_quiet: quiet_client Example1_handlers market_data_event
proof
  fix k level label
  assume "market_data_event k" "Example1_handlers k = Some (level, label)"
  then show "0 < level" by (cases k) auto
qed

interpretation example4_quiet: quiet_client Example4_handlers market_data_event
proof
  fix k level label
  assume "market_data_event k" "Example4_handlers k = Some (level, label)"
  then show "0 < level" by (cases k) auto
qed

interpretation minimal_quiet: quiet_client Minimal_print market_data_event
proof
  fix k level label
  assume "market_data_event k" "Minimal_print k = Some (level, label)"
  then show "0 < level" by (cases k) (auto simp: Minimal_print_def)
qed

section \<open>Properties\<close>

text \<open>
  With the default verbosity the market data of examples 1 and 4 and of the minimal sample does
  not reach the log: a session prints the same lines without it.
\<close>

theorem Loggers_hot_path_silent:
  "foldl (log_step Example1_handlers 0) [] es = foldl (log_step Example1_handlers 0) [] (filter (\<lambda>e. \<not> market_data_event (le_type e)) es) \<and>
   foldl (log_step Example4_handlers 0) [] es = foldl (log_step Example4_handlers 0) [] (filter (\<lambda>e. \<not> market_data_event (le_type e)) es) \<and>
   foldl (log_step Minimal_print 0) [] es = foldl (log_step Minimal_print 0) [] (filter (\<lambda>e. \<not> market_data_event (le_type e)) es)"
  using example1_quiet.default_output example4_quiet.default_output minimal_quiet.default_output by blast

end
