(* ===== verification/Event_Log.thy ===== *)
theory Event_Log
  imports Loggers "HOL-Library.AList"
begin

text \<open>
  The readers of event logs: \<open>event-log/processor.*\<close>, which prints the events it has a handler for and keeps up with
  a log that is still written, and \<open>vwap/processor.*\<close>, which prints the volume weighted prices of
  every order book. The event log reader and the order book of the client library are parameters.
  Shown: for a log that is finished at some time the first program ends and has printed every
  event, in order; otherwise it never ends. The second prints for every symbol what a single book
  of that symbol gives.
\<close>

section \<open>The event log\<close>

text \<open>
  A reader with state \<open>'r\<close>: whether the log is finished, one call of \<open>dispatch\<close> (the events it
  hands to the processor, and whether there were any), and what the wait of ten seconds does.
\<close>

record ('r, 'e) reader_ops =
  rd_finished :: "'r \<Rightarrow> bool"
  rd_dispatch :: "'r \<Rightarrow> bool \<times> 'e list \<times> 'r"
  rd_wait :: "'r \<Rightarrow> 'r"

text \<open>The types of events the processor has a handler for. Every handler prints its event; the base
  class drops the others.\<close>

fun Processor_handles :: "event_type \<Rightarrow> bool" where
  "Processor_handles EV_Control = True"
| "Processor_handles EV_ControlAck = True"
| "Processor_handles EV_ServiceUpdate = True"
| "Processor_handles EV_StrategyUpdate = True"
| "Processor_handles EV_LegsUpdate = True"
| "Processor_handles EV_GatewaySettings = True"
| "Processor_handles EV_StreamStatus = True"
| "Processor_handles EV_ExternalLatency = True"
| "Processor_handles EV_RateLimitsUpdate = True"
| "Processor_handles EV_RateLimitTrigger = True"
| "Processor_handles EV_GatewayStatus = True"
| "Processor_handles EV_ReferenceData = True"
| "Processor_handles EV_MarketStatus = True"
| "Processor_handles EV_MarketSegmentStatus = True"
| "Processor_handles EV_TopOfBook = True"
| "Processor_handles EV_MarketByPriceUpdate = True"
| "Processor_handles EV_MarketByOrderUpdate = True"
| "Processor_handles EV_TradeSummary = True"
| "Processor_handles EV_StatisticsUpdate = True"
| "Processor_handles EV_TimeSeriesUpdate = True"
| "Processor_handles EV_Subscribe = True"
| "Processor_handles EV_CreateOrder = True"
| "Processor_handles EV_ModifyOrder = True"
| "Processor_handles EV_CancelOrder = True"
| "Processor_handles EV_CancelAllOrders = True"
| "Processor_handles EV_CancelAllOrdersAck = True"
| "Processor_handles EV_OrderAck = True"
| "Processor_handles EV_OrderUpdate = True"
| "Processor_handles EV_TradeUpdate = True"
| "Processor_handles EV_PositionUpdate = True"
| "Processor_handles EV_FundsUpdate = True"
| "Processor_handles EV_CustomMetricsUpdate = True"
| "Processor_handles EV_CustomMatrixUpdate = True"
| "Processor_handles EV_ParametersUpdate = True"
| "Processor_handles EV_PortfolioUpdate = True"
| "Processor_handles EV_RiskLimits = True"
| "Processor_handles EV_RiskLimitsUpdate = True"
| "Processor_handles EV_MassQuote = True"
| "Processor_handles EV_MassQuoteAck = True"
| "Processor_handles EV_CancelQuotes = True"
| "Processor_handles EV_CancelQuotesAck = True"
| "Processor_handles _ = False"

definition Processor_handle :: "'v log_event list \<Rightarrow> 'v log_event \<Rightarrow> 'v log_event list" where
  "Processor_handle out e = (if Processor_handles (le_type e) then out @ [e] else out)"

text \<open>There are 41 of them, and the types that are not handled are those of the connection of a client.\<close>

lemma Processor_handles_types:
  "card {k. Processor_handles k} = 41"
  "\<not> Processor_handles k \<longleftrightarrow>
     k \<in> {EV_Start, EV_Stop, EV_Timer, EV_Connected, EV_Disconnected, EV_DownloadBegin, EV_DownloadEnd, EV_Ready, EV_CustomMessage}"
proof -
  have "{k. Processor_handles k} = set (filter Processor_handles enum_class.enum)"
    by (simp add: enum_UNIV)
  also have "card \<dots> = length (filter Processor_handles enum_class.enum)"
    by (intro distinct_card distinct_filter enum_distinct)
  also have "\<dots> = 41" by (simp add: enum_event_type_def)
  finally show "card {k. Processor_handles k} = 41" .
  show "\<not> Processor_handles k \<longleftrightarrow>
     k \<in> {EV_Start, EV_Stop, EV_Timer, EV_Connected, EV_Disconnected, EV_DownloadBegin, EV_DownloadEnd, EV_Ready, EV_CustomMessage}"
    by (cases k) simp_all
qed

text \<open>
  The inner loop, with what was printed and the flag \<open>updates\<close>; then the outer loop, which also
  counts the waits.
\<close>

partial_function (option) drain_log ::
  "('r, 'v log_event) reader_ops \<Rightarrow> 'r \<Rightarrow> 'v log_event list \<Rightarrow> bool \<Rightarrow> ('r \<times> 'v log_event list \<times> bool) option" where
  "drain_log R r out updates =
     (case rd_dispatch R r of (any, es, r') \<Rightarrow>
        if any then drain_log R r' (foldl Processor_handle out es) True else Some (r', foldl Processor_handle out es, updates))"

partial_function (option) event_log_loop ::
  "('r, 'v log_event) reader_ops \<Rightarrow> 'r \<Rightarrow> 'v log_event list \<Rightarrow> nat \<Rightarrow> ('r \<times> 'v log_event list \<times> nat) option" where
  "event_log_loop R r out waits =
     (if rd_finished R r then Some (r, out, waits)
      else Option.bind (drain_log R r out False) (\<lambda>(r', out', updates).
        if updates then event_log_loop R r' out' waits
        else event_log_loop R (rd_wait R r') out' (waits + 1)))"

definition event_log_dispatch :: "('r, 'v log_event) reader_ops \<Rightarrow> 'r \<Rightarrow> ('r \<times> 'v log_event list \<times> nat) option" where
  "event_log_dispatch R r = event_log_loop R r [] 0"

definition event_log_main ::
  "(string \<Rightarrow> 'r) \<Rightarrow> ('r, 'v log_event) reader_ops \<Rightarrow> string list \<Rightarrow> ('r \<times> 'v log_event list \<times> nat) option result" where
  "event_log_main create R params =
     (if length params \<noteq> 1 then Inl Fatal else Inr (event_log_dispatch R (create (params ! 0))))"

section \<open>The volume weighted prices\<close>

record ('b, 'u) vwap_ops =
  vw_create :: "string \<Rightarrow> string \<Rightarrow> 'b"
  vw_apply :: "'b \<Rightarrow> 'u book_update \<Rightarrow> 'b"
  vw_compute :: "'b \<Rightarrow> double \<Rightarrow> layer"

record vwap_line =
  vl_receive_time :: nanoseconds
  vl_symbol :: string
  vl_layer :: layer

type_synonym 'b vwap_state = "(string \<times> 'b) list \<times> vwap_line list"

definition get_market_by_price :: "('b, 'u) vwap_ops \<Rightarrow> (string \<times> 'b) list \<Rightarrow> 'u book_update \<Rightarrow> 'b" where
  "get_market_by_price V books u =
     (case map_of books (bu_symbol u) of
        None \<Rightarrow> vw_create V (bu_exchange u) (bu_symbol u)
      | Some b \<Rightarrow> b)"

definition vwap_on_MarketByPriceUpdate ::
  "('b, 'u) vwap_ops \<Rightarrow> double \<Rightarrow> message_info \<Rightarrow> 'u book_update \<Rightarrow> 'b vwap_state \<Rightarrow> 'b vwap_state" where
  "vwap_on_MarketByPriceUpdate V quantity info u s =
     (let b = vw_apply V (get_market_by_price V (fst s) u) u in
      (AList.update (bu_symbol u) b (fst s),
       snd s @ [\<lparr>vl_receive_time = receive_time info, vl_symbol = bu_symbol u, vl_layer = vw_compute V b quantity\<rparr>]))"

fun vwap_step :: "('b, 'u) vwap_ops \<Rightarrow> double \<Rightarrow> 'b vwap_state \<Rightarrow> 'u event \<Rightarrow> 'b vwap_state" where
  "vwap_step V quantity s (info, MarketByPriceUpdate u) = vwap_on_MarketByPriceUpdate V quantity info u s"
| "vwap_step V quantity s (info, _) = s"

text \<open>One call of the reader's \<open>dispatch\<close> for every path, each with new books.\<close>

definition vwap_dispatch ::
  "('b, 'u) vwap_ops \<Rightarrow> ('r, 'u event) reader_ops \<Rightarrow> double \<Rightarrow> 'r \<Rightarrow> vwap_line list" where
  "vwap_dispatch V R quantity r = snd (foldl (vwap_step V quantity) ([], []) (fst (snd (rd_dispatch R r))))"

definition vwap_main ::
  "('b, 'u) vwap_ops \<Rightarrow> (string \<Rightarrow> 'r) \<Rightarrow> ('r, 'u event) reader_ops \<Rightarrow> double \<Rightarrow> string list \<Rightarrow> vwap_line list result" where
  "vwap_main V create R quantity params =
     (if length params < 1 then Inl Fatal else Inr (concat (map (\<lambda>path. vwap_dispatch V R quantity (create path)) params)))"

section \<open>Termination of the event log loop\<close>

text \<open>
  What is relied on for a log that is finished at some time: \<open>todo\<close> are the events not handed over
  yet, also those not written yet. A call of \<open>dispatch\<close> hands over the next ones and says whether
  there were any; the wait changes nothing but the time until the log is complete, \<open>rank\<close> bounds
  what is left to happen; a finished log has handed over everything.
\<close>

definition reader_complete :: "('r, 'e) reader_ops \<Rightarrow> ('r \<Rightarrow> 'e list) \<Rightarrow> ('r \<Rightarrow> nat) \<Rightarrow> bool" where
  "reader_complete R todo rank \<longleftrightarrow>
     (\<forall>r any es r'. rd_dispatch R r = (any, es, r') \<longrightarrow>
        todo r = es @ todo r' \<and> (any \<longrightarrow> rank r' < rank r) \<and>
        (\<not> any \<longrightarrow> rank r' \<le> rank r \<and> rank (rd_wait R r') \<le> rank r - 1)) \<and>
     (\<forall>r. rd_finished R r \<longrightarrow> todo r = []) \<and>
     (\<forall>r. todo (rd_wait R r) = todo r) \<and>
     (\<forall>r. rank r = 0 \<longrightarrow> rd_finished R r)"

lemma reader_completeD:
  assumes "reader_complete R todo rank"
  shows "rd_dispatch R r = (any, es, r') \<Longrightarrow> todo r = es @ todo r'"
    and "rd_dispatch R r = (True, es, r') \<Longrightarrow> rank r' < rank r"
    and "rd_dispatch R r = (False, es, r') \<Longrightarrow> rank r' \<le> rank r \<and> rank (rd_wait R r') \<le> rank r - 1"
    and "rd_finished R r \<Longrightarrow> todo r = []"
    and "todo (rd_wait R r) = todo r" "rank r = 0 \<Longrightarrow> rd_finished R r"
  using assms unfolding reader_complete_def by blast+

abbreviation printed :: "'v log_event list \<Rightarrow> 'v log_event list" where
  "printed es \<equiv> filter (\<lambda>e. Processor_handles (le_type e)) es"

lemma Processor_handle_all: "foldl Processor_handle out es = out @ printed es"
  by (induction es arbitrary: out) (simp_all add: Processor_handle_def)

lemma drain_log_returns:
  assumes "reader_complete R todo rank"
  shows "\<exists>r' es updates'. drain_log R r out updates = Some (r', out @ printed es, updates') \<and> todo r = es @ todo r' \<and>
    rank r' \<le> rank r \<and> rank (rd_wait R r') \<le> rank r - 1 \<and> (updates' \<longrightarrow> updates \<or> rank r' < rank r)"
proof (induction "rank r" arbitrary: r out updates rule: less_induct)
  case less
  note D = reader_completeD [OF assms]
  obtain any es r1 where d: "rd_dispatch R r = (any, es, r1)" by (metis prod_cases3)
  show ?case
  proof (cases any)
    case True
    then have lt: "rank r1 < rank r" using D(2) d by simp
    obtain r' fs updates' where r': "drain_log R r1 (out @ printed es) True = Some (r', (out @ printed es) @ printed fs, updates')"
        "todo r1 = fs @ todo r'" "rank r' \<le> rank r1" "rank (rd_wait R r') \<le> rank r1 - 1"
      using less [OF lt, of "out @ printed es" True] by blast
    then have "drain_log R r out updates = Some (r', out @ printed (es @ fs), updates')"
      using d True by (subst drain_log.simps) (simp add: Processor_handle_all)
    moreover have "todo r = (es @ fs) @ todo r'" using D(1) [OF d] r'(2) by simp
    ultimately show ?thesis using r'(3,4) lt
      by (intro exI [of _ r'] exI [of _ "es @ fs"] exI [of _ updates'] conjI) simp_all
  next
    case False
    then have "drain_log R r out updates = Some (r1, out @ printed es, updates)"
      using d by (subst drain_log.simps) (simp add: Processor_handle_all)
    then show ?thesis using D(1) [OF d] D(3) d False
      by (intro exI [of _ r1] exI [of _ es] exI [of _ updates] conjI) simp_all
  qed
qed

lemma event_log_loop_returns:
  assumes "reader_complete R todo rank"
  shows "\<exists>r' waits'. event_log_loop R r out waits = Some (r', out @ printed (todo r), waits') \<and> rd_finished R r' \<and>
    waits' \<le> waits + rank r"
proof (induction "rank r" arbitrary: r out waits rule: less_induct)
  case less
  note D = reader_completeD [OF assms]
  show ?case
  proof (cases "rd_finished R r")
    case True
    then have "event_log_loop R r out waits = Some (r, out @ printed (todo r), waits)"
      using D(4) by (subst event_log_loop.simps) simp
    then show ?thesis using True by (intro exI [of _ r] exI [of _ waits] conjI) simp_all
  next
    case False
    obtain r1 es updates where r1: "drain_log R r out False = Some (r1, out @ printed es, updates)" "todo r = es @ todo r1"
        "rank (rd_wait R r1) \<le> rank r - 1" "updates \<longrightarrow> rank r1 < rank r"
      using drain_log_returns [OF assms, of r out False] by blast
    define r2 where "r2 = (if updates then r1 else rd_wait R r1)"
    have lt: "rank r2 < rank r"
    proof (cases updates)
      case False
      have "rank r \<noteq> 0" using D(6) \<open>\<not> rd_finished R r\<close> by blast
      then show ?thesis using r1(3) False unfolding r2_def by simp
    qed (use r1(4) in \<open>simp add: r2_def\<close>)
    have loop: "event_log_loop R r out waits = event_log_loop R r2 (out @ printed es) (if updates then waits else waits + 1)"
      using False r1(1) by (subst event_log_loop.simps) (simp add: r2_def)
    have "todo r2 = todo r1" using D(5) by (simp add: r2_def)
    moreover obtain r' waits' where "event_log_loop R r out waits = Some (r', (out @ printed es) @ printed (todo r2), waits')"
        "rd_finished R r'" "waits' \<le> (if updates then waits else waits + 1) + rank r2"
      using less [OF lt, of "out @ printed es" "if updates then waits else waits + 1"] unfolding loop [symmetric] by blast
    ultimately show ?thesis using r1(2) lt
      by (intro exI [of _ r'] exI [of _ waits'] conjI) (simp_all split: if_splits)
  qed
qed

text \<open>The other way round, the loop only returns when the log is finished.\<close>

lemma event_log_loop_finished:
  assumes "event_log_loop R r out waits = Some y"
  shows "rd_finished R (fst y)"
proof (rule event_log_loop.raw_induct [OF _ assms, where P = "\<lambda>R r out waits y. rd_finished R (fst y)"])
  fix loop :: "('a, 'b log_event) reader_ops \<Rightarrow> 'a \<Rightarrow> 'b log_event list \<Rightarrow> nat \<Rightarrow> ('a \<times> 'b log_event list \<times> nat) option" and R r out waits y
  assume IH: "\<And>R r out waits y. loop R r out waits = Some y \<Longrightarrow> rd_finished R (fst y)"
    and step: "(if rd_finished R r then Some (r, out, waits)
      else Option.bind (drain_log R r out False) (\<lambda>(r', out', updates).
        if updates then loop R r' out' waits else loop R (rd_wait R r') out' (waits + 1))) = Some y"
  show "rd_finished R (fst y)"
    using step by (auto simp: bind_eq_Some_conv split: if_splits dest: IH)
qed

section \<open>Properties\<close>

text \<open>
  C39: The event log sample ends for a log that is finished at some time: the loop returns with a
  finished reader, it has printed every event of the log that is of one of the 41 types it has a
  handler for, in order and once, and it has waited no more often than the log needed. With a reader that never becomes finished (the log of a running
  program) it never returns.
\<close>

theorem Event_log_complete:
  "(reader_complete R todo rank \<longrightarrow>
      (\<exists>r' waits. event_log_dispatch R r = Some (r', printed (todo r), waits) \<and> rd_finished R r' \<and> waits \<le> rank r)) \<and>
   ((\<forall>t. \<not> rd_finished R t) \<longrightarrow> event_log_dispatch R r = None)"
proof (intro conjI impI)
  assume "reader_complete R todo rank"
  from event_log_loop_returns [OF this, of r "[]" 0]
  show "\<exists>r' waits. event_log_dispatch R r = Some (r', printed (todo r), waits) \<and> rd_finished R r' \<and> waits \<le> rank r"
    by (simp add: event_log_dispatch_def)
next
  assume "\<forall>t. \<not> rd_finished R t"
  then show "event_log_dispatch R r = None"
    using event_log_loop_finished [of R r "[]" 0] unfolding event_log_dispatch_def by (metis not_None_eq)
qed

text \<open>A log that is being written: the events that can be read, and the ones of every later
  ten seconds.\<close>

definition growing_log :: "(nat log_event list \<times> nat log_event list list, nat log_event) reader_ops" where
  "growing_log = \<lparr>
     rd_finished = (\<lambda>r. fst r = [] \<and> snd r = []),
     rd_dispatch = (\<lambda>r. case fst r of [] \<Rightarrow> (False, [], r) | e # es \<Rightarrow> (True, [e], (es, snd r))),
     rd_wait = (\<lambda>r. case snd r of [] \<Rightarrow> r | es # ess \<Rightarrow> (fst r @ es, ess))\<rparr>"

lemma growing_log_complete:
  "reader_complete growing_log (\<lambda>r. fst r @ concat (snd r)) (\<lambda>r. length (fst r @ concat (snd r)) + length (snd r))"
  by (auto simp: reader_complete_def growing_log_def split: list.splits)

definition demo_log_event :: "event_type \<Rightarrow> nat \<Rightarrow> nat log_event" where
  "demo_log_event k n = \<lparr>le_type = k, le_source = 0, le_source_name = ''gateway'', le_value = n\<rparr>"

theorem Event_log_complete_witness:
  "reader_complete growing_log (\<lambda>r. fst r @ concat (snd r)) (\<lambda>r. length (fst r @ concat (snd r)) + length (snd r)) \<and>
   (\<exists>r' waits. event_log_dispatch growing_log
      ([demo_log_event EV_TopOfBook 1, demo_log_event EV_Connected 2], [[demo_log_event EV_OrderAck 3], [], [demo_log_event EV_Control 4]]) =
        Some (r', [demo_log_event EV_TopOfBook 1, demo_log_event EV_OrderAck 3, demo_log_event EV_Control 4], waits)) \<and>
   event_log_dispatch (growing_log\<lparr>rd_finished := \<lambda>r. False\<rparr>) ([demo_log_event EV_TopOfBook 1], []) = None"
  using growing_log_complete Event_log_complete [of growing_log "\<lambda>r. fst r @ concat (snd r)"
      "\<lambda>r. length (fst r @ concat (snd r)) + length (snd r)"
      "([demo_log_event EV_TopOfBook 1, demo_log_event EV_Connected 2], [[demo_log_event EV_OrderAck 3], [], [demo_log_event EV_Control 4]])"]
    Event_log_complete [of "growing_log\<lparr>rd_finished := \<lambda>r. False\<rparr>" _ _ "([demo_log_event EV_TopOfBook 1], [])"]
  by (auto simp: demo_log_event_def)

section \<open>Books of different symbols\<close>

fun concerns :: "string \<Rightarrow> 'u event \<Rightarrow> bool" where
  "concerns x (info, MarketByPriceUpdate u) \<longleftrightarrow> bu_symbol u = x"
| "concerns x (info, _) \<longleftrightarrow> False"

lemma vwap_step_other:
  assumes "\<not> concerns x e"
  shows "map_of (fst (vwap_step V q s e)) x = map_of (fst s) x"
    "filter (\<lambda>l. vl_symbol l = x) (snd (vwap_step V q s e)) = filter (\<lambda>l. vl_symbol l = x) (snd s)"
  using assms by (induction x e rule: concerns.induct)
    (auto simp: vwap_on_MarketByPriceUpdate_def Let_def update_conv')

lemma vwap_step_same:
  assumes "concerns x e" "map_of (fst s) x = map_of (fst t) x"
  shows "map_of (fst (vwap_step V q s e)) x = map_of (fst (vwap_step V q t e)) x"
    "\<exists>l. vl_symbol l = x \<and> snd (vwap_step V q s e) = snd s @ [l] \<and> snd (vwap_step V q t e) = snd t @ [l]"
  using assms by (induction x e rule: concerns.induct)
    (auto simp: vwap_on_MarketByPriceUpdate_def get_market_by_price_def Let_def update_conv')

text \<open>
  The lines of a symbol are those of a log with the updates of that symbol only: the books of
  different symbols do not interfere. A book is found by its symbol alone: two exchanges that
  have the same symbol share one.
\<close>

lemma vwap_per_symbol:
  assumes "map_of (fst s) x = map_of (fst t) x" "filter (\<lambda>l. vl_symbol l = x) (snd s) = snd t"
  shows "filter (\<lambda>l. vl_symbol l = x) (snd (foldl (vwap_step V q) s es)) =
    snd (foldl (vwap_step V q) t (filter (concerns x) es))"
  using assms
proof (induction es arbitrary: s t)
  case (Cons e es)
  show ?case
  proof (cases "concerns x e")
    case True
    note same = vwap_step_same [OF True Cons.prems(1), of V q]
    have "filter (\<lambda>l. vl_symbol l = x) (snd (vwap_step V q s e)) = snd (vwap_step V q t e)"
      using same(2) Cons.prems(2) by auto
    from Cons.IH [OF same(1) this] show ?thesis using True by simp
  next
    case False
    note other = vwap_step_other [OF False, of V q s]
    from Cons.IH [of "vwap_step V q s e" t] other Cons.prems show ?thesis using False by simp
  qed
qed simp

lemma vwap_exchange_ignored:
  assumes "map_of books (bu_symbol u) = Some b"
  shows "get_market_by_price V books (u\<lparr>bu_exchange := exchange\<rparr>) = b"
  using assms by (simp add: get_market_by_price_def)

end
