(* ===== verification/Web_Session.thy ===== *)
theory Web_Session
  imports Roq_API
begin

text \<open>
  The web sessions of the io-context sample (\<open>io-context/session.*\<close>, of which
  \<open>rest/session.*\<close> is a copy): a request or a websocket message is a JSON object that
  subscribes or unsubscribes a symbol. The JSON library is a parameter, and so are the size of
  a \<open>std::string\<close> object and whether a reply could be handed to the server.
  Shown: every message gets exactly one answer, and what it does to the subscriptions.
\<close>

section \<open>Parameters and data\<close>

text \<open>\<open>None\<close> stands for the exception the library throws.\<close>

record 'j json_ops =
  json_parse :: "string \<Rightarrow> 'j option"
  json_value :: "'j \<Rightarrow> string \<Rightarrow> string \<Rightarrow> string option"

record web_shared =
  sessions_to_remove :: "u64 set"
  symbols :: "string set"

record http_request =
  hr_upgrade :: bool
  hr_keep_alive :: bool
  hr_body :: string

datatype http_connection = KEEP_ALIVE | CLOSE

datatype server_action = Upgrade | Response http_connection string | Send_text string | Close_connection

datatype session_event = S_Disconnected | S_Request http_request | S_Text string | S_Binary

section \<open>The session\<close>

definition quoted :: "string \<Rightarrow> string" where
  "quoted s = CHR 0x27 # s @ [CHR 0x27]"

definition Session_success :: string where
  "Session_success = ''{\"status\":\"successs\"}''"

definition Session_error :: "string \<Rightarrow> string" where
  "Session_error msg = ''{\"status\":\"error\",\"text\":\"'' @ msg @ ''\"}''"

definition validate_symbol :: "nat \<Rightarrow> string \<Rightarrow> bool" where
  "validate_symbol sizeof_string symbol =
     (if symbol = [] then False else if length symbol > sizeof_string then False else True)"

definition process_request :: "'j json_ops \<Rightarrow> nat \<Rightarrow> string \<Rightarrow> web_shared \<Rightarrow> (string \<times> web_shared) option" where
  "process_request J sizeof_string message sh =
     (case json_parse J message of
        None \<Rightarrow> None
      | Some json \<Rightarrow>
          (case json_value J json ''action'' [] of
             None \<Rightarrow> None
           | Some act \<Rightarrow>
               (case json_value J json ''symbol'' [] of
                  None \<Rightarrow> None
                | Some symbol \<Rightarrow>
                    (if act = [] then Some (Session_error (''missing '' @ quoted ''action''), sh)
                     else if act = ''subscribe'' then
                       (if validate_symbol sizeof_string symbol
                        then Some (Session_success, sh\<lparr>symbols := insert symbol (symbols sh)\<rparr>)
                        else Some (Session_error ''invalid symbol'', sh))
                     else if act = ''unsubscribe'' then
                       (if validate_symbol sizeof_string symbol
                        then Some (Session_success, sh\<lparr>symbols := symbols sh - {symbol}\<rparr>)
                        else Some (Session_error ''invalid symbol'', sh))
                     else Some (Session_error (''unknown '' @ quoted ''action''), sh)))))"

text \<open>
  A handler: the calls it makes on the server, and the shared state it leaves. \<open>sent\<close> says
  whether handing the reply to the server succeeds; otherwise it throws, like the parser, and
  the connection is closed.
\<close>

definition Session_reply ::
  "'j json_ops \<Rightarrow> nat \<Rightarrow> bool \<Rightarrow> (string \<Rightarrow> server_action) \<Rightarrow> string \<Rightarrow> web_shared \<Rightarrow> server_action list \<times> web_shared" where
  "Session_reply J sizeof_string sent wrap message sh =
     (case process_request J sizeof_string message sh of
        None \<Rightarrow> ([Close_connection], sh)
      | Some (result, sh) \<Rightarrow> (if sent then [wrap result] else [Close_connection], sh))"

fun Session_handle ::
  "'j json_ops \<Rightarrow> nat \<Rightarrow> u64 \<Rightarrow> bool \<Rightarrow> session_event \<Rightarrow> web_shared \<Rightarrow> server_action list \<times> web_shared" where
  "Session_handle J sizeof_string session_id sent S_Disconnected sh =
     ([], sh\<lparr>sessions_to_remove := insert session_id (sessions_to_remove sh)\<rparr>)"
| "Session_handle J sizeof_string session_id sent (S_Request r) sh =
     (if hr_upgrade r then ([Upgrade], sh)
      else Session_reply J sizeof_string sent
        (Response (if hr_keep_alive r then KEEP_ALIVE else CLOSE)) (hr_body r) sh)"
| "Session_handle J sizeof_string session_id sent (S_Text payload) sh =
     Session_reply J sizeof_string sent Send_text payload sh"
| "Session_handle J sizeof_string session_id sent S_Binary sh = ([Close_connection], sh)"

section \<open>What a message asks for\<close>

text \<open>The text a session is asked to process, and the subscription or cancellation it contains.\<close>

fun message_text :: "session_event \<Rightarrow> string option" where
  "message_text (S_Request r) = (if hr_upgrade r then None else Some (hr_body r))"
| "message_text (S_Text payload) = Some payload"
| "message_text _ = None"

definition requested :: "'j json_ops \<Rightarrow> nat \<Rightarrow> session_event \<Rightarrow> string \<Rightarrow> string \<Rightarrow> bool" where
  "requested J sizeof_string ev act symbol \<longleftrightarrow>
     (\<exists>msg json. message_text ev = Some msg \<and> json_parse J msg = Some json \<and>
        json_value J json ''action'' [] = Some act \<and> json_value J json ''symbol'' [] = Some symbol) \<and>
     symbol \<noteq> [] \<and> length symbol \<le> sizeof_string"

definition asks_for :: "'j json_ops \<Rightarrow> nat \<Rightarrow> session_event \<Rightarrow> string \<Rightarrow> bool" where
  "asks_for J sizeof_string ev symbol = requested J sizeof_string ev ''subscribe'' symbol"

definition drops :: "'j json_ops \<Rightarrow> nat \<Rightarrow> session_event \<Rightarrow> string \<Rightarrow> bool" where
  "drops J sizeof_string ev symbol = requested J sizeof_string ev ''unsubscribe'' symbol"

lemma process_request_symbols:
  assumes "process_request J n msg sh = Some (result, sh')" "message_text ev = Some msg"
  shows "symbols sh' = (symbols sh \<union> {s. asks_for J n ev s}) - {s. drops J n ev s}"
    and "sessions_to_remove sh' = sessions_to_remove sh"
    and "(result = Session_success) = (\<exists>s. asks_for J n ev s \<or> drops J n ev s)"
  using assms
  by (auto simp: process_request_def asks_for_def drops_def requested_def validate_symbol_def
      Session_success_def Session_error_def split: option.splits if_splits)

lemma process_request_throws:
  assumes "process_request J n msg sh = None" "message_text ev = Some msg"
  shows "\<not> asks_for J n ev s" "\<not> drops J n ev s"
  using assms
  by (auto simp: process_request_def asks_for_def drops_def requested_def split: option.splits if_splits)

lemma no_message:
  assumes "message_text ev = None"
  shows "asks_for J n ev s = False" "drops J n ev s = False"
  using assms
  by (simp_all add: asks_for_def drops_def requested_def)

lemma Session_handle_symbols:
  assumes "Session_handle J n i sent ev sh = (as, sh')"
  shows "symbols sh' = (symbols sh \<union> {s. asks_for J n ev s}) - {s. drops J n ev s}"
proof (cases "message_text ev")
  case None
  then have "symbols sh' = symbols sh" using assms by (cases ev) (auto split: if_splits)
  then show ?thesis by (simp add: no_message [OF None])
next
  case (Some msg)
  then obtain wrap where reply: "Session_reply J n sent wrap msg sh = (as, sh')"
    using assms by (cases ev) (auto split: if_splits)
  show ?thesis
  proof (cases "process_request J n msg sh")
    case None
    then show ?thesis using reply process_request_throws [OF None Some] by (simp add: Session_reply_def)
  next
    case [simp]: (Some r)
    then show ?thesis
      using reply process_request_symbols(1) [of J n msg sh "fst r" "snd r" ev] \<open>message_text ev = Some msg\<close>
      by (cases r) (simp add: Session_reply_def)
  qed
qed

lemma Session_handle_removals:
  assumes "Session_handle J n i sent ev sh = (as, sh')"
  shows "sessions_to_remove sh' = (if ev = S_Disconnected then insert i (sessions_to_remove sh) else sessions_to_remove sh)"
  using assms
  by (cases ev) (auto simp: Session_reply_def process_request_def split: if_splits option.splits)

section \<open>Properties\<close>

text \<open>
  C33: Every message is answered exactly once. A request that is not an upgrade and a websocket
  text are answered by one reply, or by closing the connection; the reply says success exactly
  when the message was a valid subscription or cancellation, and then the set of symbols is
  changed as it asks; binary data closes the connection. A reply that cannot be handed over
  closes the connection too, but the subscription stays.
\<close>

theorem Session_answers_once:
  assumes "Session_handle J n i sent ev sh = (as, sh')" "ev \<noteq> S_Disconnected"
  shows "\<exists>a. as = [a] \<and> sessions_to_remove sh' = sessions_to_remove sh \<and>
    symbols sh' = (symbols sh \<union> {s. asks_for J n ev s}) - {s. drops J n ev s} \<and>
    ((\<exists>c. a = Response c Session_success \<or> a = Send_text Session_success) \<longleftrightarrow>
      sent \<and> (\<exists>s. asks_for J n ev s \<or> drops J n ev s))"
proof (cases "message_text ev")
  case None
  then have "\<exists>a. as = [a] \<and> sessions_to_remove sh' = sessions_to_remove sh \<and> (a = Upgrade \<or> a = Close_connection)"
    using assms by (cases ev) (auto split: if_splits)
  then show ?thesis using Session_handle_symbols [OF assms(1)] by (auto simp: no_message [OF None])
next
  case (Some msg)
  then obtain wrap where reply: "Session_reply J n sent wrap msg sh = (as, sh')"
      and wrap: "wrap = Send_text \<or> (\<exists>c. wrap = Response c)"
    using assms by (cases ev) (auto split: if_splits)
  show ?thesis
  proof (cases "process_request J n msg sh")
    case None
    then show ?thesis
      using reply process_request_throws [OF None Some] Session_handle_symbols [OF assms(1)]
      by (auto simp: Session_reply_def)
  next
    case (Some r)
    then have pr: "process_request J n msg sh = Some (fst r, sh')" and as: "as = (if sent then [wrap (fst r)] else [Close_connection])"
      using reply by (auto simp: Session_reply_def split: prod.splits)
    show ?thesis
      using process_request_symbols [OF pr \<open>message_text ev = Some msg\<close>] as wrap by auto
  qed
qed

text \<open>A parser for the concrete runs: the first character is the action, the rest the symbol.\<close>

definition toy_json :: "string json_ops" where
  "toy_json = \<lparr>json_parse = (\<lambda>s. if s = [] then None else Some s),
     json_value = (\<lambda>s key d. if key = ''action'' then
       Some (if hd s = CHR ''+'' then ''subscribe'' else if hd s = CHR ''-'' then ''unsubscribe'' else []) else Some (tl s))\<rparr>"

theorem Session_answers_once_witness:
  "\<exists>a. [Send_text Session_success] = [a] \<and>
    sessions_to_remove \<lparr>sessions_to_remove = {}, symbols = {''BTC''}\<rparr> =
      sessions_to_remove \<lparr>sessions_to_remove = {}, symbols = {}\<rparr> \<and>
    symbols \<lparr>sessions_to_remove = {}, symbols = {''BTC''}\<rparr> =
      (symbols \<lparr>sessions_to_remove = {}, symbols = {}\<rparr> \<union> {s. asks_for toy_json 32 (S_Text ''+BTC'') s}) -
      {s. drops toy_json 32 (S_Text ''+BTC'') s} \<and>
    ((\<exists>c. a = Response c Session_success \<or> a = Send_text Session_success) \<longleftrightarrow>
      True \<and> (\<exists>s. asks_for toy_json 32 (S_Text ''+BTC'') s \<or> drops toy_json 32 (S_Text ''+BTC'') s))"
  by (rule Session_answers_once [where i = 1])
    (simp_all add: Session_reply_def process_request_def toy_json_def validate_symbol_def)

end
