(* ===== verification/Rest_Session.thy ===== *)
theory Rest_Session
  imports Web_Session
begin

text \<open>
  The sessions of the rest sample (\<open>rest/session.*\<close>), translated on their own. The file is a copy of
  the one of the io-context sample in another namespace: the lemmas say that the two behave alike, so
  that what is shown of a session of io-context holds here. No class of the rest sample
  creates a session: its controller includes the header, and is a client only.
\<close>

definition Rest_success :: string where
  "Rest_success = ''{\"status\":\"successs\"}''"

definition Rest_error :: "string \<Rightarrow> string" where
  "Rest_error msg = ''{\"status\":\"error\",\"text\":\"'' @ msg @ ''\"}''"

definition Rest_validate_symbol :: "nat \<Rightarrow> string \<Rightarrow> bool" where
  "Rest_validate_symbol sizeof_string symbol =
     (if symbol = [] then False else if length symbol > sizeof_string then False else True)"

definition Rest_process_request :: "'j json_ops \<Rightarrow> nat \<Rightarrow> string \<Rightarrow> web_shared \<Rightarrow> (string \<times> web_shared) option" where
  "Rest_process_request J sizeof_string message sh =
     Option.bind (json_parse J message) (\<lambda>json.
     Option.bind (json_value J json ''action'' []) (\<lambda>act.
     Option.bind (json_value J json ''symbol'' []) (\<lambda>symbol.
     if act = [] then Some (Rest_error (''missing '' @ quoted ''action''), sh)
     else if act = ''subscribe'' then
       if Rest_validate_symbol sizeof_string symbol then Some (Rest_success, sh\<lparr>symbols := insert symbol (symbols sh)\<rparr>)
       else Some (Rest_error ''invalid symbol'', sh)
     else if act = ''unsubscribe'' then
       if Rest_validate_symbol sizeof_string symbol then Some (Rest_success, sh\<lparr>symbols := symbols sh - {symbol}\<rparr>)
       else Some (Rest_error ''invalid symbol'', sh)
     else Some (Rest_error (''unknown '' @ quoted ''action''), sh))))"

text \<open>The \<open>try\<close> blocks: the reply, or the connection is closed.\<close>

definition Rest_reply :: "bool \<Rightarrow> (string \<Rightarrow> server_action) \<Rightarrow> (string \<times> web_shared) option \<Rightarrow> web_shared \<Rightarrow> server_action list \<times> web_shared" where
  "Rest_reply sent wrap result sh =
     (case result of
        None \<Rightarrow> ([Close_connection], sh)
      | Some (text, sh') \<Rightarrow> ([if sent then wrap text else Close_connection], sh'))"

fun Rest_Session_handle ::
  "'j json_ops \<Rightarrow> nat \<Rightarrow> u64 \<Rightarrow> bool \<Rightarrow> session_event \<Rightarrow> web_shared \<Rightarrow> server_action list \<times> web_shared" where
  "Rest_Session_handle J sizeof_string session_id sent S_Disconnected sh =
     ([], sh\<lparr>sessions_to_remove := insert session_id (sessions_to_remove sh)\<rparr>)"
| "Rest_Session_handle J sizeof_string session_id sent (S_Request r) sh =
     (if hr_upgrade r then ([Upgrade], sh)
      else Rest_reply sent (Response (if hr_keep_alive r then KEEP_ALIVE else CLOSE))
        (Rest_process_request J sizeof_string (hr_body r) sh) sh)"
| "Rest_Session_handle J sizeof_string session_id sent (S_Text payload) sh =
     Rest_reply sent Send_text (Rest_process_request J sizeof_string payload sh) sh"
| "Rest_Session_handle J sizeof_string session_id sent S_Binary sh = ([Close_connection], sh)"

lemma Rest_validate_symbol_eq: "Rest_validate_symbol n s = validate_symbol n s"
  by (simp add: Rest_validate_symbol_def validate_symbol_def)

lemma Rest_process_request_eq: "Rest_process_request J n msg sh = process_request J n msg sh"
  by (auto simp: Rest_process_request_def process_request_def Rest_validate_symbol_eq Rest_success_def Rest_error_def
      Session_success_def Session_error_def split: option.split)

lemma Rest_reply_eq: "Rest_reply sent wrap (process_request J n msg sh) sh = Session_reply J n sent wrap msg sh"
  by (simp add: Rest_reply_def Session_reply_def split: option.split)

text \<open>The two copies of the session are equivalent: the same calls on the server, the same subscriptions.\<close>

theorem Rest_Session_equivalent: "Rest_Session_handle J n session_id sent ev sh = Session_handle J n session_id sent ev sh"
  by (cases ev) (simp_all add: Rest_process_request_eq Rest_reply_eq)

end
