(* ===== verification/Algo_Framework.thy ===== *)
theory Algo_Framework
  imports Roq_API
begin

text \<open>
  The framework of the algo library (\<open>algo/framework\<close>) and the configuration of the prototype
  that uses it (\<open>algo-proto/config.*\<close>). The gateway and market caches of roq-cache are
  parameters (\<open>algo_cache\<close>), and so is the \<open>SOURCE_SELF\<close> constant of roq-api. The interface a
  strategy is given (the dispatcher, and the markets and gateways its state refers to) is the
  record \<open>algo_context\<close> over a world \<open>'w\<close>; the locale \<open>order_dispatcher\<close> is its contract.
  A TOML document is a tree; parsing its text is left to the library the program uses.
\<close>

section \<open>Caches and markets\<close>

record ('g, 'm, 'u) algo_cache =
  gw_apply :: "'g \<Rightarrow> message_info \<Rightarrow> 'u message \<Rightarrow> bool \<times> 'g"
  gw_ready :: "'g \<Rightarrow> support_type set \<Rightarrow> bool"
  gw_ready_account :: "'g \<Rightarrow> support_type set \<Rightarrow> string \<Rightarrow> bool"
  gw_supports :: "'g \<Rightarrow> support_type \<Rightarrow> bool"
  mkt_new :: "u32 \<Rightarrow> string \<Rightarrow> string \<Rightarrow> 'm"
  mkt_apply :: "'m \<Rightarrow> message_info \<Rightarrow> 'u message \<Rightarrow> bool \<times> 'm"
  mkt_tick_size :: "'m \<Rightarrow> double"
  mkt_trading_status :: "'m \<Rightarrow> trading_status"
  mkt_extract :: "'m \<Rightarrow> layer option"
  source_self :: u8

record algo_instrument =
  ai_exchange :: string
  ai_symbol :: string
  ai_weight :: double

record 'm algo_market =
  am_market :: 'm
  am_source :: u8

definition algo_market_new ::
  "('g, 'm, 'u) algo_cache \<Rightarrow> u32 \<Rightarrow> string \<Rightarrow> string \<Rightarrow> 'm algo_market" where
  "algo_market_new C market_id exchange symbol =
     \<lparr>am_market = mkt_new C market_id exchange symbol, am_source = source_self C\<rparr>"

definition algo_market_apply ::
  "('g, 'm, 'u) algo_cache \<Rightarrow> 'm algo_market \<Rightarrow> message_info \<Rightarrow> 'u message \<Rightarrow> bool \<times> 'm algo_market" where
  "algo_market_apply C a info msg =
     (let a1 = (if am_source a = source_self C then a\<lparr>am_source := source info\<rparr> else a);
          (changed, m) = mkt_apply C (am_market a1) info msg
      in (changed, a1\<lparr>am_market := m\<rparr>))"

definition REQUIRED_MARKET_DATA :: "support_type set" where
  "REQUIRED_MARKET_DATA = {REFERENCE_DATA, MARKET_STATUS, MARKET_BY_PRICE}"

definition REQUIRED_ORDER_MANAGEMENT :: "support_type set" where
  "REQUIRED_ORDER_MANAGEMENT = {CREATE_ORDER_support, CANCEL_ORDER_support}"

definition algo_instrument_ready ::
  "'z utils_scheme \<Rightarrow> ('g, 'm, 'u) algo_cache \<Rightarrow> 'g \<Rightarrow> 'm \<Rightarrow> string \<Rightarrow> bool" where
  "algo_instrument_ready U C gateway market account =
     (if \<not> gw_ready C gateway REQUIRED_MARKET_DATA then False
      else if is_zero U (mkt_tick_size C market) then False
      else if mkt_trading_status C market \<noteq> OPEN then False
      else if \<not> gw_ready_account C gateway REQUIRED_ORDER_MANAGEMENT account then False
      else True)"

section \<open>What a strategy is given\<close>

record ('w, 'g, 'm) algo_context =
  ctx_market :: "'w \<Rightarrow> string \<Rightarrow> string \<Rightarrow> 'm algo_market option"
  ctx_gateway :: "'w \<Rightarrow> u8 \<Rightarrow> 'g option"
  ctx_next_order_id :: "'w \<Rightarrow> u64"
  ctx_create :: "create_order \<Rightarrow> 'w \<Rightarrow> 'w result"
  ctx_modify :: "modify_order \<Rightarrow> 'w \<Rightarrow> 'w result"
  ctx_cancel :: "cancel_order \<Rightarrow> 'w \<Rightarrow> 'w result"

type_synonym algo_state = "algo_instrument list"

definition state_market ::
  "('w, 'g, 'm) algo_context \<Rightarrow> algo_state \<Rightarrow> 'w \<Rightarrow> nat \<Rightarrow> 'm algo_market result" where
  "state_market X st w index =
     (if index < length st then
        (case ctx_market X w (ai_exchange (st ! index)) (ai_symbol (st ! index)) of
           None \<Rightarrow> Inl Undefined_Behaviour | Some a \<Rightarrow> Inr a)
      else Inl Undefined_Behaviour)"

text \<open>\<open>State::ready\<close>: the flag it returns and the value it leaves in its reference argument.\<close>

definition state_ready ::
  "'z utils_scheme \<Rightarrow> ('g, 'm, 'u) algo_cache \<Rightarrow> ('w, 'g, 'm) algo_context \<Rightarrow> algo_state \<Rightarrow> 'w \<Rightarrow> bool \<Rightarrow> nat \<Rightarrow>
     u8 \<Rightarrow> string \<Rightarrow> (bool \<times> bool) result" where
  "state_ready U C X st w result index src account =
     bind_result (state_market X st w index) (\<lambda>a.
     if am_source a \<noteq> src then Inr (False, result)
     else case ctx_gateway X w src of
         None \<Rightarrow> Inl Undefined_Behaviour
       | Some g \<Rightarrow> Inr (update_bool U result (algo_instrument_ready U C g (am_market a) account)))"

definition state_supports ::
  "('g, 'm, 'u) algo_cache \<Rightarrow> ('w, 'g, 'm) algo_context \<Rightarrow> algo_state \<Rightarrow> 'w \<Rightarrow> nat \<Rightarrow> support_type \<Rightarrow> bool result" where
  "state_supports C X st w index type =
     bind_result (state_market X st w index) (\<lambda>a.
     if am_source a = source_self C then Inr False
     else case ctx_gateway X w (am_source a) of
         None \<Rightarrow> Inl Undefined_Behaviour | Some g \<Rightarrow> Inr (gw_supports C g type))"

section \<open>Contract of the dispatcher\<close>

text \<open>
  \<open>known w i\<close>: the dispatcher can route a request for the order \<open>i\<close>. The contract: an order
  becomes known by creating it and stays known; a request for a known order is not refused
  with \<open>log::fatal\<close>; the id offered next is above every id used so far, unless the counter
  wraps around.
\<close>

locale order_dispatcher =
  fixes X :: "('w, 'g, 'm) algo_context"
    and known :: "'w \<Rightarrow> u64 \<Rightarrow> bool"
    and ok :: "'w \<Rightarrow> bool"
  assumes create_known: "ctx_create X c w = Inr w' \<Longrightarrow> known w' (co_order_id c)"
    and create_keeps: "ctx_create X c w = Inr w' \<Longrightarrow> known w i \<Longrightarrow> known w' i"
    and modify_keeps: "ctx_modify X m w = Inr w' \<Longrightarrow> known w' i = known w i"
    and create_ok: "ok w \<Longrightarrow> ctx_create X c w = Inr w' \<Longrightarrow> ok w'"
    and modify_ok: "ok w \<Longrightarrow> ctx_modify X m w = Inr w' \<Longrightarrow> ok w'"
    and modify_accepted: "known w (mo_order_id m) \<Longrightarrow> ctx_modify X m w \<noteq> Inl Fatal"
    and next_unused: "ok w \<Longrightarrow> ctx_next_order_id X w \<noteq> 0 \<Longrightarrow> \<not> known w (ctx_next_order_id X w)"
begin

lemma create_then_modify:
  "ctx_create X c w = Inr w' \<Longrightarrow> mo_order_id m = co_order_id c \<Longrightarrow> ctx_modify X m w' \<noteq> Inl Fatal"
  using create_known modify_accepted by metis

end

section \<open>Configuration\<close>

datatype toml = T_string string | T_float double | T_array "toml list" | T_table "(string \<times> toml) list"

record algo_config =
  ac_type :: string
  ac_instruments :: "algo_instrument list"

definition toml_string :: "toml \<Rightarrow> string result" where
  "toml_string t = (case t of T_string s \<Rightarrow> Inr s | _ \<Rightarrow> Inl Undefined_Behaviour)"

definition toml_float :: "toml \<Rightarrow> double result" where
  "toml_float t = (case t of T_float x \<Rightarrow> Inr x | _ \<Rightarrow> Inl Undefined_Behaviour)"

definition toml_table :: "toml \<Rightarrow> (string \<times> toml) list result" where
  "toml_table t = (case t of T_table kvs \<Rightarrow> Inr kvs | _ \<Rightarrow> Inl Undefined_Behaviour)"

definition toml_array :: "toml \<Rightarrow> toml list result" where
  "toml_array t = (case t of T_array ts \<Rightarrow> Inr ts | _ \<Rightarrow> Inl Undefined_Behaviour)"

primrec parse_instrument_keys :: "(string \<times> toml) list \<Rightarrow> algo_instrument \<Rightarrow> algo_instrument result" where
  "parse_instrument_keys [] i = Inr i"
| "parse_instrument_keys (kv # kvs) i =
     bind_result
       (if fst kv = ''exchange'' then bind_result (toml_string (snd kv)) (\<lambda>s. Inr (i\<lparr>ai_exchange := s\<rparr>))
        else if fst kv = ''symbol'' then bind_result (toml_string (snd kv)) (\<lambda>s. Inr (i\<lparr>ai_symbol := s\<rparr>))
        else if fst kv = ''weight'' then bind_result (toml_float (snd kv)) (\<lambda>x. Inr (i\<lparr>ai_weight := x\<rparr>))
        else Inl Fatal)
       (parse_instrument_keys kvs)"

definition parse_instrument :: "toml \<Rightarrow> algo_instrument result" where
  "parse_instrument node =
     bind_result (toml_table node) (\<lambda>kvs.
     bind_result (parse_instrument_keys kvs \<lparr>ai_exchange = [], ai_symbol = [], ai_weight = NaN\<rparr>) (\<lambda>i.
     if ai_exchange i = [] \<or> ai_symbol i = [] then Inl Fatal else Inr i))"

primrec collect :: "('a \<Rightarrow> 'b result) \<Rightarrow> 'a list \<Rightarrow> 'b list result" where
  "collect f [] = Inr []"
| "collect f (x # xs) = bind_result (f x) (\<lambda>y. bind_result (collect f xs) (\<lambda>ys. Inr (y # ys)))"

definition parse_instruments :: "toml \<Rightarrow> algo_instrument list result" where
  "parse_instruments node = bind_result (toml_array node) (collect parse_instrument)"

primrec parse_strategy_keys :: "(string \<times> toml) list \<Rightarrow> algo_config \<Rightarrow> algo_config result" where
  "parse_strategy_keys [] s = Inr s"
| "parse_strategy_keys (kv # kvs) s =
     bind_result
       (if fst kv = ''type'' then bind_result (toml_string (snd kv)) (\<lambda>t. Inr (s\<lparr>ac_type := t\<rparr>))
        else if fst kv = ''instruments'' then bind_result (parse_instruments (snd kv)) (\<lambda>is. Inr (s\<lparr>ac_instruments := is\<rparr>))
        else Inl Fatal)
       (parse_strategy_keys kvs)"

definition parse_strategy :: "toml \<Rightarrow> algo_config result" where
  "parse_strategy node =
     bind_result (toml_table node) (\<lambda>kvs.
     bind_result (parse_strategy_keys kvs \<lparr>ac_type = [], ac_instruments = []\<rparr>) (\<lambda>s.
     if ac_type s = [] \<or> ac_instruments s = [] then Inl Fatal else Inr s))"

record proto_config =
  pc_account :: string
  pc_strategies :: "(string \<times> algo_config) list"
  pc_exchange_symbols :: "(string \<times> string list) list"

text \<open>\<open>exchange_symbols[exchange].emplace(symbol)\<close>.\<close>

primrec add_symbol :: "string \<Rightarrow> string \<Rightarrow> (string \<times> string list) list \<Rightarrow> (string \<times> string list) list" where
  "add_symbol exchange symbol [] = [(exchange, [symbol])]"
| "add_symbol exchange symbol (e # es) =
     (if fst e = exchange then (exchange, List.insert symbol (snd e)) # es else e # add_symbol exchange symbol es)"

definition extract_symbols :: "(string \<times> algo_config) list \<Rightarrow> (string \<times> string list) list" where
  "extract_symbols strategies =
     fold (\<lambda>i. add_symbol (ai_exchange i) (ai_symbol i)) (concat (map (ac_instruments \<circ> snd) strategies)) []"

text \<open>\<open>find\<close>: the node under a key, nothing when there is none or the node is not a table.\<close>

definition toml_find :: "toml \<Rightarrow> string \<Rightarrow> toml option" where
  "toml_find node key = (case node of T_table kvs \<Rightarrow> map_of kvs key | _ \<Rightarrow> None)"

definition Config_new :: "string \<Rightarrow> toml \<Rightarrow> proto_config result" where
  "Config_new account doc =
     (case toml_find doc ''strategies'' of
        None \<Rightarrow> Inl Fatal
      | Some node \<Rightarrow>
          bind_result (toml_table node) (\<lambda>ss.
          bind_result (collect (\<lambda>(key, value). bind_result (parse_strategy value) (\<lambda>s. Inr (key, s))) ss) (\<lambda>strategies.
          Inr \<lparr>pc_account = account, pc_strategies = strategies,
               pc_exchange_symbols = extract_symbols strategies\<rparr>)))"

section \<open>Lemmas on the configuration\<close>

definition has_symbol :: "(string \<times> string list) list \<Rightarrow> string \<Rightarrow> string \<Rightarrow> bool" where
  "has_symbol es exchange symbol \<longleftrightarrow> (\<exists>ss. map_of es exchange = Some ss \<and> symbol \<in> set ss)"

lemma add_symbol_map_of:
  "map_of (add_symbol e s es) e' =
     (if e' = e then Some (case map_of es e of None \<Rightarrow> [s] | Some ss \<Rightarrow> List.insert s ss) else map_of es e')"
  by (induction es) (auto split: option.splits)

lemma add_symbol_has:
  "has_symbol (add_symbol e s es) e' s' \<longleftrightarrow> e' = e \<and> s' = s \<or> has_symbol es e' s'"
  by (auto simp: has_symbol_def add_symbol_map_of split: option.splits)

lemma fold_add_symbol_has:
  "has_symbol (fold (\<lambda>i. add_symbol (ai_exchange i) (ai_symbol i)) is es) e s \<longleftrightarrow>
     (\<exists>i \<in> set is. ai_exchange i = e \<and> ai_symbol i = s) \<or> has_symbol es e s"
  by (induction "is" arbitrary: es) (auto simp: add_symbol_has)

lemma extract_symbols_has:
  "(key, s) \<in> set strategies \<Longrightarrow> i \<in> set (ac_instruments s) \<Longrightarrow>
     has_symbol (extract_symbols strategies) (ai_exchange i) (ai_symbol i)"
  by (force simp: extract_symbols_def fold_add_symbol_has)

lemma collect_Inr:
  "collect f xs = Inr ys \<longleftrightarrow> list_all2 (\<lambda>x y. f x = Inr y) xs ys"
  by (induction xs arbitrary: ys) (auto simp: bind_result_eq_Inr list_all2_Cons1)

end
