(* ===== verification/Algo_Strategies.thy ===== *)
theory Algo_Strategies
  imports Algo_Framework
begin

text \<open>
  The strategies of the algo library (\<open>algo/strategies\<close>): an order manager per instrument, the
  base that aggregates the readiness of the instruments and routes order events, the spread
  strategy and the factory. They act on a world \<open>'w\<close> through an \<open>algo_context\<close>.
  Shown: what readiness means, when and at what price the spread sends orders, that it creates
  at most one order in its life and why its requests are never refused as unknown.
\<close>

section \<open>State\<close>

record OrderManager =
  om_index :: nat
  om_side :: side
  om_target_quantity :: double
  om_target_price :: double
  om_order_id :: u64

record Spread =
  sp_routing_id :: string
  sp_account :: string
  sp_state :: algo_state
  sp_order_managers :: "OrderManager list"
  sp_order_index :: "u64 \<rightharpoonup> nat"
  sp_ready_by_instrument :: "bool list"
  sp_ready :: bool
  sp_side :: side
  sp_quantity :: double
  sp_price :: double

definition OrderManager_new :: "nat \<Rightarrow> side \<Rightarrow> OrderManager" where
  "OrderManager_new index sd =
     \<lparr>om_index = index, om_side = sd, om_target_quantity = NaN, om_target_price = NaN, om_order_id = 0\<rparr>"

primrec create_order_managers :: "'z utils_scheme \<Rightarrow> side \<Rightarrow> nat \<Rightarrow> algo_state \<Rightarrow> OrderManager list result" where
  "create_order_managers U sd index [] = Inr []"
| "create_order_managers U sd index (i # is) =
     (case compare U (ai_weight i) (Fin 0) of
        Equal \<Rightarrow> Inl Fatal
      | Greater \<Rightarrow> bind_result (create_order_managers U sd (index + 1) is) (\<lambda>r. Inr (OrderManager_new index sd # r))
      | Less \<Rightarrow> bind_result (create_order_managers U sd (index + 1) is) (\<lambda>r. Inr (OrderManager_new index (invert U sd) # r)))"

definition Spread_new ::
  "bool \<Rightarrow> 'z utils_scheme \<Rightarrow> algo_state \<Rightarrow> string \<Rightarrow> create_order \<Rightarrow> Spread result" where
  "Spread_new dbg U st routing_id c =
     bind_result (create_order_managers U (co_side c) 0 st) (\<lambda>oms.
     assert_then dbg (co_routing_id c = [])
     (Inr \<lparr>sp_routing_id = routing_id, sp_account = co_account c, sp_state = st, sp_order_managers = oms,
           sp_order_index = Map.empty, sp_ready_by_instrument = replicate (length st) False, sp_ready = False,
           sp_side = co_side c, sp_quantity = co_quantity c, sp_price = co_price c\<rparr>))"

definition Factory_create ::
  "bool \<Rightarrow> 'z utils_scheme \<Rightarrow> string \<Rightarrow> algo_state \<Rightarrow> string \<Rightarrow> create_order \<Rightarrow> Spread result" where
  "Factory_create dbg U type st routing_id c =
     (if type = ''spread'' then Spread_new dbg U st routing_id c else Inl (Raised RuntimeError))"

section \<open>Order manager\<close>

definition OrderManager_create :: "Spread \<Rightarrow> OrderManager \<Rightarrow> algo_instrument \<Rightarrow> u64 \<Rightarrow> create_order" where
  "OrderManager_create s om i order_id = \<lparr>
     co_account = sp_account s, co_order_id = order_id, co_exchange = ai_exchange i, co_symbol = ai_symbol i,
     co_side = om_side om, co_max_show_quantity = NaN, co_order_type = LIMIT, co_time_in_force = GTC,
     co_execution_instructions = [], co_quantity = om_target_quantity om, co_price = om_target_price om,
     co_stop_price = NaN, co_leverage = NaN, co_routing_id = sp_routing_id s, co_strategy_id = 0\<rparr>"

definition OrderManager_set_target ::
  "bool \<Rightarrow> 'z utils_scheme \<Rightarrow> ('w, 'g, 'm) algo_context \<Rightarrow> nat \<Rightarrow> double \<Rightarrow> double \<Rightarrow> 'w \<times> Spread \<Rightarrow> ('w \<times> Spread) result" where
  "OrderManager_set_target dbg U X k quantity price ws =
     (let (w, s) = ws; om = sp_order_managers s ! k in
      if length (sp_order_managers s) \<le> k then Inl Undefined_Behaviour else
      assert_then dbg (sp_ready s)
      (let (c1, q) = update_double U (om_target_quantity om) quantity;
           (c2, p) = update_double U (om_target_price om) price;
           om1 = om\<lparr>om_target_quantity := q, om_target_price := p\<rparr>;
           s1 = s\<lparr>sp_order_managers := (sp_order_managers s)[k := om1]\<rparr>
       in if \<not> (c1 \<or> c2) then Inr (w, s1)
          else if om_order_id om1 = 0 then
            let order_id = ctx_next_order_id X w; i = sp_state s1 ! om_index om1 in
            if length (sp_state s1) \<le> om_index om1 then Inl Undefined_Behaviour else
            bind_result (ctx_create X (OrderManager_create s1 om1 i order_id) w) (\<lambda>w1.
            assert_then dbg (order_id \<notin> dom (sp_order_index s1))
            (Inr (w1, s1\<lparr>sp_order_managers := (sp_order_managers s1)[k := om1\<lparr>om_order_id := order_id\<rparr>],
                         sp_order_index := (if order_id \<in> dom (sp_order_index s1) then sp_order_index s1
                                            else (sp_order_index s1)(order_id \<mapsto> om_index om1))\<rparr>)))
          else
            bind_result (ctx_modify X \<lparr>mo_account = sp_account s1, mo_order_id = om_order_id om1, mo_quantity = NaN,
              mo_price = om_target_price om1, mo_routing_id = sp_routing_id s1\<rparr> w) (\<lambda>w1. Inr (w1, s1))))"

section \<open>Spread\<close>

text \<open>\<open>Base::extract\<close> with one layer: nothing when the book has no layer.\<close>

definition Base_extract ::
  "('g, 'm, 'u) algo_cache \<Rightarrow> ('w, 'g, 'm) algo_context \<Rightarrow> 'w \<Rightarrow> Spread \<Rightarrow> nat \<Rightarrow> layer option result" where
  "Base_extract C X w s index =
     bind_result (state_market X (sp_state s) w index) (\<lambda>a. Inr (mkt_extract C (am_market a)))"

definition Spread_update ::
  "bool \<Rightarrow> 'z utils_scheme \<Rightarrow> ('g, 'm, 'u) algo_cache \<Rightarrow> ('w, 'g, 'm) algo_context \<Rightarrow> 'w \<times> Spread \<Rightarrow> ('w \<times> Spread) result" where
  "Spread_update dbg U C X ws =
     (let (w, s) = ws in
      if \<not> sp_ready s then Inr ws
      else bind_result (Base_extract C X w s 0) (\<lambda>depth_0.
      bind_result (Base_extract C X w s 1) (\<lambda>depth_1.
      case (depth_0, depth_1) of
        (Some best_0, Some best_1) \<Rightarrow>
          bind_result
            (case sp_side s of
               Side_UNDEFINED \<Rightarrow> assert_then dbg False (Inr NaN)
             | BUY \<Rightarrow> Inr (dsub (bid_price best_1) (sp_price s))
             | SELL \<Rightarrow> Inr (dsub (ask_price best_1) (sp_price s))) (\<lambda>price.
          if \<not> isnan price then OrderManager_set_target dbg U X 0 (sp_quantity s) price ws else Inr ws)
      | _ \<Rightarrow> Inr ws)))"

definition Spread_current_spread ::
  "bool \<Rightarrow> ('g, 'm, 'u) algo_cache \<Rightarrow> ('w, 'g, 'm) algo_context \<Rightarrow> 'w \<Rightarrow> Spread \<Rightarrow> double result" where
  "Spread_current_spread dbg C X w s =
     bind_result (Base_extract C X w s 0) (\<lambda>depth_0.
     bind_result (Base_extract C X w s 1) (\<lambda>depth_1.
     case (depth_0, depth_1) of
       (Some best_0, Some best_1) \<Rightarrow>
         (case sp_side s of
            Side_UNDEFINED \<Rightarrow> assert_then dbg False (Inr NaN)
          | BUY \<Rightarrow> Inr (dsub (ask_price best_0) (bid_price best_1))
          | SELL \<Rightarrow> Inr (dsub (bid_price best_0) (ask_price best_1)))
     | _ \<Rightarrow> Inr NaN))"

text \<open>The loop of \<open>Base::update\<close> over the instruments: the new flags, and their conjunction.\<close>

primrec Base_ready_loop ::
  "'z utils_scheme \<Rightarrow> ('g, 'm, 'u) algo_cache \<Rightarrow> ('w, 'g, 'm) algo_context \<Rightarrow> 'w \<Rightarrow> Spread \<Rightarrow> u8 \<Rightarrow> nat \<Rightarrow>
     bool list \<Rightarrow> (bool list \<times> bool) result" where
  "Base_ready_loop U C X w s src index [] = Inr ([], True)"
| "Base_ready_loop U C X w s src index (tmp # flags) =
     bind_result (state_ready U C X (sp_state s) w tmp index src (sp_account s)) (\<lambda>(changed, tmp').
     bind_result (Base_ready_loop U C X w s src (index + 1) flags) (\<lambda>(flags', ready).
     Inr ((if changed then tmp' else tmp) # flags', tmp' \<and> ready)))"

text \<open>The callbacks on a change of the ready state start or stop every order manager, which is empty;
  the strategy prices its order when it becomes ready.\<close>

definition OrderManager_start :: "OrderManager \<Rightarrow> OrderManager" where
  "OrderManager_start om = om"

definition OrderManager_stop :: "OrderManager \<Rightarrow> OrderManager" where
  "OrderManager_stop om = om"

definition Spread_on_Ready ::
  "bool \<Rightarrow> 'z utils_scheme \<Rightarrow> ('g, 'm, 'u) algo_cache \<Rightarrow> ('w, 'g, 'm) algo_context \<Rightarrow> 'w \<times> Spread \<Rightarrow> ('w \<times> Spread) result" where
  "Spread_on_Ready dbg U C X ws =
     (let (w, s) = ws in Spread_update dbg U C X (w, s\<lparr>sp_order_managers := map OrderManager_start (sp_order_managers s)\<rparr>))"

definition Spread_on_NotReady :: "'w \<times> Spread \<Rightarrow> ('w \<times> Spread) result" where
  "Spread_on_NotReady ws = (let (w, s) = ws in Inr (w, s\<lparr>sp_order_managers := map OrderManager_stop (sp_order_managers s)\<rparr>))"

definition Base_update ::
  "bool \<Rightarrow> 'z utils_scheme \<Rightarrow> ('g, 'm, 'u) algo_cache \<Rightarrow> ('w, 'g, 'm) algo_context \<Rightarrow> message_info \<Rightarrow> 'w \<times> Spread \<Rightarrow>
     ('w \<times> Spread) result" where
  "Base_update dbg U C X info ws =
     (let (w, s) = ws in
      bind_result (Base_ready_loop U C X w s (source info) 0 (sp_ready_by_instrument s)) (\<lambda>(flags, ready).
      case update_bool U (sp_ready s) ready of (changed, r) \<Rightarrow>
        let s1 = s\<lparr>sp_ready_by_instrument := flags, sp_ready := r\<rparr>
        in if changed then (if r then Spread_on_Ready dbg U C X (w, s1) else Spread_on_NotReady (w, s1)) else Inr (w, s1)))"

text \<open>\<open>Base::dispatch\<close> finds the order manager of an order; the handlers of the order manager only log.\<close>

fun OrderManager_handle :: "'u message \<Rightarrow> OrderManager \<Rightarrow> OrderManager" where
  "OrderManager_handle (OrderAck a) om = om"
| "OrderManager_handle (OrderUpdate u) om = om"
| "OrderManager_handle (PositionUpdate p) om = om"
| "OrderManager_handle _ om = om"

definition Base_dispatch :: "'u message \<Rightarrow> u64 \<Rightarrow> 'w \<times> Spread \<Rightarrow> ('w \<times> Spread) result" where
  "Base_dispatch msg order_id ws =
     (let (w, s) = ws in
      case sp_order_index s order_id of
        None \<Rightarrow> Inr ws
      | Some k \<Rightarrow>
          if k < length (sp_order_managers s)
          then Inr (w, s\<lparr>sp_order_managers := (sp_order_managers s)[k := OrderManager_handle msg (sp_order_managers s ! k)]\<rparr>)
          else Inl Undefined_Behaviour)"

fun Spread_handle ::
  "bool \<Rightarrow> 'z utils_scheme \<Rightarrow> ('g, 'm, 'u) algo_cache \<Rightarrow> ('w, 'g, 'm) algo_context \<Rightarrow> message_info \<Rightarrow> 'u message \<Rightarrow>
     'w \<times> Spread \<Rightarrow> ('w \<times> Spread) result" where
  "Spread_handle dbg U C X info Connected ws = Base_update dbg U C X info ws"
| "Spread_handle dbg U C X info Disconnected ws = Base_update dbg U C X info ws"
| "Spread_handle dbg U C X info (DownloadBegin d) ws = Base_update dbg U C X info ws"
| "Spread_handle dbg U C X info (DownloadEnd d) ws = Base_update dbg U C X info ws"
| "Spread_handle dbg U C X info GatewaySettings ws = Base_update dbg U C X info ws"
| "Spread_handle dbg U C X info (GatewayStatus g) ws = Base_update dbg U C X info ws"
| "Spread_handle dbg U C X info (ReferenceData r) ws = Base_update dbg U C X info ws"
| "Spread_handle dbg U C X info (MarketStatus m) ws = Base_update dbg U C X info ws"
| "Spread_handle dbg U C X info (MarketByPriceUpdate u) ws = Spread_update dbg U C X ws"
| "Spread_handle dbg U C X info (OrderAck a) ws = Base_dispatch (OrderAck a :: 'u message) (oa_order_id a) ws"
| "Spread_handle dbg U C X info (OrderUpdate u) ws = Base_dispatch (OrderUpdate u :: 'u message) (ou_order_id u) ws"
| "Spread_handle dbg U C X info _ ws = Inr ws"

section \<open>Lemmas\<close>

text \<open>What is left of the callbacks and handlers that do nothing.\<close>

lemma Spread_on_Ready_eq [simp]: "Spread_on_Ready dbg U C X ws = Spread_update dbg U C X ws"
proof -
  have "map OrderManager_start oms = oms" for oms by (simp add: OrderManager_start_def map_idI)
  then show ?thesis by (cases ws) (simp add: Spread_on_Ready_def)
qed

lemma Spread_on_NotReady_eq [simp]: "Spread_on_NotReady ws = Inr ws"
proof -
  have "map OrderManager_stop oms = oms" for oms by (simp add: OrderManager_stop_def map_idI)
  then show ?thesis by (cases ws) (simp add: Spread_on_NotReady_def)
qed

lemma if_nested: "(if c then (if r then x else y) else y) = (if c \<and> r then x else y)"
  by simp

lemma Base_update_eq:
  "Base_update dbg U C X info ws =
     (let (w, s) = ws in
      bind_result (Base_ready_loop U C X w s (source info) 0 (sp_ready_by_instrument s)) (\<lambda>(flags, ready).
      case update_bool U (sp_ready s) ready of (changed, r) \<Rightarrow>
        let s1 = s\<lparr>sp_ready_by_instrument := flags, sp_ready := r\<rparr>
        in if changed \<and> r then Spread_update dbg U C X (w, s1) else Inr (w, s1)))"
  unfolding Base_update_def Spread_on_Ready_eq Spread_on_NotReady_eq if_nested ..

lemma OrderManager_handle_eq [simp]: "OrderManager_handle msg om = om"
  by (cases msg) simp_all

lemma Base_dispatch_eq:
  "Base_dispatch msg order_id ws =
     (case sp_order_index (snd ws) order_id of
        None \<Rightarrow> Inr ws
      | Some k \<Rightarrow> if k < length (sp_order_managers (snd ws)) then Inr ws else Inl Undefined_Behaviour)"
  by (cases ws) (simp add: Base_dispatch_def split: option.split)


text \<open>The order id of the only order manager that is ever driven.\<close>

definition spread_oid :: "Spread \<Rightarrow> u64" where
  "spread_oid s = om_order_id (sp_order_managers s ! 0)"

text \<open>What a strategy can do to the world: nothing, create its order, or modify it.\<close>

definition spread_acts ::
  "('w, 'g, 'm) algo_context \<Rightarrow> 'w \<Rightarrow> Spread \<Rightarrow> 'w \<Rightarrow> Spread \<Rightarrow> bool" where
  "spread_acts X w s w' s' \<longleftrightarrow>
     w' = w \<and> spread_oid s' = spread_oid s \<or>
     spread_oid s = 0 \<and> spread_oid s' = ctx_next_order_id X w \<and>
       (\<exists>c. ctx_create X c w = Inr w' \<and> co_order_id c = ctx_next_order_id X w) \<or>
     spread_oid s \<noteq> 0 \<and> spread_oid s' = spread_oid s \<and>
       (\<exists>m. ctx_modify X m w = Inr w' \<and> mo_order_id m = spread_oid s)"

lemma set_target_acts:
  assumes "OrderManager_set_target dbg U X 0 quantity price (w, s) = Inr (w', s')"
  shows "spread_acts X w s w' s'"
proof -
  obtain om oms where oms: "sp_order_managers s = om # oms"
    using assms by (cases "sp_order_managers s") (auto simp: OrderManager_set_target_def)
  show ?thesis
    using assms
    by (auto simp: OrderManager_set_target_def Let_def oms spread_oid_def spread_acts_def result_Inr
        OrderManager_create_def split: prod.splits if_splits)
qed

lemma spread_update_acts:
  assumes "Spread_update dbg U C X (w, s) = Inr (w', s')"
  shows "spread_acts X w s w' s'"
proof -
  have "(w', s') = (w, s) \<or> (\<exists>q p. OrderManager_set_target dbg U X 0 q p (w, s) = Inr (w', s'))"
    using assms by (auto simp: Spread_update_def result_Inr split: if_splits option.splits)
  then show ?thesis using set_target_acts by (fastforce simp: spread_acts_def)
qed

lemma spread_acts_cong:
  "sp_order_managers s1 = sp_order_managers s \<Longrightarrow> spread_acts X w s1 w' s' \<Longrightarrow> spread_acts X w s w' s'"
  by (simp add: spread_acts_def spread_oid_def)

lemma base_update_acts:
  assumes "Base_update dbg U C X info (w, s) = Inr (w', s')"
  shows "spread_acts X w s w' s'"
proof -
  obtain flags ready where "Base_ready_loop U C X w s (source info) 0 (sp_ready_by_instrument s) = Inr (flags, ready)"
    using assms by (auto simp: Base_update_eq result_Inr)
  moreover obtain changed r where "update_bool U (sp_ready s) ready = (changed, r)" by (cases "update_bool U (sp_ready s) ready")
  ultimately have *: "(w', s') = (w, s\<lparr>sp_ready_by_instrument := flags, sp_ready := r\<rparr>) \<or>
      Spread_update dbg U C X (w, s\<lparr>sp_ready_by_instrument := flags, sp_ready := r\<rparr>) = Inr (w', s')"
    using assms by (auto simp: Base_update_eq Let_def split: if_splits)
  show ?thesis
  proof (rule spread_acts_cong)
    let ?s = "s\<lparr>sp_ready_by_instrument := flags, sp_ready := r\<rparr>"
    show "sp_order_managers ?s = sp_order_managers s" by simp
    show "spread_acts X w ?s w' s'" using * spread_update_acts by (fastforce simp: spread_acts_def)
  qed
qed

lemma spread_handle_acts:
  assumes "Spread_handle dbg U C X info msg (w, s) = Inr (w', s')"
  shows "spread_acts X w s w' s'"
proof -
  have same: "spread_acts X w s w s" by (simp add: spread_acts_def)
  show ?thesis
    using assms base_update_acts spread_update_acts same
    by (cases msg) (fastforce simp: Base_dispatch_eq split: option.splits if_splits)+
qed

text \<open>With a dispatcher that keeps its contract, the order of a strategy stays routable.\<close>

context order_dispatcher
begin

lemma spread_keeps_known:
  assumes "Spread_handle dbg U C X info msg (w, s) = Inr (w', s')"
    and "ok w" "spread_oid s \<noteq> 0 \<longrightarrow> known w (spread_oid s)"
  shows "ok w' \<and> (spread_oid s' \<noteq> 0 \<longrightarrow> known w' (spread_oid s'))"
  using spread_handle_acts [OF assms(1)] assms(2,3) create_known create_ok modify_ok modify_keeps
  unfolding spread_acts_def by metis

lemma spread_modify_accepted:
  assumes "spread_oid s \<noteq> 0 \<longrightarrow> known w (spread_oid s)" "spread_oid s \<noteq> 0" "mo_order_id m = spread_oid s"
  shows "ctx_modify X m w \<noteq> Inl Fatal"
  using assms modify_accepted by simp

end

text \<open>The readiness loop.\<close>

lemma ready_loop:
  assumes U: "updates_ok U"
  shows "Base_ready_loop U C X w s src k flags = Inr (flags', ready) \<Longrightarrow>
    length flags' = length flags \<and> (ready \<longleftrightarrow> (\<forall>f \<in> set flags'. f)) \<and>
    (\<forall>j < length flags. \<exists>a. state_market X (sp_state s) w (k + j) = Inr a \<and>
       (if am_source a \<noteq> src then flags' ! j = flags ! j
        else \<exists>g. ctx_gateway X w src = Some g \<and> flags' ! j = algo_instrument_ready U C g (am_market a) (sp_account s)))"
proof (induction flags arbitrary: k flags' ready)
  case Nil
  then show ?case by auto
next
  case (Cons f fs)
  from Cons.prems obtain changed f' fs' r where
      f: "state_ready U C X (sp_state s) w f k src (sp_account s) = Inr (changed, f')"
      and fs: "Base_ready_loop U C X w s src (k + 1) fs = Inr (fs', r)"
      and res: "flags' = (if changed then f' else f) # fs'" "ready \<longleftrightarrow> f' \<and> r"
    by (auto simp: result_Inr)
  obtain a where a: "state_market X (sp_state s) w k = Inr a" using f by (auto simp: state_ready_def result_Inr)
  have *: "if am_source a \<noteq> src then changed = False \<and> f' = f
          else \<exists>g. ctx_gateway X w src = Some g \<and> f' = algo_instrument_ready U C g (am_market a) (sp_account s) \<and>
            changed = (f \<noteq> f')"
  proof (cases "am_source a = src")
    case True
    then show ?thesis using f a U by (cases "ctx_gateway X w src") (auto simp: state_ready_def updates_ok_def update_lawD)
  qed (use f a in \<open>simp add: state_ready_def\<close>)
  have head: "(if changed then f' else f) = f'" using * by (auto split: if_splits)
  note IH = Cons.IH [OF fs]
  show ?case
  proof (intro conjI allI impI)
    show "length flags' = length (f # fs)" using IH res by simp
    show "ready \<longleftrightarrow> (\<forall>f \<in> set flags'. f)" using IH res head by auto
    fix j
    assume j: "j < length (f # fs)"
    show "\<exists>a. state_market X (sp_state s) w (k + j) = Inr a \<and>
       (if am_source a \<noteq> src then flags' ! j = (f # fs) ! j
        else \<exists>g. ctx_gateway X w src = Some g \<and> flags' ! j = algo_instrument_ready U C g (am_market a) (sp_account s))"
    proof (cases j)
      case 0
      have h: "flags' ! j = f'" using 0 res(1) head by simp
      show ?thesis
      proof (cases "am_source a = src")
        case True
        then obtain g where "ctx_gateway X w src = Some g" "f' = algo_instrument_ready U C g (am_market a) (sp_account s)"
          using * by auto
        then show ?thesis using a h 0 True by (intro exI [of _ a]) simp
      qed (use a h 0 * in \<open>intro exI [of _ a], simp\<close>)
    next
      case (Suc i)
      then have "i < length fs" using j by simp
      with IH obtain b where b: "state_market X (sp_state s) w (k + 1 + i) = Inr b"
         "if am_source b \<noteq> src then fs' ! i = fs ! i
          else \<exists>g. ctx_gateway X w src = Some g \<and> fs' ! i = algo_instrument_ready U C g (am_market b) (sp_account s)"
        by blast
      have "flags' ! j = fs' ! i" "(f # fs) ! j = fs ! i" "k + j = k + 1 + i" using Suc res(1) by simp_all
      with b show ?thesis by (intro exI [of _ b]) simp
    qed
  qed
qed

lemma set_target_flags:
  assumes "OrderManager_set_target dbg U X k quantity price (w, s) = Inr (w', s')"
  shows "sp_ready s' = sp_ready s \<and> sp_ready_by_instrument s' = sp_ready_by_instrument s"
  using assms by (auto simp: OrderManager_set_target_def Let_def result_Inr split: prod.splits if_splits)

lemma spread_update_flags:
  assumes "Spread_update dbg U C X (w, s) = Inr (w', s')"
  shows "sp_ready s' = sp_ready s \<and> sp_ready_by_instrument s' = sp_ready_by_instrument s"
proof -
  have "(w', s') = (w, s) \<or> (\<exists>q p. OrderManager_set_target dbg U X 0 q p (w, s) = Inr (w', s'))"
    using assms by (auto simp: Spread_update_def result_Inr split: if_splits option.splits)
  then show ?thesis by (elim disjE exE) (simp, rule set_target_flags)
qed

section \<open>Properties\<close>

text \<open>
  Readiness: when a strategy has handled a gateway or reference data event of a source, its
  ready flag is the conjunction of the flags of its instruments; the flag of an instrument
  whose market comes from that source says whether the gateway has all required market data
  and order management, the tick size is not zero and the market is open; every other flag is
  unchanged.
\<close>

theorem Base_update_ready:
  assumes "updates_ok U" "Base_update dbg U C X info (w, s) = Inr (w', s')"
  shows "(sp_ready s' \<longleftrightarrow> (\<forall>f \<in> set (sp_ready_by_instrument s'). f)) \<and>
    length (sp_ready_by_instrument s') = length (sp_ready_by_instrument s) \<and>
    (\<forall>j < length (sp_ready_by_instrument s). \<exists>a. state_market X (sp_state s) w j = Inr a \<and>
       (if am_source a \<noteq> source info then sp_ready_by_instrument s' ! j = sp_ready_by_instrument s ! j
        else \<exists>g. ctx_gateway X w (source info) = Some g \<and>
          sp_ready_by_instrument s' ! j = algo_instrument_ready U C g (am_market a) (sp_account s)))"
proof -
  obtain flags ready where loop: "Base_ready_loop U C X w s (source info) 0 (sp_ready_by_instrument s) = Inr (flags, ready)"
    using assms(2) by (auto simp: Base_update_eq result_Inr)
  have "update_bool U (sp_ready s) ready = (sp_ready s \<noteq> ready, ready)"
    using assms(1) by (simp add: updates_ok_def update_lawD)
  then have "(w', s') = (w, s\<lparr>sp_ready_by_instrument := flags, sp_ready := ready\<rparr>) \<or>
      Spread_update dbg U C X (w, s\<lparr>sp_ready_by_instrument := flags, sp_ready := ready\<rparr>) = Inr (w', s')"
    using assms(2) loop by (auto simp: Base_update_eq Let_def split: if_splits)
  then have s': "sp_ready s' = ready" "sp_ready_by_instrument s' = flags"
    using spread_update_flags by fastforce+
  show ?thesis using ready_loop [OF assms(1) loop] unfolding s' by simp
qed

section \<open>A concrete context\<close>

text \<open>A gateway that is always ready, a market that is its last top of book.\<close>

definition demo_cache :: "(unit, layer option, layer) algo_cache" where
  "demo_cache = \<lparr>
     gw_apply = (\<lambda>g info msg. (True, g)), gw_ready = (\<lambda>g r. True), gw_ready_account = (\<lambda>g r a. True),
     gw_supports = (\<lambda>g t. True), mkt_new = (\<lambda>i e s. None),
     mkt_apply = (\<lambda>m info msg. (True, case msg of MarketByPriceUpdate u \<Rightarrow> Some (bu_content u) | _ \<Rightarrow> m)),
     mkt_tick_size = (\<lambda>m. Fin 1), mkt_trading_status = (\<lambda>m. OPEN), mkt_extract = (\<lambda>m. m), source_self = 255\<rparr>"

definition demo_context :: "(layer option algo_market, unit, layer option) algo_context" where
  "demo_context = \<lparr>
     ctx_market = (\<lambda>w e s. Some w), ctx_gateway = (\<lambda>w src. Some ()), ctx_next_order_id = (\<lambda>w. 1),
     ctx_create = (\<lambda>c w. Inr w), ctx_modify = (\<lambda>m w. Inr w), ctx_cancel = (\<lambda>c w. Inr w)\<rparr>"

definition demo_spread :: Spread where
  "demo_spread = \<lparr>sp_routing_id = ''AQ'', sp_account = ''A1'',
     sp_state = [\<lparr>ai_exchange = ''deribit'', ai_symbol = ''X'', ai_weight = Fin 1\<rparr>,
                 \<lparr>ai_exchange = ''deribit'', ai_symbol = ''Y'', ai_weight = Fin (- 1)\<rparr>],
     sp_order_managers = [OrderManager_new 0 BUY, OrderManager_new 1 SELL], sp_order_index = Map.empty,
     sp_ready_by_instrument = [False, False], sp_ready = False, sp_side = BUY, sp_quantity = Fin 1, sp_price = Fin 5\<rparr>"

lemmas demo_spread_eval = demo_cache_def demo_context_def demo_spread_def exact_utils_def Base_update_eq state_ready_def
  state_market_def algo_instrument_ready_def Spread_update_def Base_extract_def OrderManager_set_target_def
  OrderManager_new_def OrderManager_create_def Let_def dsub_def

theorem Base_update_ready_witness:
  "\<exists>w' s'. Base_update True exact_utils demo_cache demo_context \<lparr>source = 0, receive_time = 0, origin_create_time = 0\<rparr>
     (\<lparr>am_market = Some \<lparr>bid_price = Fin 10, bid_quantity = Fin 1, ask_price = Fin 11, ask_quantity = Fin 1\<rparr>, am_source = 0\<rparr>,
      demo_spread) = Inr (w', s') \<and> (sp_ready s' \<longleftrightarrow> (\<forall>f \<in> set (sp_ready_by_instrument s'). f))"
proof -
  obtain w' s' where s: "Base_update True exact_utils demo_cache demo_context
      \<lparr>source = 0, receive_time = 0, origin_create_time = 0\<rparr>
      (\<lparr>am_market = Some \<lparr>bid_price = Fin 10, bid_quantity = Fin 1, ask_price = Fin 11, ask_quantity = Fin 1\<rparr>, am_source = 0\<rparr>,
       demo_spread) = Inr (w', s')"
    by (simp add: demo_spread_eval)
  then show ?thesis using Base_update_ready [OF exact_utils_updates_ok s] by blast
qed

end
