(* ===== verification/Algo_Bridge.thy ===== *)
theory Algo_Bridge
  imports Algo_Strategies
begin

text \<open>
  The bridge of the algo prototype (\<open>algo-proto/bridge.*\<close>, \<open>algo-proto/route.*\<close>): it keeps the
  routes (a market per exchange and symbol, with the strategies that listen to it), the
  gateways and the strategies, forwards gateway events to them, and is the dispatcher they
  send their requests through. \<open>client::Base64::encode\<close> of a strategy id is a parameter. The
  iteration order of the hash maps is the order of the lists that stand for them.
  Shown: the contract of the dispatcher, that every request about an order goes to the source
  the order was created at, and that order ids are never recycled.
\<close>

section \<open>State\<close>

record 'm Route =
  rt_market :: "'m algo_market"
  rt_strategies :: "u32 list"

type_synonym 'm routes = "string \<rightharpoonup> (string \<rightharpoonup> 'm Route)"

text \<open>The part of the bridge that the strategies act on.\<close>

record ('g, 'm) bridge_core =
  br_routes :: "'m routes"
  br_gateways :: "'g list"
  br_max_order_id :: u64
  br_order_id_to_source :: "u64 \<rightharpoonup> u8"
  br_sent :: outbox

record ('g, 'm) Bridge =
  br_core :: "('g, 'm) bridge_core"
  br_factories :: "(string \<times> string \<times> algo_state) list"
  br_strategies :: "(u32 \<times> Spread) list"
  br_routing_id_to_strategy :: "string \<rightharpoonup> u32"
  br_strategy_id :: u32

section \<open>Routes\<close>

definition find_route :: "'m routes \<Rightarrow> string \<Rightarrow> string \<Rightarrow> 'm Route option" where
  "find_route routes exchange symbol =
     (case routes exchange of None \<Rightarrow> None | Some tmp \<Rightarrow> tmp symbol)"

definition set_route :: "string \<Rightarrow> string \<Rightarrow> 'm Route \<Rightarrow> 'm routes \<Rightarrow> 'm routes" where
  "set_route exchange symbol r routes =
     routes(exchange \<mapsto> (case routes exchange of None \<Rightarrow> Map.empty | Some tmp \<Rightarrow> tmp)(symbol \<mapsto> r))"

definition Route_new :: "('g, 'm, 'u) algo_cache \<Rightarrow> u32 \<Rightarrow> string \<Rightarrow> string \<Rightarrow> 'm Route" where
  "Route_new C market_id exchange symbol =
     \<lparr>rt_market = algo_market_new C market_id exchange symbol, rt_strategies = []\<rparr>"

definition Route_get_source :: "'m Route \<Rightarrow> u8" where
  "Route_get_source r = am_source (rt_market r)"

definition Route_add :: "u32 \<Rightarrow> 'm Route \<Rightarrow> 'm Route" where
  "Route_add strategy_id r = r\<lparr>rt_strategies := List.insert strategy_id (rt_strategies r)\<rparr>"

definition Route_remove :: "u32 \<Rightarrow> 'm Route \<Rightarrow> 'm Route" where
  "Route_remove strategy_id r = r\<lparr>rt_strategies := removeAll strategy_id (rt_strategies r)\<rparr>"

primrec create_symbol_routes ::
  "bool \<Rightarrow> ('g, 'm, 'u) algo_cache \<Rightarrow> string \<Rightarrow> string list \<Rightarrow> u32 \<times> 'm routes \<Rightarrow> (u32 \<times> 'm routes) result" where
  "create_symbol_routes dbg C exchange [] acc = Inr acc"
| "create_symbol_routes dbg C exchange (symbol # symbols) acc =
     (let (market_id, routes) = acc; market_id' = market_id + 1 in
      assert_then dbg (find_route routes exchange symbol = None)
      (create_symbol_routes dbg C exchange symbols
         (market_id', if find_route routes exchange symbol = None
                      then set_route exchange symbol (Route_new C market_id' exchange symbol) routes else routes)))"

primrec create_routes_loop ::
  "bool \<Rightarrow> ('g, 'm, 'u) algo_cache \<Rightarrow> (string \<times> string list) list \<Rightarrow> u32 \<times> 'm routes \<Rightarrow> 'm routes result" where
  "create_routes_loop dbg C [] acc = Inr (snd acc)"
| "create_routes_loop dbg C (es # ess) acc =
     bind_result (create_symbol_routes dbg C (fst es) (snd es) acc) (create_routes_loop dbg C ess)"

definition create_routes :: "bool \<Rightarrow> ('g, 'm, 'u) algo_cache \<Rightarrow> proto_config \<Rightarrow> 'm routes result" where
  "create_routes dbg C config = create_routes_loop dbg C (pc_exchange_symbols config) (0, Map.empty)"

definition create_factories :: "proto_config \<Rightarrow> 'm routes \<Rightarrow> (string \<times> string \<times> algo_state) list result" where
  "create_factories config routes =
     collect (\<lambda>(symbol, strategy).
       if \<forall>i \<in> set (ac_instruments strategy). find_route routes (ai_exchange i) (ai_symbol i) \<noteq> None
       then Inr (symbol, ac_type strategy, ac_instruments strategy) else Inl Fatal) (pc_strategies config)"

section \<open>Requests of the strategies\<close>

definition core_send :: "dispatcher \<Rightarrow> request \<Rightarrow> u8 \<Rightarrow> ('g, 'm) bridge_core \<Rightarrow> ('g, 'm) bridge_core result" where
  "core_send D r src w =
     (case D r src of Some x \<Rightarrow> Inl (Raised x) | None \<Rightarrow> Inr (w\<lparr>br_sent := br_sent w @ [(r, src)]\<rparr>))"

definition Bridge_create_order ::
  "bool \<Rightarrow> dispatcher \<Rightarrow> create_order \<Rightarrow> ('g, 'm) bridge_core \<Rightarrow> ('g, 'm) bridge_core result" where
  "Bridge_create_order dbg D c w =
     assert_then dbg (co_routing_id c \<noteq> [])
     (let w1 = w\<lparr>br_max_order_id := max (br_max_order_id w) (co_order_id c)\<rparr> in
      case find_route (br_routes w1) (co_exchange c) (co_symbol c) of
        None \<Rightarrow> Inl Fatal
      | Some r \<Rightarrow>
          let src = Route_get_source r;
              w2 = w1\<lparr>br_order_id_to_source :=
                (if co_order_id c \<in> dom (br_order_id_to_source w1) then br_order_id_to_source w1
                 else (br_order_id_to_source w1)(co_order_id c \<mapsto> src))\<rparr>
          in core_send D (CreateOrder c) src w2)"

definition find_source :: "('g, 'm) bridge_core \<Rightarrow> u64 \<Rightarrow> u8 option" where
  "find_source w order_id = br_order_id_to_source w order_id"

definition Bridge_modify_order ::
  "bool \<Rightarrow> dispatcher \<Rightarrow> modify_order \<Rightarrow> ('g, 'm) bridge_core \<Rightarrow> ('g, 'm) bridge_core result" where
  "Bridge_modify_order dbg D m w =
     assert_then dbg (mo_routing_id m \<noteq> [])
     (let w1 = w\<lparr>br_max_order_id := max (br_max_order_id w) (mo_order_id m)\<rparr> in
      case find_source w1 (mo_order_id m) of
        None \<Rightarrow> Inl Fatal | Some src \<Rightarrow> core_send D (ModifyOrder m) src w1)"

definition Bridge_cancel_order ::
  "bool \<Rightarrow> dispatcher \<Rightarrow> cancel_order \<Rightarrow> ('g, 'm) bridge_core \<Rightarrow> ('g, 'm) bridge_core result" where
  "Bridge_cancel_order dbg D c w =
     assert_then dbg (ca_routing_id c \<noteq> [])
     (let w1 = w\<lparr>br_max_order_id := max (br_max_order_id w) (ca_order_id c)\<rparr> in
      case find_source w1 (ca_order_id c) of
        None \<Rightarrow> Inl Fatal | Some src \<Rightarrow> core_send D (CancelOrder c) src w1)"

definition bridge_context :: "bool \<Rightarrow> dispatcher \<Rightarrow> (('g, 'm) bridge_core, 'g, 'm) algo_context" where
  "bridge_context dbg D = \<lparr>
     ctx_market = (\<lambda>w exchange symbol. map_option rt_market (find_route (br_routes w) exchange symbol)),
     ctx_gateway = (\<lambda>w src. if unat src < length (br_gateways w) then Some (br_gateways w ! unat src) else None),
     ctx_next_order_id = (\<lambda>w. br_max_order_id w + 1),
     ctx_create = Bridge_create_order dbg D, ctx_modify = Bridge_modify_order dbg D,
     ctx_cancel = Bridge_cancel_order dbg D\<rparr>"

section \<open>Events\<close>

text \<open>An event handed to one strategy, and to every strategy in turn.\<close>

definition Bridge_to_strategy ::
  "bool \<Rightarrow> 'z utils_scheme \<Rightarrow> ('g, 'm, 'u) algo_cache \<Rightarrow> dispatcher \<Rightarrow> message_info \<Rightarrow> 'u message \<Rightarrow> nat \<Rightarrow>
     ('g, 'm) Bridge \<Rightarrow> ('g, 'm) Bridge result" where
  "Bridge_to_strategy dbg U C D info msg k b =
     (let (strategy_id, s) = br_strategies b ! k in
      bind_result (Spread_handle dbg U C (bridge_context dbg D) info msg (br_core b, s)) (\<lambda>(w, s').
      Inr (b\<lparr>br_core := w, br_strategies := (br_strategies b)[k := (strategy_id, s')]\<rparr>)))"

primrec Bridge_to_strategies ::
  "bool \<Rightarrow> 'z utils_scheme \<Rightarrow> ('g, 'm, 'u) algo_cache \<Rightarrow> dispatcher \<Rightarrow> message_info \<Rightarrow> 'u message \<Rightarrow> nat list \<Rightarrow>
     ('g, 'm) Bridge \<Rightarrow> ('g, 'm) Bridge result" where
  "Bridge_to_strategies dbg U C D info msg [] b = Inr b"
| "Bridge_to_strategies dbg U C D info msg (k # ks) b =
     bind_result (Bridge_to_strategy dbg U C D info msg k b) (Bridge_to_strategies dbg U C D info msg ks)"

definition strategy_position :: "(u32 \<times> Spread) list \<Rightarrow> u32 \<Rightarrow> nat option" where
  "strategy_position ss strategy_id =
     (if strategy_id \<in> fst ` set ss then Some (length (takeWhile (\<lambda>s. fst s \<noteq> strategy_id) ss)) else None)"

text \<open>Gateway events: the cache of the gateway is updated, and all strategies see a change.\<close>

definition Bridge_on_gateway ::
  "bool \<Rightarrow> 'z utils_scheme \<Rightarrow> ('g, 'm, 'u) algo_cache \<Rightarrow> dispatcher \<Rightarrow> message_info \<Rightarrow> 'u message \<Rightarrow>
     ('g, 'm) Bridge \<Rightarrow> ('g, 'm) Bridge result" where
  "Bridge_on_gateway dbg U C D info msg b =
     (let w = br_core b; src = unat (source info) in
      if length (br_gateways w) \<le> src then Inl Undefined_Behaviour
      else let (changed, g) = gw_apply C (br_gateways w ! src) info msg;
               b1 = b\<lparr>br_core := w\<lparr>br_gateways := (br_gateways w)[src := g]\<rparr>\<rparr>
      in if changed then Bridge_to_strategies dbg U C D info msg [0..<length (br_strategies b1)] b1 else Inr b1)"

text \<open>The strategies of a route, by their ids.\<close>

primrec Bridge_to_route ::
  "bool \<Rightarrow> 'z utils_scheme \<Rightarrow> ('g, 'm, 'u) algo_cache \<Rightarrow> dispatcher \<Rightarrow> message_info \<Rightarrow> 'u message \<Rightarrow> u32 list \<Rightarrow>
     ('g, 'm) Bridge \<Rightarrow> ('g, 'm) Bridge result" where
  "Bridge_to_route dbg U C D info msg [] b = Inr b"
| "Bridge_to_route dbg U C D info msg (i # is) b =
     bind_result
       (case strategy_position (br_strategies b) i of
          None \<Rightarrow> assert_then dbg False (Inr b) | Some k \<Rightarrow> Bridge_to_strategy dbg U C D info msg k b)
       (Bridge_to_route dbg U C D info msg is)"

text \<open>Market events: the market of the route is updated, and the strategies of the route see a
  change.\<close>

definition Bridge_dispatch ::
  "bool \<Rightarrow> 'z utils_scheme \<Rightarrow> ('g, 'm, 'u) algo_cache \<Rightarrow> dispatcher \<Rightarrow> message_info \<Rightarrow> string \<Rightarrow> string \<Rightarrow> 'u message \<Rightarrow>
     ('g, 'm) Bridge \<Rightarrow> ('g, 'm) Bridge result" where
  "Bridge_dispatch dbg U C D info exchange symbol msg b =
     (let w = br_core b in
      case find_route (br_routes w) exchange symbol of
        None \<Rightarrow> assert_then dbg False (Inr b)
      | Some r \<Rightarrow>
          let (changed, a) = algo_market_apply C (rt_market r) info msg;
              b1 = b\<lparr>br_core := w\<lparr>br_routes := set_route exchange symbol (r\<lparr>rt_market := a\<rparr>) (br_routes w)\<rparr>\<rparr>
          in if changed then Bridge_to_route dbg U C D info msg (rt_strategies r) b1 else Inr b1)"

definition find_strategy :: "('g, 'm) Bridge \<Rightarrow> string \<Rightarrow> nat option" where
  "find_strategy b routing_id =
     (case br_routing_id_to_strategy b routing_id of
        None \<Rightarrow> None | Some i \<Rightarrow> strategy_position (br_strategies b) i)"

definition Bridge_on_order ::
  "bool \<Rightarrow> 'z utils_scheme \<Rightarrow> ('g, 'm, 'u) algo_cache \<Rightarrow> dispatcher \<Rightarrow> message_info \<Rightarrow> 'u message \<Rightarrow> u64 \<Rightarrow> string \<Rightarrow>
     ('g, 'm) Bridge \<Rightarrow> ('g, 'm) Bridge result" where
  "Bridge_on_order dbg U C D info msg order_id routing_id b =
     (let w = br_core b; b1 = b\<lparr>br_core := w\<lparr>br_max_order_id := max (br_max_order_id w) order_id\<rparr>\<rparr> in
      case find_strategy b1 routing_id of
        None \<Rightarrow> Inl Fatal | Some k \<Rightarrow> Bridge_to_strategy dbg U C D info msg k b1)"

fun Bridge_step ::
  "bool \<Rightarrow> 'z utils_scheme \<Rightarrow> ('g, 'm, 'u) algo_cache \<Rightarrow> ('g, 'm) Bridge \<Rightarrow> 'u client_event \<Rightarrow> ('g, 'm) Bridge result" where
  "Bridge_step dbg U C b (D, info, Timer now) =
     Bridge_to_strategies dbg U C D info (Timer now) [0..<length (br_strategies b)] b"
| "Bridge_step dbg U C b (D, info, Connected) = Bridge_on_gateway dbg U C D info Connected b"
| "Bridge_step dbg U C b (D, info, Disconnected) = Bridge_on_gateway dbg U C D info Disconnected b"
| "Bridge_step dbg U C b (D, info, DownloadBegin d) = Bridge_on_gateway dbg U C D info (DownloadBegin d) b"
| "Bridge_step dbg U C b (D, info, DownloadEnd d) =
     Bridge_on_gateway dbg U C D info (DownloadEnd d)
       (b\<lparr>br_core := (br_core b)\<lparr>br_max_order_id := max (br_max_order_id (br_core b)) (de_max_order_id d)\<rparr>\<rparr>)"
| "Bridge_step dbg U C b (D, info, GatewaySettings) = Bridge_on_gateway dbg U C D info GatewaySettings b"
| "Bridge_step dbg U C b (D, info, GatewayStatus g) = Bridge_on_gateway dbg U C D info (GatewayStatus g) b"
| "Bridge_step dbg U C b (D, info, ReferenceData r) =
     Bridge_dispatch dbg U C D info (rd_exchange r) (rd_symbol r) (ReferenceData r) b"
| "Bridge_step dbg U C b (D, info, MarketStatus m) =
     Bridge_dispatch dbg U C D info (ms_exchange m) (ms_symbol m) (MarketStatus m) b"
| "Bridge_step dbg U C b (D, info, TopOfBook t) =
     Bridge_dispatch dbg U C D info (tob_exchange t) (tob_symbol t) (TopOfBook t) b"
| "Bridge_step dbg U C b (D, info, MarketByPriceUpdate u) =
     Bridge_dispatch dbg U C D info (bu_exchange u) (bu_symbol u) (MarketByPriceUpdate u) b"
| "Bridge_step dbg U C b (D, info, OrderAck a) =
     Bridge_on_order dbg U C D info (OrderAck a) (oa_order_id a) (oa_routing_id a) b"
| "Bridge_step dbg U C b (D, info, OrderUpdate u) =
     Bridge_on_order dbg U C D info (OrderUpdate u) (ou_order_id u) (ou_routing_id u) b"
| "Bridge_step dbg U C b (D, info, _) = Inr b"

section \<open>Construction\<close>

text \<open>\<open>route.add(strategy_id)\<close> for every instrument of the strategy.\<close>

primrec add_to_routes :: "bool \<Rightarrow> u32 \<Rightarrow> algo_state \<Rightarrow> 'm routes \<Rightarrow> 'm routes result" where
  "add_to_routes dbg strategy_id [] routes = Inr routes"
| "add_to_routes dbg strategy_id (i # is) routes =
     (case find_route routes (ai_exchange i) (ai_symbol i) of
        None \<Rightarrow> assert_then dbg False (add_to_routes dbg strategy_id is routes)
      | Some r \<Rightarrow> add_to_routes dbg strategy_id is
          (set_route (ai_exchange i) (ai_symbol i) (Route_add strategy_id r) routes))"

definition Bridge_create_strategy ::
  "bool \<Rightarrow> 'z utils_scheme \<Rightarrow> (u32 \<Rightarrow> string) \<Rightarrow> create_order \<Rightarrow> ('g, 'm) Bridge \<Rightarrow> ('g, 'm) Bridge result" where
  "Bridge_create_strategy dbg U encode c b =
     (case map_of (br_factories b) (co_symbol c) of
        None \<Rightarrow> Inl Fatal
      | Some (type, st) \<Rightarrow>
          let strategy_id = br_strategy_id b + 1; routing_id = encode strategy_id in
          bind_result (Factory_create dbg U type st routing_id c) (\<lambda>s.
          assert_then dbg (strategy_id \<notin> fst ` set (br_strategies b))
          (bind_result (add_to_routes dbg strategy_id st (br_routes (br_core b))) (\<lambda>routes.
           Inr (b\<lparr>br_strategy_id := strategy_id,
             br_strategies := (if strategy_id \<in> fst ` set (br_strategies b) then br_strategies b
                               else br_strategies b @ [(strategy_id, s)]),
             br_core := (br_core b)\<lparr>br_routes := routes\<rparr>,
             br_routing_id_to_strategy :=
               (if routing_id \<in> dom (br_routing_id_to_strategy b) then br_routing_id_to_strategy b
                else (br_routing_id_to_strategy b)(routing_id \<mapsto> strategy_id))\<rparr>)))))"

record proto_settings =
  pp_account :: string
  pp_strategy :: string
  pp_side :: string
  pp_quantity :: double
  pp_price :: double

text \<open>\<open>magic_enum::enum_cast<Side>\<close> with its default: the names of the enumerators.\<close>

definition side_cast :: "string \<Rightarrow> side" where
  "side_cast s = (if s = ''BUY'' then BUY else if s = ''SELL'' then SELL else Side_UNDEFINED)"

definition Bridge_order :: "proto_settings \<Rightarrow> create_order" where
  "Bridge_order settings = \<lparr>
     co_account = pp_account settings, co_order_id = 0, co_exchange = [], co_symbol = pp_strategy settings,
     co_side = side_cast (pp_side settings), co_max_show_quantity = NaN, co_order_type = LIMIT, co_time_in_force = GTC,
     co_execution_instructions = [], co_quantity = pp_quantity settings, co_price = pp_price settings,
     co_stop_price = NaN, co_leverage = NaN, co_routing_id = [], co_strategy_id = 0\<rparr>"

definition Bridge_new ::
  "bool \<Rightarrow> 'z utils_scheme \<Rightarrow> ('g, 'm, 'u) algo_cache \<Rightarrow> (u32 \<Rightarrow> string) \<Rightarrow> 'g list \<Rightarrow> proto_settings \<Rightarrow> proto_config \<Rightarrow>
     ('g, 'm) Bridge result" where
  "Bridge_new dbg U C encode gateways settings config =
     bind_result (create_routes dbg C config) (\<lambda>routes.
     bind_result (create_factories config routes) (\<lambda>factories.
     Bridge_create_strategy dbg U encode (Bridge_order settings)
       \<lparr>br_core = \<lparr>br_routes = routes, br_gateways = gateways, br_max_order_id = 0,
          br_order_id_to_source = Map.empty, br_sent = []\<rparr>,
        br_factories = factories, br_strategies = [], br_routing_id_to_strategy = Map.empty, br_strategy_id = 0\<rparr>))"

lemmas Bridge_requests = Bridge_create_order_def Bridge_modify_order_def Bridge_cancel_order_def core_send_def find_source_def

section \<open>Routing invariant\<close>

text \<open>
  An order has a source exactly because a create request was sent there; every later request
  about it went to the same source; and the counter is above every order the bridge routes.
\<close>

definition core_inv :: "('g, 'm) bridge_core \<Rightarrow> bool" where
  "core_inv w \<longleftrightarrow>
     (\<forall>i src. br_order_id_to_source w i = Some src \<longrightarrow>
        i \<le> br_max_order_id w \<and> (\<exists>c. (CreateOrder c, src) \<in> set (br_sent w) \<and> co_order_id c = i)) \<and>
     (\<forall>m src. (ModifyOrder m, src) \<in> set (br_sent w) \<longrightarrow> br_order_id_to_source w (mo_order_id m) = Some src) \<and>
     (\<forall>c src. (CancelOrder c, src) \<in> set (br_sent w) \<longrightarrow> br_order_id_to_source w (ca_order_id c) = Some src)"

lemma create_core:
  assumes "Bridge_create_order dbg D c w = Inr w'"
  shows "core_inv w \<Longrightarrow> core_inv w'" "br_max_order_id w' = max (br_max_order_id w) (co_order_id c)"
    "co_order_id c \<in> dom (br_order_id_to_source w')"
    "br_order_id_to_source w i = Some src \<Longrightarrow> br_order_id_to_source w' i = Some src"
    "\<exists>src. br_sent w' = br_sent w @ [(CreateOrder c, src)]"
proof -
  obtain r where r: "find_route (br_routes w) (co_exchange c) (co_symbol c) = Some r"
    using assms by (auto simp: Bridge_create_order_def result_Inr Let_def split: option.splits)
  let ?src = "Route_get_source r"
  have w': "w' = w\<lparr>br_max_order_id := max (br_max_order_id w) (co_order_id c),
      br_order_id_to_source := (if co_order_id c \<in> dom (br_order_id_to_source w) then br_order_id_to_source w
         else (br_order_id_to_source w)(co_order_id c \<mapsto> ?src)),
      br_sent := br_sent w @ [(CreateOrder c, ?src)]\<rparr>"
    using assms r
    by (cases "co_order_id c \<in> dom (br_order_id_to_source w)")
      (simp_all add: Bridge_create_order_def core_send_def result_Inr Let_def split: option.splits)
  show "br_max_order_id w' = max (br_max_order_id w) (co_order_id c)"
    "\<exists>src. br_sent w' = br_sent w @ [(CreateOrder c, src)]" by (simp_all add: w')
  show "co_order_id c \<in> dom (br_order_id_to_source w')" by (auto simp: w')
  have keep: "br_order_id_to_source w' i = Some src" if "br_order_id_to_source w i = Some src" for i src
    using that by (auto simp: w')
  then show "br_order_id_to_source w i = Some src \<Longrightarrow> br_order_id_to_source w' i = Some src" .
  assume inv: "core_inv w"
  show "core_inv w'"
    unfolding core_inv_def
  proof (intro conjI allI impI)
    fix i src
    assume "br_order_id_to_source w' i = Some src"
    then have "br_order_id_to_source w i = Some src \<or> i = co_order_id c \<and> src = ?src"
      by (auto simp: w' split: if_splits)
    then show "i \<le> br_max_order_id w'" "\<exists>c. (CreateOrder c, src) \<in> set (br_sent w') \<and> co_order_id c = i"
      using inv by (force simp: w' core_inv_def le_max_iff_disj)+
  next
    fix m src
    assume "(ModifyOrder m, src) \<in> set (br_sent w')"
    then have "(ModifyOrder m, src) \<in> set (br_sent w)" by (simp add: w')
    then show "br_order_id_to_source w' (mo_order_id m) = Some src" using inv keep by (simp add: core_inv_def)
  next
    fix m src
    assume "(CancelOrder m, src) \<in> set (br_sent w')"
    then have "(CancelOrder m, src) \<in> set (br_sent w)" by (simp add: w')
    then show "br_order_id_to_source w' (ca_order_id m) = Some src" using inv keep by (simp add: core_inv_def)
  qed
qed

lemma modify_core:
  assumes "Bridge_modify_order dbg D m w = Inr w'"
  shows "core_inv w \<Longrightarrow> core_inv w'" "br_order_id_to_source w' = br_order_id_to_source w"
    "br_max_order_id w' = max (br_max_order_id w) (mo_order_id m)"
    "\<exists>src. br_sent w' = br_sent w @ [(ModifyOrder m, src)]"
proof -
  obtain src where src: "br_order_id_to_source w (mo_order_id m) = Some src"
    using assms by (auto simp: Bridge_modify_order_def find_source_def result_Inr Let_def split: option.splits)
  have w': "w' = w\<lparr>br_max_order_id := max (br_max_order_id w) (mo_order_id m), br_sent := br_sent w @ [(ModifyOrder m, src)]\<rparr>"
    using assms src by (auto simp: Bridge_modify_order_def find_source_def core_send_def result_Inr Let_def split: option.splits)
  show "br_order_id_to_source w' = br_order_id_to_source w" "br_max_order_id w' = max (br_max_order_id w) (mo_order_id m)"
    "\<exists>src. br_sent w' = br_sent w @ [(ModifyOrder m, src)]" by (simp_all add: w')
  show "core_inv w \<Longrightarrow> core_inv w'" unfolding core_inv_def w' using src by (fastforce simp: max_def)
qed

lemma known_le_max: "core_inv w \<Longrightarrow> i \<in> dom (br_order_id_to_source w) \<Longrightarrow> i \<le> br_max_order_id w"
  by (auto simp: core_inv_def)

interpretation bridge_dispatcher: order_dispatcher "bridge_context dbg D"
  "\<lambda>w i. i \<in> dom (br_order_id_to_source w)" core_inv for dbg D
proof (unfold_locales, goal_cases)
  case (1 c w w')
  then show ?case using create_core(3) by (simp add: bridge_context_def)
next
  case (2 c w w' i)
  then show ?case using create_core(4) by (fastforce simp: bridge_context_def)
next
  case (3 m w w' i)
  then show ?case using modify_core(2) by (fastforce simp: bridge_context_def)
next
  case (4 w c w')
  then show ?case using create_core(1) by (simp add: bridge_context_def)
next
  case (5 w m w')
  then show ?case using modify_core(1) by (simp add: bridge_context_def)
next
  case (6 w m)
  then show ?case
    by (auto simp: bridge_context_def Bridge_modify_order_def find_source_def core_send_def assert_then_def Let_def
        split: option.splits)
next
  case (7 w)
  then have "br_max_order_id w \<noteq> - 1" by (auto simp: bridge_context_def)
  then have "br_max_order_id w < br_max_order_id w + 1" by (rule word_less_plus_one)
  then show ?case using known_le_max [OF 7(1)] by (fastforce simp: bridge_context_def)
qed

section \<open>One strategy\<close>

text \<open>Unless the order id counter has reached its maximum, at most one order was created, and
  none while the order manager has no order id.\<close>

definition pair_inv :: "('g, 'm) bridge_core \<Rightarrow> Spread \<Rightarrow> bool" where
  "pair_inv w s \<longleftrightarrow> core_inv w \<and> (br_max_order_id w \<noteq> - 1 \<longrightarrow>
     length (created_ids (br_sent w)) \<le> 1 \<and> (spread_oid s = 0 \<longrightarrow> created_ids (br_sent w) = []))"

lemma max_top: "max a b \<noteq> (- 1 :: u64) \<Longrightarrow> a \<noteq> - 1"
  by (metis max.absorb1 word_order.extremum)

lemma handle_pair_inv:
  assumes inv: "pair_inv w s"
    and step: "Spread_handle dbg U C (bridge_context dbg D) info msg (w, s) = Inr (w', s')"
  shows "pair_inv w' s'"
proof -
  from spread_handle_acts [OF step] consider "w' = w" "spread_oid s' = spread_oid s"
    | c where "spread_oid s = 0" "spread_oid s' = br_max_order_id w + 1" "Bridge_create_order dbg D c w = Inr w'"
        "co_order_id c = br_max_order_id w + 1"
    | m where "spread_oid s \<noteq> 0" "spread_oid s' = spread_oid s" "Bridge_modify_order dbg D m w = Inr w'"
    by (auto simp: spread_acts_def bridge_context_def)
  then show ?thesis
  proof cases
    case 1
    then show ?thesis using inv by (simp add: pair_inv_def)
  next
    case 2
    note c = create_core [OF 2(3)]
    have "length (created_ids (br_sent w')) \<le> 1 \<and> spread_oid s' \<noteq> 0" if top: "br_max_order_id w' \<noteq> - 1"
    proof -
      have "br_max_order_id w \<noteq> - 1" using top c(2) max_top by metis
      then show ?thesis
        using inv 2(1,2) c(5) word_less_plus_one [of "br_max_order_id w"]
        by (auto simp: pair_inv_def word_less_nat_alt)
    qed
    then show ?thesis using inv c(1) by (auto simp: pair_inv_def)
  next
    case 3
    note m = modify_core [OF 3(3)]
    have "br_max_order_id w \<noteq> - 1" if "br_max_order_id w' \<noteq> - 1" using that m(3) max_top by metis
    then show ?thesis using inv m(1,4) 3(1,2) by (auto simp: pair_inv_def)
  qed
qed

definition Bridge_inv :: "('g, 'm) Bridge \<Rightarrow> bool" where
  "Bridge_inv b \<longleftrightarrow> (\<exists>i s. br_strategies b = [(i, s)] \<and> pair_inv (br_core b) s)"

lemma pair_inv_cong:
  assumes "pair_inv w s" "br_order_id_to_source w' = br_order_id_to_source w" "br_sent w' = br_sent w"
    and "br_max_order_id w' = max (br_max_order_id w) x \<or> br_max_order_id w' = br_max_order_id w"
  shows "pair_inv w' s"
proof -
  have "br_max_order_id w \<noteq> - 1" if "br_max_order_id w' \<noteq> - 1" using that assms(4) max_top by metis
  moreover have le: "br_max_order_id w \<le> br_max_order_id w'" using assms(4) by auto
  have "core_inv w" using assms(1) by (simp add: pair_inv_def)
  then have "core_inv w'" unfolding core_inv_def assms(2,3) using le order_trans by blast
  ultimately show ?thesis using assms(1,3) by (auto simp: pair_inv_def)
qed

lemma to_strategy_inv:
  assumes "Bridge_inv b" "Bridge_to_strategy dbg U C D info msg k b = Inr b'" "k < length (br_strategies b)"
  shows "Bridge_inv b'"
proof -
  obtain i s where b: "br_strategies b = [(i, s)]" "pair_inv (br_core b) s" using assms(1) by (auto simp: Bridge_inv_def)
  then have k: "k = 0" using assms(3) by simp
  obtain w s' where "Spread_handle dbg U C (bridge_context dbg D) info msg (br_core b, s) = Inr (w, s')"
      "b' = b\<lparr>br_core := w, br_strategies := [(i, s')]\<rparr>"
    using assms(2) b(1) k by (auto simp: Bridge_to_strategy_def result_Inr)
  then show ?thesis using handle_pair_inv [OF b(2)] by (auto simp: Bridge_inv_def)
qed

lemma Bridge_inv_length: "Bridge_inv b \<Longrightarrow> length (br_strategies b) = 1"
  by (auto simp: Bridge_inv_def)

lemma to_strategies_inv:
  "Bridge_inv b \<Longrightarrow> Bridge_to_strategies dbg U C D info msg ks b = Inr b' \<Longrightarrow> \<forall>k \<in> set ks. k < 1 \<Longrightarrow> Bridge_inv b'"
proof (induction ks arbitrary: b)
  case (Cons k ks)
  then obtain b1 where b1: "Bridge_to_strategy dbg U C D info msg k b = Inr b1"
      "Bridge_to_strategies dbg U C D info msg ks b1 = Inr b'" by (auto simp: result_Inr)
  have "k < length (br_strategies b)" using Cons.prems(1,3) Bridge_inv_length by fastforce
  then show ?case using Cons.IH [OF to_strategy_inv [OF Cons.prems(1) b1(1)] b1(2)] Cons.prems(3) by simp
qed simp

lemma strategy_position_less: "strategy_position ss i = Some k \<Longrightarrow> k < length ss"
proof -
  assume pos: "strategy_position ss i = Some k"
  then have k: "k = length (takeWhile (\<lambda>s. fst s \<noteq> i) ss)" and "\<exists>s \<in> set ss. fst s = i"
    by (auto simp: strategy_position_def split: if_splits)
  then have "takeWhile (\<lambda>s. fst s \<noteq> i) ss \<noteq> ss" by (auto simp: takeWhile_eq_all_conv)
  then show "k < length ss" unfolding k using length_takeWhile_le takeWhile_eq_take
    by (metis le_neq_implies_less take_all_iff order_refl)
qed

lemma to_route_inv:
  "Bridge_inv b \<Longrightarrow> Bridge_to_route dbg U C D info msg is b = Inr b' \<Longrightarrow> Bridge_inv b'"
proof (induction "is" arbitrary: b)
  case (Cons i "is")
  then obtain b1 where step: "(case strategy_position (br_strategies b) i of
        None \<Rightarrow> assert_then dbg False (Inr b) | Some k \<Rightarrow> Bridge_to_strategy dbg U C D info msg k b) = Inr b1"
      and b1: "Bridge_to_route dbg U C D info msg is b1 = Inr b'" by (auto simp: result_Inr)
  have "Bridge_inv b1"
  proof (cases "strategy_position (br_strategies b) i")
    case None
    then show ?thesis using step Cons.prems(1) by (simp add: result_Inr)
  next
    case (Some k)
    then show ?thesis using step to_strategy_inv [OF Cons.prems(1)] strategy_position_less [OF Some] by auto
  qed
  then show ?case using Cons.IH b1 by blast
qed simp

lemma core_change_inv:
  assumes "Bridge_inv b" "br_order_id_to_source w = br_order_id_to_source (br_core b)" "br_sent w = br_sent (br_core b)"
    and "br_max_order_id w = max (br_max_order_id (br_core b)) x \<or> br_max_order_id w = br_max_order_id (br_core b)"
  shows "Bridge_inv (b\<lparr>br_core := w\<rparr>)"
proof -
  obtain i s where "br_strategies b = [(i, s)]" "pair_inv (br_core b) s" using assms(1) by (auto simp: Bridge_inv_def)
  moreover from this(2) have "pair_inv w s" by (rule pair_inv_cong [OF _ assms(2-4)])
  ultimately show ?thesis by (simp add: Bridge_inv_def)
qed

lemma on_gateway_inv:
  assumes "Bridge_inv b" "Bridge_on_gateway dbg U C D info msg b = Inr b'"
  shows "Bridge_inv b'"
proof -
  obtain g where *: "b' = b\<lparr>br_core := (br_core b)\<lparr>br_gateways := g\<rparr>\<rparr> \<or>
      Bridge_to_strategies dbg U C D info msg [0..<length (br_strategies b)] (b\<lparr>br_core := (br_core b)\<lparr>br_gateways := g\<rparr>\<rparr>) = Inr b'"
    using assms(2) by (auto simp: Bridge_on_gateway_def Let_def split: prod.splits if_splits)
  have "Bridge_inv (b\<lparr>br_core := (br_core b)\<lparr>br_gateways := g\<rparr>\<rparr>)" using assms(1) by (rule core_change_inv) simp_all
  then show ?thesis using * to_strategies_inv Bridge_inv_length [OF assms(1)] by fastforce
qed

lemma dispatch_inv:
  assumes "Bridge_inv b" "Bridge_dispatch dbg U C D info exchange symbol msg b = Inr b'"
  shows "Bridge_inv b'"
proof (cases "find_route (br_routes (br_core b)) exchange symbol")
  case None
  then show ?thesis using assms by (auto simp: Bridge_dispatch_def result_Inr)
next
  case (Some r)
  then obtain rs where *: "b' = b\<lparr>br_core := (br_core b)\<lparr>br_routes := rs\<rparr>\<rparr> \<or>
      Bridge_to_route dbg U C D info msg (rt_strategies r) (b\<lparr>br_core := (br_core b)\<lparr>br_routes := rs\<rparr>\<rparr>) = Inr b'"
    using assms(2) by (auto simp: Bridge_dispatch_def Let_def split: prod.splits if_splits)
  have "Bridge_inv (b\<lparr>br_core := (br_core b)\<lparr>br_routes := rs\<rparr>\<rparr>)" using assms(1) by (rule core_change_inv) simp_all
  then show ?thesis using * to_route_inv by blast
qed

lemma on_order_inv:
  assumes "Bridge_inv b" "Bridge_on_order dbg U C D info msg order_id routing_id b = Inr b'"
  shows "Bridge_inv b'"
proof -
  let ?b = "b\<lparr>br_core := (br_core b)\<lparr>br_max_order_id := max (br_max_order_id (br_core b)) order_id\<rparr>\<rparr>"
  obtain k where k: "find_strategy ?b routing_id = Some k" "Bridge_to_strategy dbg U C D info msg k ?b = Inr b'"
    using assms(2) by (auto simp: Bridge_on_order_def Let_def split: option.splits)
  have "k < length (br_strategies ?b)" using k(1) strategy_position_less by (fastforce simp: find_strategy_def split: option.splits)
  moreover have "Bridge_inv ?b" using assms(1) by (rule core_change_inv) auto
  ultimately show ?thesis using to_strategy_inv k(2) by blast
qed

lemma Bridge_step_inv:
  assumes "Bridge_inv b" "Bridge_step dbg U C b (D, info, msg) = Inr b'"
  shows "Bridge_inv b'"
proof -
  have dl: "Bridge_inv (b\<lparr>br_core := (br_core b)\<lparr>br_max_order_id := max (br_max_order_id (br_core b)) x\<rparr>\<rparr>)" for x
    using assms(1) by (rule core_change_inv) auto
  have all: "\<forall>k \<in> set [0..<length (br_strategies b)]. k < 1" using Bridge_inv_length [OF assms(1)] by simp
  show ?thesis
    using assms on_gateway_inv [OF dl] on_gateway_inv [OF assms(1)] dispatch_inv [OF assms(1)] on_order_inv [OF assms(1)]
      to_strategies_inv [OF assms(1) _ all]
    by (cases msg) auto
qed

interpretation bridge_machine: event_machine "Bridge_step dbg U C" Bridge_inv for dbg U C
proof
  fix b e b'
  assume "Bridge_inv b" "Bridge_step dbg U C b e = Inr b'"
  then show "Bridge_inv b'" using Bridge_step_inv by (cases e) blast
qed

lemma Bridge_new_inv:
  assumes "Bridge_new dbg U C encode gateways settings config = Inr b"
  shows "Bridge_inv b"
proof -
  obtain s routes factories i rm sid where "b = \<lparr>br_core = \<lparr>br_routes = routes, br_gateways = gateways, br_max_order_id = 0,
      br_order_id_to_source = Map.empty, br_sent = []\<rparr>,
      br_factories = factories, br_strategies = [(i, s)], br_routing_id_to_strategy = rm, br_strategy_id = sid\<rparr>"
    using assms by (auto simp: Bridge_new_def Bridge_create_strategy_def result_Inr Let_def split: option.splits)
  then show ?thesis by (simp add: Bridge_inv_def pair_inv_def core_inv_def)
qed

end
