(* ===== verification/Algo_Props.thy ===== *)
theory Algo_Props
  imports Algo_Bridge
begin

text \<open>
  Properties of the algo prototype as a whole: from a parsed configuration to its bridge, and
  from the construction of the bridge to every request it sends.
\<close>

section \<open>Routes of a configuration\<close>

lemma find_set_route:
  "find_route (set_route e s r routes) e' s' = (if e' = e \<and> s' = s then Some r else find_route routes e' s')"
  by (auto simp: find_route_def set_route_def split: option.splits)

lemma create_symbol_routes_ok:
  "distinct symbols \<Longrightarrow> \<forall>s \<in> set symbols. find_route (snd acc) exchange s = None \<Longrightarrow>
     \<exists>acc'. create_symbol_routes dbg C exchange symbols acc = Inr acc' \<and>
       (\<forall>e s. find_route (snd acc') e s \<noteq> None \<longleftrightarrow>
          find_route (snd acc) e s \<noteq> None \<or> e = exchange \<and> s \<in> set symbols)"
proof (induction symbols arbitrary: acc)
  case (Cons x xs)
  obtain k routes where acc: "acc = (k, routes)" by (cases acc)
  let ?acc = "(k + 1, set_route exchange x (Route_new C (k + 1) exchange x) routes)"
  have "\<forall>s \<in> set xs. find_route (snd ?acc) exchange s = None" using Cons.prems acc by (auto simp: find_set_route)
  with Cons.IH [of ?acc] Cons.prems(1) obtain acc' where
      acc': "create_symbol_routes dbg C exchange xs ?acc = Inr acc'"
      "\<forall>e s. find_route (snd acc') e s \<noteq> None \<longleftrightarrow> find_route (snd ?acc) e s \<noteq> None \<or> e = exchange \<and> s \<in> set xs"
    by auto
  have "create_symbol_routes dbg C exchange (x # xs) acc = Inr acc'"
    using Cons.prems acc acc'(1) by simp
  moreover have "\<forall>e s. find_route (snd acc') e s \<noteq> None \<longleftrightarrow>
      find_route (snd acc) e s \<noteq> None \<or> e = exchange \<and> s \<in> set (x # xs)"
    using acc'(2) acc by (auto simp: find_set_route)
  ultimately show ?case by blast
qed simp

lemma create_routes_loop_ok:
  "distinct (map fst ess) \<Longrightarrow> \<forall>(e, ss) \<in> set ess. distinct ss \<and> (\<forall>s \<in> set ss. find_route (snd acc) e s = None) \<Longrightarrow>
     \<exists>routes. create_routes_loop dbg C ess acc = Inr routes \<and>
       (\<forall>e s. find_route routes e s \<noteq> None \<longleftrightarrow> find_route (snd acc) e s \<noteq> None \<or> has_symbol ess e s)"
proof (induction ess arbitrary: acc)
  case (Cons x xs)
  obtain e ss where x: "x = (e, ss)" by (cases x)
  obtain acc' where acc': "create_symbol_routes dbg C e ss acc = Inr acc'"
      "\<forall>e' s. find_route (snd acc') e' s \<noteq> None \<longleftrightarrow> find_route (snd acc) e' s \<noteq> None \<or> e' = e \<and> s \<in> set ss"
    using create_symbol_routes_ok [of ss acc e dbg C] Cons.prems(2) x by auto
  have "\<forall>(e', ss') \<in> set xs. distinct ss' \<and> (\<forall>s \<in> set ss'. find_route (snd acc') e' s = None)"
  proof (clarify)
    fix e' ss'
    assume in_xs: "(e', ss') \<in> set xs"
    then have "e' \<noteq> e" using Cons.prems(1) x by force
    moreover have "distinct ss' \<and> (\<forall>s \<in> set ss'. find_route (snd acc) e' s = None)"
      using bspec [OF Cons.prems(2), of "(e', ss')"] in_xs by simp
    ultimately show "distinct ss' \<and> (\<forall>s \<in> set ss'. find_route (snd acc') e' s = None)"
      using acc'(2) by blast
  qed
  with Cons.IH [of acc'] Cons.prems(1) obtain routes where r: "create_routes_loop dbg C xs acc' = Inr routes"
      "\<forall>e s. find_route routes e s \<noteq> None \<longleftrightarrow> find_route (snd acc') e s \<noteq> None \<or> has_symbol xs e s"
    by auto
  have key: "map_of xs e = None" using Cons.prems(1) x by (simp add: map_of_eq_None_iff)
  have "has_symbol (x # xs) e' s \<longleftrightarrow> e' = e \<and> s \<in> set ss \<or> has_symbol xs e' s" for e' s
    using x key by (auto simp: has_symbol_def)
  then show ?case using r acc' x by (intro exI [of _ routes]) auto
qed (auto simp: has_symbol_def)

lemma add_symbol_keys:
  "set (map fst (add_symbol e s es)) = insert e (set (map fst es))"
  by (induction es) auto

lemma add_symbol_distinct:
  "distinct (map fst es) \<Longrightarrow> \<forall>(e, ss) \<in> set es. distinct ss \<Longrightarrow>
     distinct (map fst (add_symbol e s es)) \<and> (\<forall>(e, ss) \<in> set (add_symbol e s es). distinct ss)"
proof (induction es)
  case (Cons x xs)
  then show ?case using add_symbol_keys [of e s xs] by (auto split: prod.splits)
qed simp

lemma extract_symbols_distinct:
  "distinct (map fst (extract_symbols strategies)) \<and> (\<forall>(e, ss) \<in> set (extract_symbols strategies). distinct ss)"
proof -
  have *: "distinct (map fst es) \<Longrightarrow> \<forall>(e, ss) \<in> set es. distinct ss \<Longrightarrow>
    distinct (map fst (fold (\<lambda>i. add_symbol (ai_exchange i) (ai_symbol i)) is es)) \<and>
    (\<forall>(e, ss) \<in> set (fold (\<lambda>i. add_symbol (ai_exchange i) (ai_symbol i)) is es). distinct ss)" for "is" es
  proof (induction "is" arbitrary: es)
    case (Cons a "is")
    note d = add_symbol_distinct [OF Cons.prems, of "ai_exchange a" "ai_symbol a"]
    show ?case unfolding fold_simps by (rule Cons.IH [OF conjunct1 [OF d] conjunct2 [OF d]])
  qed simp
  show ?thesis unfolding extract_symbols_def by (rule *) simp_all
qed

lemma Config_new_symbols:
  assumes "Config_new account doc = Inr config"
  shows "pc_exchange_symbols config = extract_symbols (pc_strategies config)"
  using assms by (auto simp: Config_new_def result_Inr split: option.splits)

lemma collect_all: "\<forall>x \<in> set xs. \<exists>y. f x = Inr y \<Longrightarrow> \<exists>ys. collect f xs = Inr ys"
  by (induction xs) auto

text \<open>A configuration that parses gives routes for exactly its symbols.\<close>

lemma Config_routes:
  fixes C :: "('g, 'm, 'u) algo_cache"
  assumes "Config_new account doc = Inr config"
  shows "\<exists>routes. create_routes dbg C config = Inr routes \<and>
    (\<forall>e s. find_route routes e s \<noteq> None \<longleftrightarrow> has_symbol (pc_exchange_symbols config) e s)"
proof -
  note sym = Config_new_symbols [OF assms]
  have "\<forall>(e, ss) \<in> set (pc_exchange_symbols config). distinct ss \<and> (\<forall>s \<in> set ss. find_route (snd (0 :: u32, Map.empty :: 'm routes)) e s = None)"
    using extract_symbols_distinct [of "pc_strategies config"] sym by (auto simp: find_route_def)
  moreover have "distinct (map fst (pc_exchange_symbols config))"
    using extract_symbols_distinct [of "pc_strategies config"] sym by simp
  ultimately obtain routes where "create_routes dbg C config = Inr routes"
      "\<forall>e s. find_route routes e s \<noteq> None \<longleftrightarrow>
         find_route (snd (0 :: u32, Map.empty :: 'm routes)) e s \<noteq> None \<or> has_symbol (pc_exchange_symbols config) e s"
    unfolding create_routes_def using create_routes_loop_ok [of "pc_exchange_symbols config" "(0, Map.empty)" dbg C] by blast
  then show ?thesis by (auto simp: find_route_def)
qed

section \<open>A concrete session\<close>

definition proto_demo_doc :: toml where
  "proto_demo_doc = T_table [(''strategies'', T_table [(''S1'', T_table [(''type'', T_string ''spread''),
     (''instruments'', T_array [
        T_table [(''exchange'', T_string ''deribit''), (''symbol'', T_string ''X''), (''weight'', T_float (Fin 1))],
        T_table [(''exchange'', T_string ''deribit''), (''symbol'', T_string ''Y''), (''weight'', T_float (Fin (- 1)))]])])])]"

definition proto_demo_config :: proto_config where
  "proto_demo_config = \<lparr>pc_account = ''A1'',
     pc_strategies = [(''S1'', \<lparr>ac_type = ''spread'', ac_instruments =
        [\<lparr>ai_exchange = ''deribit'', ai_symbol = ''X'', ai_weight = Fin 1\<rparr>,
         \<lparr>ai_exchange = ''deribit'', ai_symbol = ''Y'', ai_weight = Fin (- 1)\<rparr>]\<rparr>)],
     pc_exchange_symbols = [(''deribit'', [''Y'', ''X''])]\<rparr>"

lemma proto_demo_parsed: "Config_new ''A1'' proto_demo_doc = Inr proto_demo_config"
  by (simp add: Config_new_def toml_find_def proto_demo_doc_def proto_demo_config_def parse_strategy_def parse_instruments_def
      parse_instrument_def toml_table_def toml_array_def toml_string_def toml_float_def extract_symbols_def)

definition proto_demo_settings :: proto_settings where
  "proto_demo_settings = \<lparr>pp_account = ''A1'', pp_strategy = ''S1'', pp_side = ''BUY'', pp_quantity = Fin 1, pp_price = Fin 5\<rparr>"

definition proto_demo_new :: "(unit, layer option) Bridge result" where
  "proto_demo_new = Bridge_new True exact_utils demo_cache (\<lambda>i. ''id'') [()] proto_demo_settings proto_demo_config"

definition proto_depth :: "string \<Rightarrow> rat \<Rightarrow> layer client_event" where
  "proto_depth symbol p = (accept_all, \<lparr>source = 0, receive_time = 0, origin_create_time = 0\<rparr>,
     MarketByPriceUpdate \<lparr>bu_exchange = ''deribit'', bu_symbol = symbol, bu_update_type = SNAPSHOT, bu_content =
       \<lparr>bid_price = Fin p, bid_quantity = Fin 1, ask_price = Fin (p + 1), ask_quantity = Fin 1\<rparr>\<rparr>)"

text \<open>Depth of both markets, everything available, and the second market moves.\<close>

definition proto_demo_events :: "layer client_event list" where
  "proto_demo_events = [proto_depth ''X'' 10, proto_depth ''Y'' 20,
     (accept_all, \<lparr>source = 0, receive_time = 0, origin_create_time = 0\<rparr>,
      GatewayStatus \<lparr>gs_account = [], available = {}, unavailable = {}\<rparr>), proto_depth ''Y'' 21]"

lemmas proto_eval = proto_demo_new_def proto_demo_config_def proto_demo_settings_def proto_demo_events_def proto_depth_def
  Bridge_new_def create_routes_def create_factories_def Bridge_create_strategy_def Bridge_order_def side_cast_def Factory_create_def
  Spread_new_def Bridge_dispatch_def Bridge_on_gateway_def Bridge_to_strategy_def strategy_position_def
  algo_market_apply_def algo_market_new_def bridge_context_def Bridge_requests Route_new_def Route_add_def
  Route_get_source_def find_set_route find_route_def [of Map.empty] accept_all_def demo_spread_eval List.insert_def

lemma proto_demo_run:
  "\<exists>b b'. proto_demo_new = Inr b \<and> run (Bridge_step True exact_utils demo_cache) b proto_demo_events = Inr b' \<and>
     map (\<lambda>(r, src). (case r of CreateOrder c \<Rightarrow> co_order_id c | ModifyOrder m \<Rightarrow> mo_order_id m | _ \<Rightarrow> 0, src)) (br_sent (br_core b'))
       = [(1, 0), (1, 0)] \<and> br_max_order_id (br_core b') \<noteq> - 1"
  by (simp add: proto_eval)


section \<open>Properties\<close>

text \<open>
  A configuration that parses is complete: the routes can be created from it (the assertion
  that no route exists twice holds), and the market of every instrument of every strategy has a
  route, so the factories can be created and the error branch is not reached.
\<close>

theorem Config_routes_complete:
  fixes C :: "('g, 'm, 'u) algo_cache"
  assumes "Config_new account doc = Inr config"
  shows "\<exists>routes factories. create_routes dbg C config = Inr routes \<and>
    create_factories config routes = Inr factories"
proof -
  note sym = Config_new_symbols [OF assms]
  obtain routes where r: "create_routes dbg C config = Inr routes"
      "\<forall>e s. find_route routes e s \<noteq> None \<longleftrightarrow> has_symbol (pc_exchange_symbols config) e s"
    using Config_routes [OF assms, of dbg C] by blast
  have "\<forall>x \<in> set (pc_strategies config). \<exists>y. (\<lambda>(symbol, strategy).
      if \<forall>i \<in> set (ac_instruments strategy). find_route routes (ai_exchange i) (ai_symbol i) \<noteq> None
      then Inr (symbol, ac_type strategy, ac_instruments strategy) else Inl Fatal) x = Inr y"
    using extract_symbols_has r(2) sym by fastforce
  from collect_all [OF this] show ?thesis using r(1) by (auto simp: create_factories_def)
qed

theorem Config_routes_complete_witness:
  "\<exists>routes factories. create_routes True demo_cache proto_demo_config = Inr routes \<and>
     create_factories proto_demo_config routes = Inr factories"
  by (rule Config_routes_complete [OF proto_demo_parsed])

text \<open>
  C26: Every request to modify or cancel an order that the bridge ever sends goes to a source
  to which a create request for the same order was sent.
\<close>

theorem Bridge_requests_routed:
  assumes "Bridge_new dbg U C encode gateways settings config = Inr b" "run (Bridge_step dbg U C) b es = Inr b'"
    and "(ModifyOrder m, src) \<in> set (br_sent (br_core b')) \<and> i = mo_order_id m \<or>
         (CancelOrder k, src) \<in> set (br_sent (br_core b')) \<and> i = ca_order_id k"
  shows "\<exists>c. (CreateOrder c, src) \<in> set (br_sent (br_core b')) \<and> co_order_id c = i"
proof -
  have "Bridge_inv b'" using bridge_machine.run_inv [OF Bridge_new_inv [OF assms(1)] assms(2)] .
  then have "core_inv (br_core b')" by (auto simp: Bridge_inv_def pair_inv_def)
  then show ?thesis using assms(3) unfolding core_inv_def by blast
qed

theorem Bridge_requests_routed_witness:
  "\<exists>b b' m c. proto_demo_new = Inr b \<and> run (Bridge_step True exact_utils demo_cache) b proto_demo_events = Inr b' \<and>
     (ModifyOrder m, 0) \<in> set (br_sent (br_core b')) \<and> (CreateOrder c, 0) \<in> set (br_sent (br_core b')) \<and>
     co_order_id c = mo_order_id m"
proof -
  obtain b b' m where b: "proto_demo_new = Inr b" "run (Bridge_step True exact_utils demo_cache) b proto_demo_events = Inr b'"
      "(ModifyOrder m, 0) \<in> set (br_sent (br_core b'))"
    by (simp add: proto_eval)
  from Bridge_requests_routed [OF b(1) [unfolded proto_demo_new_def] b(2), of m 0 "mo_order_id m"] b show ?thesis by blast
qed

text \<open>
  The prototype creates at most one order in its life (as long as the order id counter has
  not reached its maximum): its order manager never forgets the order id, so after the order is
  completed or rejected it goes on modifying it.
\<close>

theorem Bridge_creates_one_order:
  assumes "Bridge_new dbg U C encode gateways settings config = Inr b" "run (Bridge_step dbg U C) b es = Inr b'"
    and "br_max_order_id (br_core b') \<noteq> - 1"
  shows "length (created_ids (br_sent (br_core b'))) \<le> 1"
proof -
  have "Bridge_inv b'" using bridge_machine.run_inv [OF Bridge_new_inv [OF assms(1)] assms(2)] .
  then show ?thesis using assms(3) by (auto simp: Bridge_inv_def pair_inv_def)
qed

theorem Bridge_creates_one_order_witness:
  "\<exists>b b'. proto_demo_new = Inr b \<and> run (Bridge_step True exact_utils demo_cache) b proto_demo_events = Inr b' \<and>
     length (created_ids (br_sent (br_core b'))) \<le> 1"
proof -
  obtain b b' where b: "proto_demo_new = Inr b" "run (Bridge_step True exact_utils demo_cache) b proto_demo_events = Inr b'"
      "br_max_order_id (br_core b') \<noteq> - 1"
    using proto_demo_run by blast
  then show ?thesis using Bridge_creates_one_order [OF b(1) [unfolded proto_demo_new_def] b(2,3)] by blast
qed

end
