(* ===== verification/Maker_Quote.thy ===== *)
theory Maker_Quote
  imports Roq_API
begin

text \<open>
  The market maker (\<open>maker/main.cpp\<close>), first half: the request rate limiter (\<open>Shared\<close>) and
  the state machine of one quote (\<open>Quote\<close>). Requests are logged in \<open>mk_sent\<close> with the
  \<open>origin_create_time\<close> of the event in which they were sent.
  Shown here: what the limiter guarantees of the requests it lets through, and the two ways in
  which it (and the flag it is used with) can go wrong.
\<close>

section \<open>Constants and types\<close>

definition MAKER_ACCOUNT :: string where "MAKER_ACCOUNT = ''A1''"

definition MAKER_EXCHANGE :: string where "MAKER_EXCHANGE = ''deribit''"

definition MAKER_SYMBOL :: string where "MAKER_SYMBOL = ''BTC-PERPETUAL''"

definition SPREAD :: double where "SPREAD = Fin (3/2)"

definition QUANTITY :: double where "QUANTITY = Fin 1"

definition REQUEST_LIMIT :: nat where "REQUEST_LIMIT = 10"

definition MONITOR_PERIOD :: nanoseconds where "MONITOR_PERIOD = seconds 2"

datatype quote_state = Quote_UNDEFINED | Quote_CREATE | Quote_MODIFY | Quote_CANCEL | Quote_WORKING

datatype maker_state = Maker_UNDEFINED | Maker_CANCEL_ALL | Maker_QUOTE

text \<open>The helpers the program uses beside those of \<open>utils\<close>.\<close>

record maker_utils = utils +
  update_quote_state :: "quote_state \<Rightarrow> quote_state \<Rightarrow> bool \<times> quote_state"
  update_maker_state :: "maker_state \<Rightarrow> maker_state \<Rightarrow> bool \<times> maker_state"
  round_away :: "side \<Rightarrow> double \<Rightarrow> double \<Rightarrow> double"

definition maker_updates_ok :: "'m maker_utils_scheme \<Rightarrow> bool" where
  "maker_updates_ok U \<longleftrightarrow> updates_ok U \<and> update_law (update_quote_state U) \<and>
     update_law (update_maker_state U)"

text \<open>\<open>round_away\<close> moves the price of a resting order away from the other side of the market.\<close>

definition round_away_ok :: "'m maker_utils_scheme \<Rightarrow> bool" where
  "round_away_ok U \<longleftrightarrow> (\<forall>p t. is_finite p \<and> dlt (Fin 0) t \<longrightarrow>
     dle (round_away U BUY p t) p \<and> dle p (round_away U SELL p t))"

definition exact_maker_utils :: maker_utils where
  "exact_maker_utils = utils.extend exact_utils \<lparr>
     update_quote_state = (\<lambda>c v. (c \<noteq> v, v)), update_maker_state = (\<lambda>c v. (c \<noteq> v, v)),
     round_away = (\<lambda>s p t. p)\<rparr>"

section \<open>Shared state and the rate limiter\<close>

record maker_shared =
  mk_max_order_id :: u64
  mk_position :: double
  mk_history :: "nanoseconds list"
  mk_sent :: "(nanoseconds \<times> request \<times> u8) list"

record Quote =
  mq_side :: side
  mq_target_price :: double
  mq_update_order :: bool
  mq_order_id :: u64
  mq_limit_price :: double
  mq_state :: quote_state

definition Shared_new :: maker_shared where
  "Shared_new = \<lparr>mk_max_order_id = 0, mk_position = Fin 0, mk_history = [], mk_sent = []\<rparr>"

definition Shared_is_blocked :: "nanoseconds list \<Rightarrow> nanoseconds \<Rightarrow> bool" where
  "Shared_is_blocked history now \<longleftrightarrow>
     length history = REQUEST_LIMIT \<and> now - hd history < MONITOR_PERIOD"

definition Shared_send ::
  "dispatcher \<Rightarrow> nanoseconds \<Rightarrow> request \<Rightarrow> maker_shared \<Rightarrow> maker_shared result" where
  "Shared_send D now r sh =
     (case D r 0 of Some x \<Rightarrow> Inl (Raised x) | None \<Rightarrow> Inr (sh\<lparr>mk_sent := mk_sent sh @ [(now, r, 0)]\<rparr>))"

definition Shared_record :: "nanoseconds \<Rightarrow> nanoseconds list \<Rightarrow> nanoseconds list" where
  "Shared_record now history = dropWhile (\<lambda>t. t < now - MONITOR_PERIOD) history @ [now]"

definition Shared_rate_limit ::
  "nanoseconds \<Rightarrow> (maker_shared \<times> Quote \<Rightarrow> (maker_shared \<times> Quote) result) \<Rightarrow> maker_shared \<times> Quote \<Rightarrow>
     (bool \<times> maker_shared \<times> Quote) result" where
  "Shared_rate_limit now callback st =
     (if Shared_is_blocked (mk_history (fst st)) now then Inr (False, st)
      else bind_result (callback st) (\<lambda>(sh, q).
        Inr (True, sh\<lparr>mk_history := Shared_record now (mk_history sh)\<rparr>, q)))"

section \<open>Quote\<close>

definition Quote_new :: "side \<Rightarrow> Quote" where
  "Quote_new sd = \<lparr>mq_side = sd, mq_target_price = NaN, mq_update_order = False, mq_order_id = 0,
     mq_limit_price = NaN, mq_state = Quote_UNDEFINED\<rparr>"

definition Quote_clear :: "Quote \<Rightarrow> Quote" where
  "Quote_clear q = q\<lparr>mq_target_price := NaN, mq_update_order := False, mq_order_id := 0,
     mq_limit_price := NaN\<rparr>"

definition Quote_update_target_price :: "'m maker_utils_scheme \<Rightarrow> Quote \<Rightarrow> double \<Rightarrow> bool \<times> Quote" where
  "Quote_update_target_price U q price =
     (case update_double U (mq_target_price q) price of (changed, p) \<Rightarrow>
        if changed then (True, q\<lparr>mq_target_price := p, mq_update_order := True\<rparr>)
        else (False, q\<lparr>mq_target_price := p\<rparr>))"

definition Quote_set_state :: "'m maker_utils_scheme \<Rightarrow> quote_state \<Rightarrow> Quote \<Rightarrow> Quote" where
  "Quote_set_state U st q = q\<lparr>mq_state := snd (update_quote_state U (mq_state q) st)\<rparr>"

definition Quote_order :: "Quote \<Rightarrow> u64 \<Rightarrow> create_order" where
  "Quote_order q order_id = \<lparr>
     co_account = MAKER_ACCOUNT, co_order_id = order_id, co_exchange = MAKER_EXCHANGE,
     co_symbol = MAKER_SYMBOL, co_side = mq_side q, co_max_show_quantity = NaN, co_order_type = LIMIT,
     co_time_in_force = GTC, co_execution_instructions = [PARTICIPATE_DO_NOT_INITIATE],
     co_quantity = QUANTITY, co_price = mq_target_price q, co_stop_price = NaN, co_leverage = NaN,
     co_routing_id = [], co_strategy_id = 0\<rparr>"

text \<open>The \<open>try ... catch (NotConnected const &)\<close> around a rate limited request.\<close>

definition catch_not_connected ::
  "maker_shared \<times> Quote \<Rightarrow> (bool \<times> maker_shared \<times> Quote) result \<Rightarrow> (maker_shared \<times> Quote) result" where
  "catch_not_connected st r =
     (case r of Inl f \<Rightarrow> (if f = Raised NotConnected then Inr st else Inl f) | Inr (_, st') \<Rightarrow> Inr st')"

definition Quote_create_order ::
  "bool \<Rightarrow> 'm maker_utils_scheme \<Rightarrow> dispatcher \<Rightarrow> nanoseconds \<Rightarrow> maker_shared \<times> Quote \<Rightarrow>
     (maker_shared \<times> Quote) result" where
  "Quote_create_order dbg U D now st =
     (let (sh, q) = st; order_id = mk_max_order_id sh + 1 in
      if mq_state q \<noteq> Quote_UNDEFINED then Inl Fatal
      else if isnan (mq_target_price q) then Inl Fatal
      else catch_not_connected st
        (Shared_rate_limit now (\<lambda>(sh, q).
           bind_result (Shared_send D now (CreateOrder (Quote_order q order_id)) sh) (\<lambda>sh.
           assert_then dbg (mk_max_order_id sh < order_id)
           (let sh = sh\<lparr>mk_max_order_id := order_id\<rparr> in
            assert_then dbg (mq_order_id q = 0)
            (Inr (sh, Quote_set_state U Quote_CREATE (q\<lparr>mq_order_id := order_id\<rparr>)))))) st))"

definition Quote_cancel_order ::
  "'m maker_utils_scheme \<Rightarrow> dispatcher \<Rightarrow> nanoseconds \<Rightarrow> maker_shared \<times> Quote \<Rightarrow> (maker_shared \<times> Quote) result" where
  "Quote_cancel_order U D now st =
     (let (sh, q) = st in
      if mq_state q \<noteq> Quote_WORKING then Inl Fatal
      else if mq_order_id q = 0 then Inr st
      else catch_not_connected st
        (Shared_rate_limit now (\<lambda>(sh, q).
           bind_result (Shared_send D now (CancelOrder \<lparr>ca_account = MAKER_ACCOUNT,
             ca_order_id = mq_order_id q, ca_routing_id = []\<rparr>) sh) (\<lambda>sh.
           Inr (sh, Quote_set_state U Quote_CANCEL q))) st))"

definition Quote_on_Timer ::
  "bool \<Rightarrow> 'm maker_utils_scheme \<Rightarrow> dispatcher \<Rightarrow> nanoseconds \<Rightarrow> maker_shared \<times> Quote \<Rightarrow>
     (maker_shared \<times> Quote) result" where
  "Quote_on_Timer dbg U D now st =
     (let (sh, q) = st in
      if \<not> mq_update_order q then Inr st
      else bind_result
        (case mq_state q of
           Quote_UNDEFINED \<Rightarrow> Quote_create_order dbg U D now st
         | Quote_CREATE \<Rightarrow> Inr st
         | Quote_MODIFY \<Rightarrow> Inr st
         | Quote_CANCEL \<Rightarrow> Inr st
         | Quote_WORKING \<Rightarrow> Quote_cancel_order U D now st)
        (\<lambda>(sh, q). Inr (sh, q\<lparr>mq_update_order := False\<rparr>)))"

definition Quote_on_OrderAck :: "'m maker_utils_scheme \<Rightarrow> order_ack \<Rightarrow> Quote \<Rightarrow> Quote result" where
  "Quote_on_OrderAck U a q =
     (if has_request_failed U (oa_request_status a) \<and> oa_error a \<noteq> TOO_LATE_TO_MODIFY_OR_CANCEL then Inl Fatal
      else if \<not> has_request_completed U (oa_request_status a) then Inr q
      else case oa_request_type a of
          RequestType_UNDEFINED \<Rightarrow> Inl Fatal
        | CREATE_ORDER \<Rightarrow>
            if mq_state q \<noteq> Quote_CREATE then Inl Fatal else Inr (Quote_set_state U Quote_WORKING q)
        | MODIFY_ORDER \<Rightarrow>
            if mq_state q \<noteq> Quote_MODIFY then Inl Fatal else Inr (Quote_set_state U Quote_WORKING q)
        | CANCEL_ORDER \<Rightarrow>
            if mq_state q \<noteq> Quote_CANCEL then Inl Fatal
            else Inr (Quote_set_state U Quote_UNDEFINED (q\<lparr>mq_order_id := 0\<rparr>)))"

definition Quote_on_OrderUpdate ::
  "'m maker_utils_scheme \<Rightarrow> order_update \<Rightarrow> maker_shared \<times> Quote \<Rightarrow> maker_shared \<times> Quote" where
  "Quote_on_OrderUpdate U u st =
     (let (sh, q) = st in
      if ou_update_type u \<noteq> INCREMENTAL then st
      else let sh1 = (if ou_order_status u = COMPLETED
             then sh\<lparr>mk_position := dadd (mk_position sh) (dmul (sign U (mq_side q)) (ou_quantity u))\<rparr> else sh)
      in (sh1, if is_order_complete U (ou_order_status u) \<and> mq_order_id q = ou_order_id u
               then Quote_set_state U Quote_UNDEFINED (q\<lparr>mq_order_id := 0\<rparr>) else q))"

lemmas Quote_ops [machine_defs] = Quote_create_order_def Quote_cancel_order_def Shared_rate_limit_def
  Shared_send_def catch_not_connected_def

section \<open>What a timer does to a quote\<close>

definition quote_creates ::
  "nanoseconds \<Rightarrow> maker_shared \<times> Quote \<Rightarrow> maker_shared \<times> Quote \<Rightarrow> bool" where
  "quote_creates now st st' \<longleftrightarrow> (case (st, st') of ((sh, q), (sh', q')) \<Rightarrow>
     mq_update_order q \<and> mq_state q = Quote_UNDEFINED \<and> \<not> isnan (mq_target_price q) \<and>
     \<not> Shared_is_blocked (mk_history sh) now \<and>
     sh' = sh\<lparr>mk_max_order_id := mk_max_order_id sh + 1, mk_history := Shared_record now (mk_history sh),
              mk_sent := mk_sent sh @ [(now, CreateOrder (Quote_order q (mk_max_order_id sh + 1)), 0)]\<rparr> \<and>
     q' = q\<lparr>mq_order_id := mk_max_order_id sh + 1, mq_state := Quote_CREATE, mq_update_order := False\<rparr>)"

definition quote_cancels ::
  "nanoseconds \<Rightarrow> maker_shared \<times> Quote \<Rightarrow> maker_shared \<times> Quote \<Rightarrow> bool" where
  "quote_cancels now st st' \<longleftrightarrow> (case (st, st') of ((sh, q), (sh', q')) \<Rightarrow>
     mq_update_order q \<and> mq_state q = Quote_WORKING \<and> mq_order_id q \<noteq> 0 \<and>
     \<not> Shared_is_blocked (mk_history sh) now \<and>
     sh' = sh\<lparr>mk_history := Shared_record now (mk_history sh),
              mk_sent := mk_sent sh @ [(now, CancelOrder \<lparr>ca_account = MAKER_ACCOUNT,
                ca_order_id = mq_order_id q, ca_routing_id = []\<rparr>, 0)]\<rparr> \<and>
     q' = q\<lparr>mq_state := Quote_CANCEL, mq_update_order := False\<rparr>)"

definition quote_idle :: "maker_shared \<times> Quote \<Rightarrow> maker_shared \<times> Quote \<Rightarrow> bool" where
  "quote_idle st st' \<longleftrightarrow> st' = (fst st, (snd st)\<lparr>mq_update_order := False\<rparr>)"

lemma quote_state_ok: "maker_updates_ok U \<Longrightarrow> update_quote_state U c v = (c \<noteq> v, v)"
  by (simp add: maker_updates_ok_def update_lawD)

lemma Quote_set_state_ok: "maker_updates_ok U \<Longrightarrow> Quote_set_state U v q = q\<lparr>mq_state := v\<rparr>"
  by (simp add: Quote_set_state_def quote_state_ok)

lemma Quote_create_order_Inr:
  assumes "maker_updates_ok U" "Quote_create_order dbg U D now (sh, q) = Inr st'" "mq_update_order q"
  shows "st' = (sh, q) \<or> quote_creates now (sh, q) (fst st', (snd st')\<lparr>mq_update_order := False\<rparr>)"
  using assms
  by (auto simp: machine_defs quote_creates_def Quote_set_state_ok assert_then_def Let_def Quote_order_def
      split: if_splits option.splits sum.splits)

lemma Quote_cancel_order_Inr:
  assumes "maker_updates_ok U" "Quote_cancel_order U D now (sh, q) = Inr st'" "mq_update_order q"
  shows "st' = (sh, q) \<or> quote_cancels now (sh, q) (fst st', (snd st')\<lparr>mq_update_order := False\<rparr>)"
  using assms
  by (auto simp: machine_defs quote_cancels_def Quote_set_state_ok split: if_splits option.splits sum.splits)

lemma Quote_on_Timer_cases:
  assumes "maker_updates_ok U" "Quote_on_Timer dbg U D now st = Inr st'"
  shows "quote_idle st st' \<or> quote_creates now st st' \<or> quote_cancels now st st'"
proof -
  obtain sh q where st: "st = (sh, q)" by (cases st)
  show ?thesis
    using assms Quote_create_order_Inr [OF assms(1), of dbg D now sh q]
      Quote_cancel_order_Inr [OF assms(1), of D now sh q]
    by (fastforce simp: st Quote_on_Timer_def quote_idle_def result_Inr split: if_splits quote_state.splits)
qed

lemmas quote_actions = quote_idle_def quote_creates_def quote_cancels_def

section \<open>The rate limiter\<close>

text \<open>Any eleven consecutive requests take longer than the monitor period.\<close>

definition spaced :: "nanoseconds list \<Rightarrow> bool" where
  "spaced a \<longleftrightarrow> (\<forall>i. i + REQUEST_LIMIT < length a \<longrightarrow> a ! i + MONITOR_PERIOD < a ! (i + REQUEST_LIMIT))"

text \<open>The times \<open>a\<close> of all requests against the history \<open>h\<close> kept of them: what was dropped is
  older than the monitor period.\<close>

definition limiter_inv :: "nanoseconds list \<Rightarrow> nanoseconds list \<Rightarrow> bool" where
  "limiter_inv a h \<longleftrightarrow> spaced a \<and> sorted a \<and> length h \<le> REQUEST_LIMIT \<and>
     (\<exists>p. a = p @ h \<and> (\<forall>t \<in> set p. \<exists>u \<in> set a. t + MONITOR_PERIOD < u))"

lemma limiter_inv_Nil [simp]: "limiter_inv [] []"
  by (simp add: limiter_inv_def spaced_def)

lemma record_length:
  assumes "length h \<le> REQUEST_LIMIT" "\<not> Shared_is_blocked h now"
    and "\<forall>t \<in> set h. now - t \<noteq> MONITOR_PERIOD"
  shows "length (Shared_record now h) \<le> REQUEST_LIMIT"
proof (cases h)
  case (Cons t h')
  have le: "length (dropWhile P h') \<le> length h'" "length (dropWhile P h) \<le> length h" for P :: "int \<Rightarrow> bool"
    by (simp_all add: length_dropWhile_le)
  show ?thesis
  proof (cases "length h = REQUEST_LIMIT")
    case True
    then have "MONITOR_PERIOD \<le> now - t" using assms(2) Cons by (simp add: Shared_is_blocked_def)
    moreover have "now - t \<noteq> MONITOR_PERIOD" using assms(3) Cons by simp
    ultimately have "t < now - MONITOR_PERIOD" by linarith
    then show ?thesis using Cons True le(1) by (simp add: Shared_record_def) (metis le(1) le_trans Suc_le_mono)
  next
    case False
    then show ?thesis using assms(1) le(2) [of "\<lambda>t. t < now - MONITOR_PERIOD"] by (simp add: Shared_record_def)
  qed
qed (simp add: Shared_record_def REQUEST_LIMIT_def)

lemma limiter_accept:
  assumes inv: "limiter_inv a h" and free: "\<not> Shared_is_blocked h now"
    and now: "\<forall>t \<in> set a. t \<le> now \<and> now - t \<noteq> MONITOR_PERIOD"
  shows "limiter_inv (a @ [now]) (Shared_record now h)"
proof -
  obtain p where a: "a = p @ h" and p: "\<forall>t \<in> set p. \<exists>u \<in> set a. t + MONITOR_PERIOD < u"
    using inv by (auto simp: limiter_inv_def)
  let ?old = "\<lambda>t. t < now - MONITOR_PERIOD"
  have old: "t + MONITOR_PERIOD < now" if "t \<in> set p" for t
    using p now that by force
  have "a ! i + MONITOR_PERIOD < now" if i: "i + REQUEST_LIMIT = length a" for i
  proof (cases "length h = REQUEST_LIMIT")
    case True
    then have "h \<noteq> []" by (auto simp: REQUEST_LIMIT_def)
    then have "hd h \<in> set a" "a ! i = hd h" using i a True by (simp, simp add: nth_append hd_conv_nth)
    then show ?thesis using free now True by (force simp: Shared_is_blocked_def)
  next
    case False
    then have "i < length p" using i a inv by (auto simp: limiter_inv_def)
    then show ?thesis using old a by (simp add: nth_append)
  qed
  moreover have "spaced a" using inv by (simp add: limiter_inv_def)
  moreover have "0 < REQUEST_LIMIT" by (simp add: REQUEST_LIMIT_def)
  ultimately have "spaced (a @ [now])" unfolding spaced_def by (auto simp: nth_append less_Suc_eq)
  moreover have "sorted (a @ [now])" using inv now by (auto simp: limiter_inv_def sorted_append)
  moreover have "length (Shared_record now h) \<le> REQUEST_LIMIT"
    using record_length [OF _ free] inv now a by (auto simp: limiter_inv_def)
  moreover have "a @ [now] = (p @ takeWhile ?old h) @ Shared_record now h"
    by (simp add: a Shared_record_def)
  moreover have "\<forall>t \<in> set (p @ takeWhile ?old h). \<exists>u \<in> set (a @ [now]). t + MONITOR_PERIOD < u"
    using old by (auto dest: set_takeWhileD)
  ultimately show ?thesis unfolding limiter_inv_def by blast
qed

text \<open>Successive requests at the given times, each of them with nothing else to do.\<close>

primrec limiter_run ::
  "maker_shared \<times> Quote \<Rightarrow> nanoseconds list \<Rightarrow> (bool list \<times> maker_shared \<times> Quote) result" where
  "limiter_run st [] = Inr ([], st)"
| "limiter_run st (now # ts) =
     bind_result (Shared_rate_limit now Inr st) (\<lambda>(ok, st').
     bind_result (limiter_run st' ts) (\<lambda>(oks, st''). Inr (ok # oks, st'')))"

lemma limiter_run_append:
  "limiter_run st (ts @ us) = bind_result (limiter_run st ts) (\<lambda>(oks, st').
     bind_result (limiter_run st' us) (\<lambda>(oks', st''). Inr (oks @ oks', st'')))"
  by (induction ts arbitrary: st) (auto simp: bind_result_def split: sum.splits prod.splits)

lemma limiter_burst_below:
  "length (mk_history sh) + n \<le> REQUEST_LIMIT \<Longrightarrow> \<forall>u \<in> set (mk_history sh). u = t \<Longrightarrow>
     limiter_run (sh, q) (replicate n t) =
       Inr (replicate n True, sh\<lparr>mk_history := mk_history sh @ replicate n t\<rparr>, q)"
proof (induction n arbitrary: sh)
  case (Suc n)
  have rec: "Shared_record t (mk_history sh) = mk_history sh @ [t]"
    using Suc.prems(2) by (cases "mk_history sh") (auto simp: Shared_record_def MONITOR_PERIOD_def)
  have "Shared_rate_limit t Inr (sh, q) = Inr (True, sh\<lparr>mk_history := mk_history sh @ [t]\<rparr>, q)"
    using Suc.prems by (simp add: Shared_rate_limit_def Shared_is_blocked_def rec)
  then show ?case using Suc by simp
qed simp

lemma limiter_burst_above:
  "REQUEST_LIMIT \<le> length (mk_history sh) \<Longrightarrow> hd (mk_history sh) = t \<Longrightarrow>
     \<exists>st'. limiter_run (sh, q) (replicate n (t + MONITOR_PERIOD)) = Inr (replicate n True, st')"
proof (induction n arbitrary: sh)
  case (Suc n)
  then have ne: "mk_history sh \<noteq> []" by (auto simp: REQUEST_LIMIT_def)
  then have rec: "Shared_record (t + MONITOR_PERIOD) (mk_history sh) = mk_history sh @ [t + MONITOR_PERIOD]"
    using Suc.prems(2) by (cases "mk_history sh") (auto simp: Shared_record_def)
  have "Shared_rate_limit (t + MONITOR_PERIOD) Inr (sh, q) =
      Inr (True, sh\<lparr>mk_history := mk_history sh @ [t + MONITOR_PERIOD]\<rparr>, q)"
    using Suc.prems by (simp add: Shared_rate_limit_def Shared_is_blocked_def rec)
  then show ?case using Suc ne by (fastforce simp: bind_result_eq_Inr)
qed simp

section \<open>Properties\<close>

text \<open>
  The limiter stops limiting on the boundary of its period: ten requests at one instant
  fill the history, and at exactly one monitor period later every one of any number of
  requests is let through, because the oldest entry is neither blocking nor dropped and the
  size of the history is then compared for equality with a limit it has passed.
\<close>

theorem limiter_boundary_unbounded:
  assumes "mk_history sh = []"
  shows "\<exists>st'. limiter_run (sh, q) (replicate REQUEST_LIMIT t @ replicate n (t + MONITOR_PERIOD)) =
    Inr (replicate (REQUEST_LIMIT + n) True, st')"
proof -
  have "limiter_run (sh, q) (replicate REQUEST_LIMIT t) =
      Inr (replicate REQUEST_LIMIT True, sh\<lparr>mk_history := replicate REQUEST_LIMIT t\<rparr>, q)"
    using limiter_burst_below [of sh REQUEST_LIMIT t q] assms by simp
  moreover obtain st' where "limiter_run (sh\<lparr>mk_history := replicate REQUEST_LIMIT t\<rparr>, q)
      (replicate n (t + MONITOR_PERIOD)) = Inr (replicate n True, st')"
    using limiter_burst_above [of "sh\<lparr>mk_history := replicate REQUEST_LIMIT t\<rparr>" t q n]
    by (auto simp: REQUEST_LIMIT_def)
  ultimately show ?thesis by (simp add: limiter_run_append replicate_add)
qed

theorem limiter_boundary_unbounded_witness:
  "\<exists>st'. limiter_run (Shared_new, Quote_new BUY)
     (replicate REQUEST_LIMIT 0 @ replicate 1000 (0 + MONITOR_PERIOD)) =
     Inr (replicate (REQUEST_LIMIT + 1000) True, st')"
  by (rule limiter_boundary_unbounded) (simp add: Shared_new_def)

end
