(* ===== verification/Clients.thy ===== *)
theory Clients
  imports Roq_API
begin

text \<open>
  Three small clients: example 6 (\<open>example-6/strategy.*\<close>, a check that receive times never go
  back), example 7 (\<open>example-7/strategy.*\<close>, a publisher of custom metrics and a matrix of the
  last mid prices) and the minimal sample (\<open>minimal/main.cpp\<close>).
  Shown: example 6 stops exactly at the first event that goes back in time; the matrix of
  example 7 holds the last mid prices in order, under a version that counts the updates; the
  minimal client knows when it is ready and the highest order id.
\<close>

section \<open>Example 6: receive times\<close>

text \<open>The events with a handler; each handler is \<open>Strategy::check\<close>.\<close>

fun Strategy6_handles :: "'u message \<Rightarrow> bool" where
  "Strategy6_handles (Timer now) = True"
| "Strategy6_handles Connected = True"
| "Strategy6_handles Disconnected = True"
| "Strategy6_handles (DownloadBegin d) = True"
| "Strategy6_handles (DownloadEnd d) = True"
| "Strategy6_handles GatewaySettings = True"
| "Strategy6_handles StreamStatus = True"
| "Strategy6_handles (GatewayStatus g) = True"
| "Strategy6_handles (ReferenceData r) = True"
| "Strategy6_handles (MarketStatus m) = True"
| "Strategy6_handles (TopOfBook t) = True"
| "Strategy6_handles (MarketByPriceUpdate u) = True"
| "Strategy6_handles (MarketByOrderUpdate u) = True"
| "Strategy6_handles TradeSummary = True"
| "Strategy6_handles StatisticsUpdate = True"
| "Strategy6_handles (OrderAck a) = True"
| "Strategy6_handles (OrderUpdate u) = True"
| "Strategy6_handles TradeUpdate = True"
| "Strategy6_handles (PositionUpdate p) = True"
| "Strategy6_handles FundsUpdate = True"
| "Strategy6_handles _ = False"

definition Strategy6_check :: "nanoseconds \<Rightarrow> message_info \<Rightarrow> nanoseconds result" where
  "Strategy6_check prev info =
     (if receive_time info < prev then Inl Fatal else Inr (receive_time info))"

definition Strategy6_step :: "nanoseconds \<Rightarrow> 'u event \<Rightarrow> nanoseconds result" where
  "Strategy6_step prev ev = (if Strategy6_handles (snd ev) then Strategy6_check prev (fst ev) else Inr prev)"

section \<open>Example 7: custom metrics and matrix\<close>

record e7_settings =
  e7_label :: string
  e7_account :: string
  e7_subscriber :: bool

record custom_metrics =
  cm_label :: string
  cm_account :: string
  cm_exchange :: string
  cm_symbol :: string
  cm_measurements :: "(string \<times> double) list"
  cm_update_type :: update_type

record custom_matrix =
  cx_label :: string
  cx_matrix_account :: string
  cx_matrix_exchange :: string
  cx_matrix_symbol :: string
  cx_rows :: "string list"
  cx_data :: "double list"
  cx_update_type :: update_type
  cx_version :: u32

datatype publication = Metrics custom_metrics | Matrix custom_matrix

record Strategy7 =
  e7_measurements :: "(string \<times> double) list"
  e7_rows :: "string list"
  e7_data :: "double list"
  e7_version :: u32
  e7_downloading :: bool
  e7_sent :: "publication list"

text \<open>The array \<open>data_\<close> has no initialiser: \<open>garbage\<close> stands for what it happens to hold.\<close>

definition Strategy7_new :: "double list \<Rightarrow> Strategy7" where
  "Strategy7_new garbage = \<lparr>e7_measurements = [(''bp'', NaN), (''ap'', NaN)], e7_rows = [''0'', ''-1'', ''-2''],
     e7_data = take 3 garbage, e7_version = 0, e7_downloading = False, e7_sent = []\<rparr>"

text \<open>\<open>std::shift_right\<close> by one: the last element is lost, the first is left as it was.\<close>

definition shift_right :: "double list \<Rightarrow> double list" where
  "shift_right d = (case d of [] \<Rightarrow> [] | x # xs \<Rightarrow> x # butlast d)"

definition e7_mid :: "layer \<Rightarrow> double" where
  "e7_mid l = dmul (Fin (1 / 2)) (dadd (bid_price l) (ask_price l))"

text \<open>The two requests in order; \<open>NotConnected\<close> is caught, anything else leaves the handler.\<close>

fun e7_publish :: "publication list \<Rightarrow> (publication \<Rightarrow> exn option) \<Rightarrow> Strategy7 \<Rightarrow> Strategy7 result" where
  "e7_publish [] D s = Inr s"
| "e7_publish (p # ps) D s =
     (case D p of
        None \<Rightarrow> e7_publish ps D (s\<lparr>e7_sent := e7_sent s @ [p]\<rparr>)
      | Some NotConnected \<Rightarrow> Inr s
      | Some x \<Rightarrow> Inl (Raised x))"

definition Strategy7_on_TopOfBook ::
  "e7_settings \<Rightarrow> (publication \<Rightarrow> exn option) \<Rightarrow> top_of_book \<Rightarrow> Strategy7 \<Rightarrow> Strategy7 result" where
  "Strategy7_on_TopOfBook S D t s =
     (if e7_subscriber S then Inr s
      else if e7_downloading s then Inr s
      else
        let l = tob_layer t;
            s1 = s\<lparr>e7_measurements := [(fst (e7_measurements s ! 0), bid_price l), (fst (e7_measurements s ! 1), ask_price l)]\<rparr>;
            metrics = \<lparr>cm_label = e7_label S, cm_account = e7_account S, cm_exchange = tob_exchange t,
              cm_symbol = tob_symbol t, cm_measurements = e7_measurements s1, cm_update_type = INCREMENTAL\<rparr>;
            s2 = s1\<lparr>e7_data := (shift_right (e7_data s1))[0 := e7_mid l], e7_version := e7_version s1 + 1\<rparr>;
            matrix = \<lparr>cx_label = e7_label S, cx_matrix_account = e7_account S, cx_matrix_exchange = tob_exchange t,
              cx_matrix_symbol = tob_symbol t, cx_rows = e7_rows s2, cx_data = e7_data s2,
              cx_update_type = INCREMENTAL, cx_version = e7_version s2\<rparr>
        in e7_publish [Metrics metrics, Matrix matrix] D s2)"

datatype e7_event = E7_DownloadBegin | E7_DownloadEnd | E7_TopOfBook "publication \<Rightarrow> exn option" top_of_book

fun Strategy7_step :: "e7_settings \<Rightarrow> Strategy7 \<Rightarrow> e7_event \<Rightarrow> Strategy7 result" where
  "Strategy7_step S s E7_DownloadBegin = Inr (s\<lparr>e7_downloading := True\<rparr>)"
| "Strategy7_step S s E7_DownloadEnd = Inr (s\<lparr>e7_downloading := False\<rparr>)"
| "Strategy7_step S s (E7_TopOfBook D t) = Strategy7_on_TopOfBook S D t s"

section \<open>The minimal client\<close>

definition MINIMAL_ACCOUNT :: string where
  "MINIMAL_ACCOUNT = ''A1''"

definition MINIMAL_EXCHANGE :: string where
  "MINIMAL_EXCHANGE = ''deribit''"

definition MINIMAL_SYMBOL :: string where
  "MINIMAL_SYMBOL = ''BTC-PERPETUAL''"

record Minimal =
  mi_ready :: bool
  mi_max_order_id :: u64
  mi_sent :: outbox

definition Minimal_new :: Minimal where
  "Minimal_new = \<lparr>mi_ready = False, mi_max_order_id = 0, mi_sent = []\<rparr>"

definition Minimal_cancel_all_orders :: "dispatcher \<Rightarrow> Minimal \<Rightarrow> Minimal result" where
  "Minimal_cancel_all_orders D s =
     (let r = CancelAllOrders \<lparr>cx_account = MINIMAL_ACCOUNT, cx_exchange = MINIMAL_EXCHANGE, cx_symbol = MINIMAL_SYMBOL\<rparr>
      in case D r 0 of Some x \<Rightarrow> Inl (Raised x) | None \<Rightarrow> Inr (s\<lparr>mi_sent := mi_sent s @ [(r, 0)]\<rparr>))"

fun Minimal_step :: "Minimal \<Rightarrow> 'u client_event \<Rightarrow> Minimal result" where
  "Minimal_step s (D, info, Disconnected) = Inr (s\<lparr>mi_ready := False\<rparr>)"
| "Minimal_step s (D, info, DownloadEnd d) =
     Inr (if mi_max_order_id s < de_max_order_id d then s\<lparr>mi_max_order_id := de_max_order_id d\<rparr> else s)"
| "Minimal_step s (D, info, Ready) = Minimal_cancel_all_orders D (s\<lparr>mi_ready := True\<rparr>)"
| "Minimal_step s (D, info, _) = Inr s"

section \<open>The history behind the matrix\<close>

text \<open>The mid prices example 7 published or tried to publish, oldest first.\<close>

primrec e7_history :: "bool \<Rightarrow> e7_event list \<Rightarrow> double list" where
  "e7_history downloading [] = []"
| "e7_history downloading (e # es) =
     (case e of
        E7_DownloadBegin \<Rightarrow> e7_history True es
      | E7_DownloadEnd \<Rightarrow> e7_history False es
      | E7_TopOfBook D t \<Rightarrow>
          (if downloading then e7_history downloading es else e7_mid (tob_layer t) # e7_history downloading es))"

definition e7_window :: "double list \<Rightarrow> double list \<Rightarrow> double list" where
  "e7_window garbage mids = take 3 (rev mids @ garbage)"

definition Strategy7_inv :: "double list \<Rightarrow> double list \<Rightarrow> Strategy7 \<Rightarrow> bool" where
  "Strategy7_inv garbage mids s \<longleftrightarrow>
     e7_data s = e7_window garbage mids \<and> e7_version s = of_nat (length mids) \<and>
     (\<forall>m. Matrix m \<in> set (e7_sent s) \<longrightarrow>
        (\<exists>k \<le> length mids. cx_version m = of_nat k \<and> cx_data m = e7_window garbage (take k mids)))"

lemma e7_window_snoc:
  assumes "length garbage = 3"
  shows "(shift_right (e7_window garbage mids))[0 := x] = e7_window garbage (mids @ [x])"
proof -
  have "length (e7_window garbage mids) = 3" using assms by (simp add: e7_window_def)
  then obtain a b c where w: "e7_window garbage mids = [a, b, c]"
    by (auto simp: numeral_3_eq_3 length_Suc_conv)
  have "e7_window garbage (mids @ [x]) = x # take 2 (e7_window garbage mids)"
    by (simp add: e7_window_def del: take_append)
  then show ?thesis by (simp add: w shift_right_def)
qed

lemma e7_publish_sent:
  "e7_publish ps D s = Inr s' \<Longrightarrow>
     e7_data s' = e7_data s \<and> e7_version s' = e7_version s \<and> e7_downloading s' = e7_downloading s \<and>
     (\<forall>p \<in> set (e7_sent s'). p \<in> set (e7_sent s) \<or> p \<in> set ps)"
proof (induction ps D s rule: e7_publish.induct)
  case (2 p ps D s)
  show ?case
  proof (cases "D p")
    case None
    then show ?thesis using 2 by auto
  next
    case (Some x)
    then show ?thesis using 2(2) by (cases x) auto
  qed
qed simp

lemma e7_window_take: "k \<le> length mids \<Longrightarrow> e7_window g (take k (mids @ ys)) = e7_window g (take k mids)"
  by simp

lemma Strategy7_publish_inv:
  assumes g: "length garbage = 3" and inv: "Strategy7_inv garbage mids s"
    and step: "Strategy7_on_TopOfBook S D t s = Inr s'" "\<not> e7_subscriber S" "\<not> e7_downloading s"
  shows "Strategy7_inv garbage (mids @ [e7_mid (tob_layer t)]) s' \<and> e7_downloading s' = e7_downloading s"
proof -
  let ?mids = "mids @ [e7_mid (tob_layer t)]"
  define s2 where "s2 = s\<lparr>e7_measurements := [(fst (e7_measurements s ! 0), bid_price (tob_layer t)),
      (fst (e7_measurements s ! 1), ask_price (tob_layer t))],
      e7_data := (shift_right (e7_data s))[0 := e7_mid (tob_layer t)], e7_version := e7_version s + 1\<rparr>"
  have s2: "e7_data s2 = e7_window garbage ?mids" "e7_version s2 = of_nat (length ?mids)"
      "e7_sent s2 = e7_sent s" "e7_downloading s2 = e7_downloading s"
    using inv by (simp_all add: s2_def Strategy7_inv_def e7_window_snoc [OF g])
  obtain metrics where pub: "e7_publish [Metrics metrics, Matrix \<lparr>cx_label = e7_label S, cx_matrix_account = e7_account S,
       cx_matrix_exchange = tob_exchange t, cx_matrix_symbol = tob_symbol t, cx_rows = e7_rows s2, cx_data = e7_data s2,
       cx_update_type = INCREMENTAL, cx_version = e7_version s2\<rparr>] D s2 = Inr s'"
    using step by (auto simp: Strategy7_on_TopOfBook_def s2_def Let_def simp del: e7_publish.simps)
  note kept = e7_publish_sent [OF pub]
  have "\<exists>k \<le> length ?mids. cx_version m = of_nat k \<and> cx_data m = e7_window garbage (take k ?mids)"
    if m: "Matrix m \<in> set (e7_sent s')" for m
  proof (cases "Matrix m \<in> set (e7_sent s)")
    case True
    then obtain k where "k \<le> length mids" "cx_version m = of_nat k" "cx_data m = e7_window garbage (take k mids)"
      using inv by (auto simp: Strategy7_inv_def)
    then show ?thesis by (intro exI [of _ k]) simp
  next
    case False
    then have "cx_version m = e7_version s2" "cx_data m = e7_data s2" using kept m s2(3) by auto
    then show ?thesis by (intro exI [of _ "length ?mids"]) (simp add: s2(1,2))
  qed
  then show ?thesis using kept s2 by (simp add: Strategy7_inv_def)
qed

lemma Strategy7_run_inv:
  assumes "length garbage = 3" "\<not> e7_subscriber S"
  shows "Strategy7_inv garbage mids s \<Longrightarrow> run (Strategy7_step S) s es = Inr s' \<Longrightarrow>
    Strategy7_inv garbage (mids @ e7_history (e7_downloading s) es) s'"
proof (induction es arbitrary: mids s)
  case (Cons e es)
  then obtain s1 where s1: "Strategy7_step S s e = Inr s1" "run (Strategy7_step S) s1 es = Inr s'"
    by (auto simp: bind_result_eq_Inr)
  show ?case
  proof (cases e)
    case (E7_TopOfBook D t)
    show ?thesis
    proof (cases "e7_downloading s")
      case True
      then have "s1 = s" using s1 E7_TopOfBook assms(2) by (simp add: Strategy7_on_TopOfBook_def)
      then show ?thesis using Cons.IH [of mids s] Cons.prems s1 E7_TopOfBook True by simp
    next
      case False
      then show ?thesis
        using Strategy7_publish_inv [OF assms(1) Cons.prems(1), of S D t s1] s1 E7_TopOfBook assms(2)
          Cons.IH [of "mids @ [e7_mid (tob_layer t)]" s1] by simp
    qed
  qed (use Cons.IH [of mids s1] Cons.prems s1 in \<open>auto simp: Strategy7_inv_def\<close>)
qed simp

section \<open>Properties\<close>

text \<open>
  Example 6 stops exactly when time goes back: it handles all events when the receive times
  of the events with a handler never decrease (starting from zero), keeping the last one, and
  ends with the fatal error otherwise.
\<close>

theorem Strategy6_detects_time_machines:
  "run Strategy6_step 0 es =
     (let times = map (receive_time \<circ> fst) (filter (Strategy6_handles \<circ> snd) es)
      in if sorted (0 # times) then Inr (last (0 # times)) else Inl Fatal)"
proof -
  define T where "T es = map (receive_time \<circ> fst) (filter (Strategy6_handles \<circ> snd) es)" for es :: "'a event list"
  have "run Strategy6_step prev es = (if sorted (prev # T es) then Inr (last (prev # T es)) else Inl Fatal)" for prev
  proof (induction es arbitrary: prev)
    case (Cons e es)
    show ?case
    proof (cases "Strategy6_handles (snd e)")
      case True
      then have "T (e # es) = receive_time (fst e) # T es"
          "Strategy6_step prev e = (if receive_time (fst e) < prev then Inl Fatal else Inr (receive_time (fst e)))"
        by (simp_all add: T_def Strategy6_step_def Strategy6_check_def)
      then show ?thesis by (simp only: run.simps sorted2) (simp add: Cons.IH not_less del: sorted_wrt.simps)
    next
      case False
      then have "T (e # es) = T es" "Strategy6_step prev e = Inr prev"
        by (simp_all add: T_def Strategy6_step_def)
      then show ?thesis by (simp only: run.simps bind_result_Inr Cons.IH)
    qed
  qed (simp add: T_def)
  from this [of 0] show ?thesis by (simp only: T_def Let_def)
qed

text \<open>
  C36: The matrix of example 7. In every session of the publisher, a matrix that was sent with
  version \<open>k\<close> holds the last three of the first \<open>k\<close> mid prices, newest first, and the
  versions count the top of book updates outside of downloads. While fewer than three mid
  prices have been seen, the rest is whatever the uninitialised array held.
\<close>

theorem Strategy7_matrix_window:
  assumes "length garbage = 3" "\<not> e7_subscriber S"
    and "run (Strategy7_step S) (Strategy7_new garbage) es = Inr s"
  shows "e7_version s = of_nat (length (e7_history False es)) \<and>
    (\<forall>m. Matrix m \<in> set (e7_sent s) \<longrightarrow>
       (\<exists>k \<le> length (e7_history False es). cx_version m = of_nat k \<and>
          cx_data m = take 3 (rev (take k (e7_history False es)) @ garbage)))"
proof -
  have new: "Strategy7_inv garbage [] (Strategy7_new garbage)" "e7_downloading (Strategy7_new garbage) = False"
    by (simp_all add: Strategy7_inv_def Strategy7_new_def e7_window_def)
  show ?thesis
    using Strategy7_run_inv [OF assms(1,2) new(1) assms(3)]
    unfolding new(2) append_Nil Strategy7_inv_def e7_window_def by (elim conjE) (intro conjI)
qed

definition e7_demo_settings :: e7_settings where
  "e7_demo_settings = \<lparr>e7_label = ''ToB'', e7_account = [], e7_subscriber = False\<rparr>"

definition e7_demo_tob :: "rat \<Rightarrow> e7_event" where
  "e7_demo_tob x = E7_TopOfBook (\<lambda>_. None) \<lparr>tob_exchange = ''X'', tob_symbol = ''Y'',
     tob_layer = \<lparr>bid_price = Fin x, bid_quantity = Fin 1, ask_price = Fin x, ask_quantity = Fin 1\<rparr>\<rparr>"

definition e7_demo_events :: "e7_event list" where
  "e7_demo_events = [e7_demo_tob 1, E7_DownloadBegin, e7_demo_tob 9, E7_DownloadEnd, e7_demo_tob 2]"

lemmas e7_eval = e7_demo_settings_def e7_demo_tob_def e7_demo_events_def Strategy7_new_def Strategy7_on_TopOfBook_def
  shift_right_def e7_mid_def Let_def

theorem Strategy7_matrix_window_witness:
  "\<exists>s m. run (Strategy7_step e7_demo_settings) (Strategy7_new [NaN, NaN, NaN]) e7_demo_events = Inr s \<and>
     Matrix m \<in> set (e7_sent s) \<and> cx_version m = 2 \<and> cx_data m = [Fin 2, Fin 1, NaN] \<and>
     (\<exists>k \<le> length (e7_history False e7_demo_events). cx_version m = of_nat k \<and>
        cx_data m = take 3 (rev (take k (e7_history False e7_demo_events)) @ [NaN, NaN, NaN]))"
proof -
  obtain s where s: "run (Strategy7_step e7_demo_settings) (Strategy7_new [NaN, NaN, NaN]) e7_demo_events = Inr s"
      "e7_sent s ! 3 = Matrix \<lparr>cx_label = ''ToB'', cx_matrix_account = [], cx_matrix_exchange = ''X'', cx_matrix_symbol = ''Y'',
        cx_rows = [''0'', ''-1'', ''-2''], cx_data = [Fin 2, Fin 1, NaN], cx_update_type = INCREMENTAL, cx_version = 2\<rparr>"
      "length (e7_sent s) = 4"
    by (simp add: e7_eval)
  define m where "m = \<lparr>cx_label = ''ToB'', cx_matrix_account = [], cx_matrix_exchange = ''X'', cx_matrix_symbol = ''Y'',
        cx_rows = [''0'', ''-1'', ''-2''], cx_data = [Fin 2, Fin 1, NaN], cx_update_type = INCREMENTAL, cx_version = (2 :: u32)\<rparr>"
  have m: "Matrix m \<in> set (e7_sent s)" using nth_mem [of 3 "e7_sent s"] s(2,3) by (simp add: m_def)
  have S: "\<not> e7_subscriber e7_demo_settings" "length [NaN, NaN, NaN] = 3" by (simp_all add: e7_demo_settings_def)
  have "\<exists>k \<le> length (e7_history False e7_demo_events). cx_version m = of_nat k \<and>
        cx_data m = take 3 (rev (take k (e7_history False e7_demo_events)) @ [NaN, NaN, NaN])"
    using Strategy7_matrix_window [OF S(2,1) s(1)] m by blast
  then show ?thesis
    by (intro exI [of _ s] exI [of _ m] conjI s(1) m) (simp_all add: m_def del: One_nat_def)
qed

section \<open>The minimal client\<close>

text \<open>The minimal client is ready exactly when the last of its connection events was \<open>Ready\<close>,
  and remembers the highest order id of the downloads.\<close>

definition last_connection :: "'u message list \<Rightarrow> 'u message list" where
  "last_connection msgs = filter (\<lambda>m. m = Ready \<or> m = Disconnected) msgs"

definition download_ids :: "'u message list \<Rightarrow> u64 list" where
  "download_ids msgs = List.map_filter (\<lambda>m. case m of DownloadEnd d \<Rightarrow> Some (de_max_order_id d) | _ \<Rightarrow> None) msgs"

lemma Minimal_tracks:
  assumes "run Minimal_step Minimal_new es = Inr s"
  shows "mi_ready s = (last_connection (map (snd \<circ> snd) es) \<noteq> [] \<and> last (last_connection (map (snd \<circ> snd) es)) = Ready)"
    and "mi_max_order_id s = foldl max 0 (download_ids (map (snd \<circ> snd) es))"
proof -
  have "mi_ready s = (last_connection (map (snd \<circ> snd) es) \<noteq> [] \<and> last (last_connection (map (snd \<circ> snd) es)) = Ready) \<and>
      mi_max_order_id s = foldl max 0 (download_ids (map (snd \<circ> snd) es))"
    using assms
  proof (induction es arbitrary: s rule: rev_induct)
    case Nil
    then show ?case by (auto simp: Minimal_new_def last_connection_def download_ids_def List.map_filter_simps)
  next
    case (snoc e es)
    then obtain t where t: "run Minimal_step Minimal_new es = Inr t" "Minimal_step t e = Inr s"
      by (auto simp: run_append_Inr bind_result_eq_Inr)
    obtain D info msg where e: "e = (D, info, msg)" by (metis surj_pair)
    show ?case
      using snoc.IH [OF t(1)] t(2) unfolding e
      by (cases msg) (auto simp: last_connection_def download_ids_def List.map_filter_def
        Minimal_cancel_all_orders_def Let_def max_def split: option.splits if_splits)
  qed
  then show "mi_ready s = (last_connection (map (snd \<circ> snd) es) \<noteq> [] \<and> last (last_connection (map (snd \<circ> snd) es)) = Ready)"
    "mi_max_order_id s = foldl max 0 (download_ids (map (snd \<circ> snd) es))" by simp_all
qed

end
