(* ===== verification/Configs.thy ===== *)
theory Configs
  imports Algo_Props Maker_Quote Clients
begin

text \<open>
  What each sample announces to the client library: \<open>Config::dispatch\<close> of every
  \<open>config.cpp\<close> (and of the minimal and maker samples, which have it in \<open>main.cpp\<close>), as the
  list of items it hands to the library, in order. The settings come from generated code (the
  command line flags), so they are arguments.
  Shown: the algo prototype subscribes to exactly the markets it has routes for.
\<close>

datatype order_cancel_policy = MANAGED_ORDERS | BY_ACCOUNT

datatype config_item =
    C_Settings order_cancel_policy
  | C_Account string
  | C_Symbol string string

text \<open>The arguments of \<open>C_Symbol\<close> are the pattern and the exchange.\<close>

section \<open>Samples that only read market data\<close>

definition Config_depth :: "string \<Rightarrow> string \<Rightarrow> config_item list" where
  "Config_depth exchange symbol = [C_Symbol symbol exchange]"

definition Config_example_7 :: "string \<Rightarrow> string \<Rightarrow> config_item list" where
  "Config_example_7 exchange symbol = [C_Symbol symbol exchange]"

definition Config_example_9 :: "string \<Rightarrow> string \<Rightarrow> config_item list" where
  "Config_example_9 exchange symbol = [C_Symbol symbol exchange]"

definition Config_io_context :: "string \<Rightarrow> string \<Rightarrow> config_item list" where
  "Config_io_context exchange symbol = [C_Symbol symbol exchange]"

definition Config_republish :: "string \<Rightarrow> string \<Rightarrow> config_item list" where
  "Config_republish exchange symbol = [C_Symbol symbol exchange]"

definition Config_rest :: "string \<Rightarrow> string \<Rightarrow> config_item list" where
  "Config_rest exchange symbol = [C_Symbol symbol exchange]"

definition Config_example_4 :: "string \<Rightarrow> string \<Rightarrow> config_item list" where
  "Config_example_4 exchange symbols = [C_Symbol symbols exchange]"

definition Config_python :: "string \<Rightarrow> string \<Rightarrow> config_item list" where
  "Config_python exchange symbols = [C_Symbol symbols exchange]"

definition Config_metrics :: "string \<Rightarrow> config_item list" where
  "Config_metrics symbols = [C_Symbol symbols []]"

definition Config_example_1 :: "string \<Rightarrow> string \<Rightarrow> string \<Rightarrow> string \<Rightarrow> config_item list" where
  "Config_example_1 deribit_exchange deribit_symbols coinbase_pro_exchange coinbase_pro_symbols = [C_Symbol deribit_symbols deribit_exchange, C_Symbol coinbase_pro_symbols coinbase_pro_exchange]"

definition Config_example_5 :: "string \<Rightarrow> string \<Rightarrow> string \<Rightarrow> string \<Rightarrow> config_item list" where
  "Config_example_5 deribit_exchange deribit_symbols coinbase_pro_exchange coinbase_pro_symbols = [C_Symbol deribit_symbols deribit_exchange, C_Symbol coinbase_pro_symbols coinbase_pro_exchange]"

definition Config_example_2 :: "string \<Rightarrow> string \<Rightarrow> string \<Rightarrow> string \<Rightarrow> config_item list" where
  "Config_example_2 futures_exchange futures_symbol cash_exchange cash_symbol = [C_Symbol futures_symbol futures_exchange, C_Symbol cash_symbol cash_exchange]"

section \<open>Samples that send orders\<close>

definition Config_example_3 :: "string \<Rightarrow> string \<Rightarrow> string \<Rightarrow> string \<Rightarrow> config_item list" where
  "Config_example_3 account exchange symbol currencies = [C_Settings MANAGED_ORDERS, C_Account account, C_Symbol symbol exchange, C_Symbol currencies []]"

definition Config_bridge :: "string \<Rightarrow> string \<Rightarrow> string \<Rightarrow> string \<Rightarrow> config_item list" where
  "Config_bridge account exchange symbol currencies = [C_Settings MANAGED_ORDERS, C_Account account, C_Symbol symbol exchange, C_Symbol currencies []]"

definition Config_example_6 :: "string \<Rightarrow> string \<Rightarrow> string \<Rightarrow> string \<Rightarrow> string \<Rightarrow> string \<Rightarrow> config_item list" where
  "Config_example_6 account exchange_1 symbol_1 exchange_2 symbol_2 currencies = [C_Settings MANAGED_ORDERS, C_Account account, C_Symbol symbol_1 exchange_1, C_Symbol symbol_2 exchange_2, C_Symbol currencies []]"

definition Config_example_8 :: "string \<Rightarrow> string \<Rightarrow> string \<Rightarrow> config_item list" where
  "Config_example_8 account exchange symbol = [C_Settings BY_ACCOUNT, C_Symbol symbol exchange, C_Account account]"

definition Config_polling :: "string \<Rightarrow> string \<Rightarrow> string \<Rightarrow> config_item list" where
  "Config_polling account exchange symbol = [C_Settings BY_ACCOUNT, C_Account account, C_Symbol symbol exchange]"

text \<open>Strategy 1 keeps a set of accounts and a map from exchanges to sets of symbols, filled
  from its settings; the lists are in the order of the containers.\<close>

definition create_accounts :: "string \<Rightarrow> string list" where
  "create_accounts account = [account]"

definition create_exchange_symbols :: "string \<Rightarrow> string \<Rightarrow> (string \<times> string list) list" where
  "create_exchange_symbols exchange symbol = [(exchange, [symbol])]"

definition Config_strategy_1 :: "string \<Rightarrow> string \<Rightarrow> string \<Rightarrow> config_item list" where
  "Config_strategy_1 account exchange symbol =
     C_Settings MANAGED_ORDERS # map C_Account (create_accounts account) @
     concat (map (\<lambda>(exchange, tmp). map (\<lambda>symbol. C_Symbol symbol exchange) tmp) (create_exchange_symbols exchange symbol))"

definition Config_minimal :: "config_item list" where
  "Config_minimal = [C_Settings BY_ACCOUNT, C_Account MINIMAL_ACCOUNT, C_Symbol MINIMAL_SYMBOL MINIMAL_EXCHANGE]"

definition Config_maker :: "config_item list" where
  "Config_maker = [C_Settings BY_ACCOUNT, C_Account MAKER_ACCOUNT, C_Symbol MAKER_SYMBOL MAKER_EXCHANGE]"

definition Config_algo_proto :: "proto_config \<Rightarrow> config_item list" where
  "Config_algo_proto config =
     [C_Settings BY_ACCOUNT, C_Account (pc_account config)] @
     concat (map (\<lambda>(exchange, symbols). map (\<lambda>symbol. C_Symbol symbol exchange) symbols) (pc_exchange_symbols config))"

section \<open>Properties\<close>

text \<open>
  The algo prototype subscribes to exactly the markets it can route: for a configuration
  that parses, an exchange and symbol are announced to the client library if and only if the
  bridge has a route for them, and if and only if some strategy trades them.
\<close>

theorem Config_subscribes_routes:
  fixes C :: "('g, 'm, 'u) algo_cache"
  assumes "Config_new account doc = Inr config" "create_routes dbg C config = Inr routes"
  shows "(C_Symbol symbol exchange \<in> set (Config_algo_proto config)) = (find_route routes exchange symbol \<noteq> None) \<and>
    (C_Symbol symbol exchange \<in> set (Config_algo_proto config)) =
      (\<exists>name strategy i. (name, strategy) \<in> set (pc_strategies config) \<and> i \<in> set (ac_instruments strategy) \<and>
         ai_exchange i = exchange \<and> ai_symbol i = symbol)"
proof -
  note sym = Config_new_symbols [OF assms(1)]
  have keys: "distinct (map fst (pc_exchange_symbols config))"
    using extract_symbols_distinct [of "pc_strategies config"] sym by simp
  have "(C_Symbol symbol exchange \<in> set (Config_algo_proto config)) = has_symbol (pc_exchange_symbols config) exchange symbol"
    using map_of_eq_Some_iff [OF keys] by (auto simp: Config_algo_proto_def has_symbol_def)
  moreover have "has_symbol (pc_exchange_symbols config) exchange symbol =
      (\<exists>name strategy i. (name, strategy) \<in> set (pc_strategies config) \<and> i \<in> set (ac_instruments strategy) \<and>
         ai_exchange i = exchange \<and> ai_symbol i = symbol)"
    unfolding sym extract_symbols_def fold_add_symbol_has by (force simp: has_symbol_def)
  ultimately show ?thesis using Config_routes [OF assms(1), of dbg C] assms(2) by auto
qed

theorem Config_subscribes_routes_witness:
  "\<exists>routes. create_routes True demo_cache proto_demo_config = Inr routes \<and>
     C_Symbol ''X'' ''deribit'' \<in> set (Config_algo_proto proto_demo_config) \<and> find_route routes ''deribit'' ''X'' \<noteq> None"
proof -
  obtain routes where r: "create_routes True demo_cache proto_demo_config = Inr routes"
    using Config_routes [OF proto_demo_parsed, of True demo_cache] by blast
  have "C_Symbol ''X'' ''deribit'' \<in> set (Config_algo_proto proto_demo_config)"
    by (simp add: Config_algo_proto_def proto_demo_config_def)
  then show ?thesis
    using Config_subscribes_routes [OF proto_demo_parsed r, of "''X''" "''deribit''"] r by blast
qed

end
