(* ===== verification/Algo_Safe.thy ===== *)
theory Algo_Safe
  imports Configs
begin

text \<open>
  The algo prototype end to end. A session in which the client library delivers what the
  configuration asked for (messages of the announced markets, from the sources that exist, order
  messages with the routing id of the strategy) never ends in \<open>log::fatal\<close>, a failed assertion or
  undefined behaviour; only the dispatcher can end it, with an exception. And every order of the
  spread strategy is priced off the second instrument. Both need a configuration with two
  instruments and an order with a side, which nothing in the program checks.
\<close>

abbreviation raised :: "failure \<Rightarrow> bool" where
  "raised f \<equiv> (\<exists>x. f = Raised x)"

section \<open>Well-formed states\<close>

text \<open>\<open>has\<close> are the markets that are subscribed, \<open>n\<close> the number of sources, \<open>i\<close> the strategy.\<close>

definition core_wf ::
  "(string \<Rightarrow> string \<Rightarrow> bool) \<Rightarrow> nat \<Rightarrow> u32 \<Rightarrow> ('g, 'm) bridge_core \<Rightarrow> bool" where
  "core_wf has n i w \<longleftrightarrow> core_inv w \<and> length (br_gateways w) = n \<and>
     (\<forall>e s. has e s \<longrightarrow> find_route (br_routes w) e s \<noteq> None) \<and>
     (\<forall>e s r. find_route (br_routes w) e s = Some r \<longrightarrow> rt_strategies r = [] \<or> rt_strategies r = [i])"

definition spread_wf :: "(string \<Rightarrow> string \<Rightarrow> bool) \<Rightarrow> Spread \<Rightarrow> bool" where
  "spread_wf has s \<longleftrightarrow> sp_routing_id s \<noteq> [] \<and> 2 \<le> length (sp_state s) \<and>
     length (sp_order_managers s) = length (sp_state s) \<and>
     length (sp_ready_by_instrument s) = length (sp_state s) \<and>
     om_index (sp_order_managers s ! 0) = 0 \<and> sp_side s \<noteq> Side_UNDEFINED \<and>
     (\<forall>x \<in> set (sp_state s). has (ai_exchange x) (ai_symbol x)) \<and>
     (\<forall>i k. sp_order_index s i = Some k \<longrightarrow> k < length (sp_state s))"

text \<open>The order of the strategy can be routed; before it has one, it knows of none.\<close>

definition link_wf :: "('g, 'm) bridge_core \<Rightarrow> Spread \<Rightarrow> bool" where
  "link_wf w s \<longleftrightarrow> (if spread_oid s = 0 then sp_order_index s = Map.empty
                  else spread_oid s \<in> dom (br_order_id_to_source w))"

definition pair_wf ::
  "(string \<Rightarrow> string \<Rightarrow> bool) \<Rightarrow> nat \<Rightarrow> u32 \<Rightarrow> ('g, 'm) bridge_core \<times> Spread \<Rightarrow> bool" where
  "pair_wf has n i ws \<longleftrightarrow> core_wf has n i (fst ws) \<and> spread_wf has (snd ws) \<and> link_wf (fst ws) (snd ws)"

definition Bridge_wf ::
  "(string \<Rightarrow> string \<Rightarrow> bool) \<Rightarrow> nat \<Rightarrow> string \<Rightarrow> ('g, 'm) Bridge \<Rightarrow> bool" where
  "Bridge_wf has n rid b \<longleftrightarrow> (\<exists>i s. br_strategies b = [(i, s)] \<and> br_routing_id_to_strategy b rid = Some i \<and>
     pair_wf has n i (br_core b, s))"

definition Bridge_room :: "('g, 'm) Bridge \<Rightarrow> bool" where
  "Bridge_room b \<longleftrightarrow> br_max_order_id (br_core b) \<noteq> - 1"

section \<open>The strategy\<close>

lemma core_wf_cong:
  assumes "core_wf has n i w" "core_inv w'" "br_gateways w' = br_gateways w" "br_routes w' = br_routes w"
  shows "core_wf has n i w'"
  using assms by (simp add: core_wf_def)

lemma Bridge_create_wf:
  assumes "core_wf has n i w" "has (co_exchange c) (co_symbol c)" "co_routing_id c \<noteq> []"
  shows "result_all (\<lambda>w'. core_wf has n i w' \<and> co_order_id c \<in> dom (br_order_id_to_source w')) raised
    (Bridge_create_order dbg D c w)"
proof (cases "Bridge_create_order dbg D c w")
  case (Inl f)
  have "find_route (br_routes w) (co_exchange c) (co_symbol c) \<noteq> None"
    using assms(1,2) by (simp add: core_wf_def)
  then show ?thesis using Inl assms(3)
    by (auto simp: Bridge_create_order_def core_send_def assert_then_def Let_def split: option.splits)
next
  case (Inr w')
  have "br_gateways w' = br_gateways w" "br_routes w' = br_routes w"
    using Inr by (auto simp: Bridge_create_order_def core_send_def result_Inr Let_def split: option.splits if_splits)
  moreover have "core_inv w'" using create_core(1) [OF Inr] assms(1) by (simp add: core_wf_def)
  ultimately have "core_wf has n i w'" using core_wf_cong assms(1) by blast
  then show ?thesis using create_core(3) [OF Inr] Inr by simp
qed

lemma Bridge_modify_wf:
  assumes "core_wf has n i w" "mo_order_id m \<in> dom (br_order_id_to_source w)" "mo_routing_id m \<noteq> []"
  shows "result_all (\<lambda>w'. core_wf has n i w' \<and> br_order_id_to_source w' = br_order_id_to_source w) raised
    (Bridge_modify_order dbg D m w)"
proof (cases "Bridge_modify_order dbg D m w")
  case (Inl f)
  then show ?thesis using assms(2,3)
    by (auto simp: Bridge_modify_order_def find_source_def core_send_def assert_then_def Let_def split: option.splits)
next
  case (Inr w')
  have "br_gateways w' = br_gateways w" "br_routes w' = br_routes w"
    using Inr by (auto simp: Bridge_modify_order_def core_send_def result_Inr Let_def split: option.splits)
  moreover have "core_inv w'" using modify_core(1) [OF Inr] assms(1) by (simp add: core_wf_def)
  ultimately have "core_wf has n i w'" using core_wf_cong assms(1) by blast
  then show ?thesis using modify_core(2) [OF Inr] Inr by simp
qed

text \<open>Setting a target changes prices and quantities only, or adds the order.\<close>

lemma set_target_wf:
  fixes w :: "('g, 'm) bridge_core"
  assumes wf: "pair_wf has n i (w, s)" and "sp_ready s" and room: "br_max_order_id w \<noteq> - 1"
  shows "result_all (pair_wf has n i) raised
    (OrderManager_set_target dbg U (bridge_context dbg D) 0 quantity price (w, s))"
proof -
  have core: "core_wf has n i w" and sp: "spread_wf has s" and link: "link_wf w s"
    using wf by (simp_all add: pair_wf_def)
  obtain om oms where oms: "sp_order_managers s = om # oms"
    using sp by (cases "sp_order_managers s") (auto simp: spread_wf_def)
  obtain x xs where st: "sp_state s = x # xs" using sp by (cases "sp_state s") (auto simp: spread_wf_def)
  have om: "om_index om = 0" "sp_routing_id s \<noteq> []" "has (ai_exchange x) (ai_symbol x)"
    using sp by (simp_all add: spread_wf_def oms st)
  obtain c1 q where q: "update_double U (om_target_quantity om) quantity = (c1, q)" by fastforce
  obtain c2 p where p: "update_double U (om_target_price om) price = (c2, p)" by fastforce
  define om1 where "om1 = om\<lparr>om_target_quantity := q, om_target_price := p\<rparr>"
  define s1 where "s1 = s\<lparr>sp_order_managers := om1 # oms\<rparr>"
  have s1: "spread_wf has s1" "link_wf w' s1 = link_wf w' s" "spread_oid s1 = om_order_id om" for w' :: "('g, 'm) bridge_core"
    using sp by (simp_all add: spread_wf_def s1_def om1_def oms link_wf_def spread_oid_def)
  show ?thesis
  proof (cases "c1 \<or> c2")
    case False
    then have "OrderManager_set_target dbg U (bridge_context dbg D) 0 quantity price (w, s) = Inr (w, s1)"
      using q p assms(2) by (simp add: OrderManager_set_target_def oms s1_def om1_def)
    then show ?thesis using core s1 link by (simp add: pair_wf_def)
  next
    case True
    let ?id = "br_max_order_id w + 1"
    show ?thesis
    proof (cases "om_order_id om = 0")
      case new: True
      have pos: "?id \<noteq> 0" using word_less_plus_one [OF room] by auto
      have empty: "sp_order_index s = Map.empty" using link new by (simp add: link_wf_def spread_oid_def oms)
      let ?c = "OrderManager_create s1 om1 x ?id"
      let ?s2 = "s1\<lparr>sp_order_managers := om1\<lparr>om_order_id := ?id\<rparr> # oms, sp_order_index := [?id \<mapsto> 0]\<rparr>"
      have eq: "OrderManager_set_target dbg U (bridge_context dbg D) 0 quantity price (w, s) =
          bind_result (Bridge_create_order dbg D ?c w) (\<lambda>w1. Inr (w1, ?s2))"
        using q p True new assms(2) empty
        by (cases c1) (simp_all add: OrderManager_set_target_def oms st s1_def om1_def om bridge_context_def Let_def)
      have next_wf: "pair_wf has n i (w1, ?s2)" if "core_wf has n i w1 \<and> ?id \<in> dom (br_order_id_to_source w1)" for w1
        using that s1(1) pos om(1)
        by (auto simp: pair_wf_def spread_wf_def link_wf_def spread_oid_def s1_def om1_def)
      have "result_all (\<lambda>w1. core_wf has n i w1 \<and> ?id \<in> dom (br_order_id_to_source w1)) raised
          (Bridge_create_order dbg D ?c w)"
        using Bridge_create_wf [OF core, of ?c dbg D] om by (simp add: OrderManager_create_def s1_def)
      then show ?thesis unfolding eq by (rule result_all_bind) (simp only: result_all_simps next_wf)
    next
      case old: False
      let ?m = "\<lparr>mo_account = sp_account s1, mo_order_id = om_order_id om, mo_quantity = NaN,
        mo_price = om_target_price om1, mo_routing_id = sp_routing_id s1\<rparr>"
      have eq: "OrderManager_set_target dbg U (bridge_context dbg D) 0 quantity price (w, s) =
          bind_result (Bridge_modify_order dbg D ?m w) (\<lambda>w1. Inr (w1, s1))"
        using q p True old assms(2)
        by (cases c1) (simp_all add: OrderManager_set_target_def oms s1_def om1_def bridge_context_def Let_def)
      have "om_order_id om \<in> dom (br_order_id_to_source w)" using link old by (simp add: link_wf_def spread_oid_def oms)
      then have modified: "result_all (\<lambda>w1. core_wf has n i w1 \<and> br_order_id_to_source w1 = br_order_id_to_source w) raised
          (Bridge_modify_order dbg D ?m w)"
        using Bridge_modify_wf [OF core, of ?m dbg D] om by (simp add: s1_def)
      have next_wf: "pair_wf has n i (w1, s1)"
        if "core_wf has n i w1 \<and> br_order_id_to_source w1 = br_order_id_to_source w" for w1 :: "('g, 'm) bridge_core"
      proof -
        have "link_wf w1 s = link_wf w s" using that by (simp add: link_wf_def)
        then show ?thesis using that s1(1,2) link by (simp add: pair_wf_def)
      qed
      show ?thesis unfolding eq using modified by (rule result_all_bind) (simp only: result_all_simps next_wf)
    qed
  qed
qed

lemma state_market_wf:
  assumes "core_wf has n i w" "spread_wf has s" "k < length (sp_state s)"
  shows "\<exists>a. state_market (bridge_context dbg D) (sp_state s) w k = Inr a"
proof -
  have "sp_state s ! k \<in> set (sp_state s)" using assms(3) by simp
  then have "has (ai_exchange (sp_state s ! k)) (ai_symbol (sp_state s ! k))"
    using assms(2) by (simp add: spread_wf_def)
  then have "find_route (br_routes w) (ai_exchange (sp_state s ! k)) (ai_symbol (sp_state s ! k)) \<noteq> None"
    using assms(1) by (simp add: core_wf_def)
  then show ?thesis using assms(3) by (auto simp: state_market_def bridge_context_def)
qed

lemma Spread_update_wf:
  assumes "pair_wf has n i (w, s)" "br_max_order_id w \<noteq> - 1"
  shows "result_all (pair_wf has n i) raised (Spread_update dbg U C (bridge_context dbg D) (w, s))"
proof (cases "sp_ready s")
  case True
  have sp: "core_wf has n i w" "spread_wf has s" "2 \<le> length (sp_state s)" "sp_side s \<noteq> Side_UNDEFINED"
    using assms(1) by (simp_all add: pair_wf_def spread_wf_def)
  have len: "0 < length (sp_state s)" "1 < length (sp_state s)" using sp(3) by linarith+
  obtain a0 where a0: "state_market (bridge_context dbg D) (sp_state s) w 0 = Inr a0"
    using state_market_wf [OF sp(1,2)] len(1) by blast
  obtain a1 where a1: "state_market (bridge_context dbg D) (sp_state s) w 1 = Inr a1"
    using state_market_wf [OF sp(1,2)] len(2) by blast
  show ?thesis
    using True a0 a1 sp(4) assms(1) set_target_wf [OF assms(1) True assms(2), where dbg = dbg and U = U and D = D]
    by (cases "sp_side s") (simp_all add: Spread_update_def Base_extract_def split: option.splits)
qed (use assms in \<open>simp add: Spread_update_def\<close>)

lemma Base_ready_loop_wf:
  assumes "core_wf has n i w" "spread_wf has s" "unat src < n" "k + length flags \<le> length (sp_state s)"
  shows "\<exists>flags' r. Base_ready_loop U C (bridge_context dbg D) w s src k flags = Inr (flags', r) \<and>
    length flags' = length flags"
  using assms(4)
proof (induction flags arbitrary: k)
  case (Cons f fs)
  obtain a where a: "state_market (bridge_context dbg D) (sp_state s) w k = Inr a"
    using state_market_wf [OF assms(1,2)] Cons.prems by fastforce
  obtain g where g: "ctx_gateway (bridge_context dbg D) w src = Some g"
    using assms(1,3) by (auto simp: bridge_context_def core_wf_def)
  obtain fs' r where "Base_ready_loop U C (bridge_context dbg D) w s src (k + 1) fs = Inr (fs', r)" "length fs' = length fs"
    using Cons.IH [of "k + 1"] Cons.prems by auto
  then show ?case using a g by (auto simp: state_ready_def split: prod.splits)
qed auto

lemma Base_update_wf:
  assumes "pair_wf has n i (w, s)" "br_max_order_id w \<noteq> - 1" "unat (source info) < n"
  shows "result_all (pair_wf has n i) raised (Base_update dbg U C (bridge_context dbg D) info (w, s))"
proof -
  have sp: "core_wf has n i w" "spread_wf has s" using assms(1) by (simp_all add: pair_wf_def)
  obtain flags r where loop: "Base_ready_loop U C (bridge_context dbg D) w s (source info) 0 (sp_ready_by_instrument s) = Inr (flags, r)"
      "length flags = length (sp_ready_by_instrument s)"
    using Base_ready_loop_wf [OF sp assms(3), of 0 "sp_ready_by_instrument s" U C dbg D] sp(2) by (auto simp: spread_wf_def)
  have "pair_wf has n i (w, s\<lparr>sp_ready_by_instrument := flags, sp_ready := b\<rparr>)" for b
  proof -
    have "spread_oid (s\<lparr>sp_ready_by_instrument := flags, sp_ready := b\<rparr>) = spread_oid s" by (simp add: spread_oid_def)
    then show ?thesis using assms(1) loop(2) by (simp add: pair_wf_def spread_wf_def link_wf_def)
  qed
  then have "result_all (pair_wf has n i) raised
      (Spread_update dbg U C (bridge_context dbg D) (w, s\<lparr>sp_ready_by_instrument := flags, sp_ready := b\<rparr>))"
    "pair_wf has n i (w, s\<lparr>sp_ready_by_instrument := flags, sp_ready := b\<rparr>)" for b
    using Spread_update_wf [OF _ assms(2), where dbg = dbg and U = U and C = C and D = D] by blast+
  then show ?thesis using loop(1) by (simp add: Base_update_eq Let_def split: prod.splits)
qed

text \<open>The messages a strategy is given, and where they have to come from.\<close>

definition from_source :: "nat \<Rightarrow> message_info \<Rightarrow> 'u message \<Rightarrow> bool" where
  "from_source n info msg \<longleftrightarrow> unat (source info) < n \<or> (case msg of Timer t \<Rightarrow> True | OrderAck a \<Rightarrow> True | OrderUpdate u \<Rightarrow> True | _ \<Rightarrow> False)"

lemma Spread_handle_wf:
  assumes "pair_wf has n i (w, s)" "br_max_order_id w \<noteq> - 1" "from_source n info msg"
  shows "result_all (pair_wf has n i) raised (Spread_handle dbg U C (bridge_context dbg D) info msg (w, s))"
proof -
  have "result_all (pair_wf has n i) raised (Base_dispatch m order_id (w, s))" for m order_id
    using assms(1) by (auto simp: Base_dispatch_eq pair_wf_def spread_wf_def split: option.splits)
  then show ?thesis
    using assms Base_update_wf [OF assms(1,2), of info dbg U C D] Spread_update_wf [OF assms(1,2), of dbg U C D]
    by (cases msg) (simp_all add: from_source_def)
qed

section \<open>The bridge\<close>

lemma to_strategy_wf:
  assumes "Bridge_wf has n rid b" "Bridge_room b" "from_source n info msg" "k = 0"
  shows "result_all (Bridge_wf has n rid) raised (Bridge_to_strategy dbg U C D info msg k b)"
proof -
  obtain i s where b: "br_strategies b = [(i, s)]" "br_routing_id_to_strategy b rid = Some i" "pair_wf has n i (br_core b, s)"
    using assms(1) by (auto simp: Bridge_wf_def)
  have "result_all (pair_wf has n i) raised (Spread_handle dbg U C (bridge_context dbg D) info msg (br_core b, s))"
    using Spread_handle_wf [OF b(3) _ assms(3)] assms(2) by (simp add: Bridge_room_def)
  moreover have "Bridge_wf has n rid (b\<lparr>br_core := w, br_strategies := [(i, s')]\<rparr>)" if "pair_wf has n i (w, s')" for w s'
    using that b(2) by (simp add: Bridge_wf_def)
  ultimately show ?thesis using assms(4) unfolding Bridge_to_strategy_def
    by (auto simp: b(1) intro!: result_all_bind)
qed

text \<open>Gateway and market messages have passed through a strategy at most once.\<close>

lemma Bridge_wf_position:
  assumes "Bridge_wf has n rid b"
  obtains i where "br_routing_id_to_strategy b rid = Some i" "length (br_strategies b) = 1"
    "strategy_position (br_strategies b) i = Some 0"
    "\<And>e s r. find_route (br_routes (br_core b)) e s = Some r \<Longrightarrow> rt_strategies r = [] \<or> rt_strategies r = [i]"
  using assms by (auto simp: Bridge_wf_def pair_wf_def core_wf_def strategy_position_def)

lemma core_change_wf:
  assumes "Bridge_wf has n rid b" "\<And>i. core_wf has n i (br_core b) \<Longrightarrow> core_wf has n i w"
    and "br_order_id_to_source w = br_order_id_to_source (br_core b)"
  shows "Bridge_wf has n rid (b\<lparr>br_core := w\<rparr>)"
  using assms by (fastforce simp: Bridge_wf_def pair_wf_def link_wf_def)

lemma on_gateway_wf:
  assumes "Bridge_wf has n rid b" "Bridge_room b" "unat (source info) < n"
  shows "result_all (Bridge_wf has n rid) raised (Bridge_on_gateway dbg U C D info msg b)"
proof -
  let ?w = "br_core b"
  obtain changed g where g: "gw_apply C (br_gateways ?w ! unat (source info)) info msg = (changed, g)" by fastforce
  let ?b = "b\<lparr>br_core := ?w\<lparr>br_gateways := (br_gateways ?w)[unat (source info) := g]\<rparr>\<rparr>"
  have wf: "Bridge_wf has n rid ?b"
    using assms(1) by (rule core_change_wf) (simp_all add: core_wf_def core_inv_def)
  have len: "length (br_gateways ?w) = n" "length (br_strategies ?b) = 1"
    using assms(1) by (auto simp: Bridge_wf_def pair_wf_def core_wf_def)
  have "result_all (Bridge_wf has n rid) raised (Bridge_to_strategy dbg U C D info msg 0 ?b)"
    using to_strategy_wf [OF wf, where k = 0 and info = info and msg = msg] assms(2,3) by (simp add: Bridge_room_def from_source_def)
  then have "result_all (Bridge_wf has n rid) raised (Bridge_to_strategies dbg U C D info msg [0] ?b)"
    by (auto intro!: result_all_bind)
  then show ?thesis using g wf len assms(3) by (simp add: Bridge_on_gateway_def Let_def)
qed

lemma to_route_wf:
  assumes "Bridge_wf has n rid b" "Bridge_room b" "unat (source info) < n" "is = [] \<or> is = [i]"
    and "br_routing_id_to_strategy b rid = Some i"
  shows "result_all (Bridge_wf has n rid) raised (Bridge_to_route dbg U C D info msg is b)"
proof -
  have pos: "strategy_position (br_strategies b) i = Some 0"
    using Bridge_wf_position [OF assms(1)] assms(5) by (metis option.inject)
  have "result_all (Bridge_wf has n rid) raised (Bridge_to_strategy dbg U C D info msg 0 b)"
    using to_strategy_wf [OF assms(1,2), where k = 0 and msg = msg and info = info] assms(3) by (simp add: from_source_def)
  then have "result_all (Bridge_wf has n rid) raised (Bridge_to_route dbg U C D info msg [i] b)"
    using pos by (auto intro!: result_all_bind)
  then show ?thesis using assms(1,4) by auto
qed

lemma dispatch_wf:
  assumes "Bridge_wf has n rid b" "Bridge_room b" "unat (source info) < n" "has exchange symbol"
  shows "result_all (Bridge_wf has n rid) raised (Bridge_dispatch dbg U C D info exchange symbol msg b)"
proof -
  let ?w = "br_core b"
  obtain i where i: "br_routing_id_to_strategy b rid = Some i"
    "\<And>e s r. find_route (br_routes ?w) e s = Some r \<Longrightarrow> rt_strategies r = [] \<or> rt_strategies r = [i]"
    using Bridge_wf_position [OF assms(1)] by metis
  obtain r where r: "find_route (br_routes ?w) exchange symbol = Some r"
    using assms(1,4) by (fastforce simp: Bridge_wf_def pair_wf_def core_wf_def)
  obtain changed a where a: "algo_market_apply C (rt_market r) info msg = (changed, a)" by fastforce
  let ?b = "b\<lparr>br_core := ?w\<lparr>br_routes := set_route exchange symbol (r\<lparr>rt_market := a\<rparr>) (br_routes ?w)\<rparr>\<rparr>"
  have wf: "Bridge_wf has n rid ?b"
    using assms(1) by (rule core_change_wf) (use r in \<open>auto simp: core_wf_def core_inv_def find_set_route\<close>)
  have "result_all (Bridge_wf has n rid) raised (Bridge_to_route dbg U C D info msg (rt_strategies r) ?b)"
    by (rule to_route_wf [OF wf _ assms(3) i(2) [OF r]]) (use i(1) assms(2) in \<open>simp_all add: Bridge_room_def\<close>)
  then show ?thesis using r a wf by (simp add: Bridge_dispatch_def Let_def)
qed

lemma max_order_id_wf:
  assumes "Bridge_wf has n rid b"
  shows "Bridge_wf has n rid (b\<lparr>br_core := (br_core b)\<lparr>br_max_order_id := max (br_max_order_id (br_core b)) x\<rparr>\<rparr>)"
  using assms by (rule core_change_wf) (auto simp: core_wf_def core_inv_def le_max_iff_disj)

lemma on_order_wf:
  assumes "Bridge_wf has n rid b" "routing_id = rid" "from_source n info msg"
    and "Bridge_room (b\<lparr>br_core := (br_core b)\<lparr>br_max_order_id := max (br_max_order_id (br_core b)) order_id\<rparr>\<rparr>)"
  shows "result_all (Bridge_wf has n rid) raised (Bridge_on_order dbg U C D info msg order_id routing_id b)"
proof -
  let ?b = "b\<lparr>br_core := (br_core b)\<lparr>br_max_order_id := max (br_max_order_id (br_core b)) order_id\<rparr>\<rparr>"
  obtain i where "br_routing_id_to_strategy b rid = Some i" "strategy_position (br_strategies b) i = Some 0"
    using Bridge_wf_position [OF assms(1)] by metis
  then have "find_strategy ?b routing_id = Some 0" using assms(2) by (simp add: find_strategy_def)
  then show ?thesis
    using to_strategy_wf [OF max_order_id_wf [OF assms(1)] assms(4,3), where k = 0] by (simp add: Bridge_on_order_def Let_def)
qed

section \<open>Legal events\<close>

text \<open>
  What the client library delivers: gateway messages of a source that exists, market messages of
  a market that was announced, order messages with the routing id of the order. An order id or a
  downloaded maximum is below the top of its type.
\<close>

fun legal_event :: "(string \<Rightarrow> string \<Rightarrow> bool) \<Rightarrow> nat \<Rightarrow> string \<Rightarrow> 'u client_event \<Rightarrow> bool" where
  "legal_event has n rid (D, info, msg) = (case msg of
      Connected \<Rightarrow> unat (source info) < n
    | Disconnected \<Rightarrow> unat (source info) < n
    | DownloadBegin d \<Rightarrow> unat (source info) < n
    | DownloadEnd d \<Rightarrow> unat (source info) < n \<and> de_max_order_id d \<noteq> - 1
    | GatewaySettings \<Rightarrow> unat (source info) < n
    | GatewayStatus g \<Rightarrow> unat (source info) < n
    | ReferenceData r \<Rightarrow> unat (source info) < n \<and> has (rd_exchange r) (rd_symbol r)
    | MarketStatus m \<Rightarrow> unat (source info) < n \<and> has (ms_exchange m) (ms_symbol m)
    | TopOfBook t \<Rightarrow> unat (source info) < n \<and> has (tob_exchange t) (tob_symbol t)
    | MarketByPriceUpdate u \<Rightarrow> unat (source info) < n \<and> has (bu_exchange u) (bu_symbol u)
    | OrderAck a \<Rightarrow> oa_routing_id a = rid \<and> oa_order_id a \<noteq> - 1
    | OrderUpdate u \<Rightarrow> ou_routing_id u = rid \<and> ou_order_id u \<noteq> - 1
    | _ \<Rightarrow> True)"

lemma Bridge_step_wf:
  assumes wf: "Bridge_wf has n rid b" and room: "Bridge_room b" and legal: "legal_event has n rid (D, info, msg)"
  shows "result_all (Bridge_wf has n rid) raised (Bridge_step dbg U C b (D, info, msg))"
proof -
  have top: "Bridge_room (b\<lparr>br_core := (br_core b)\<lparr>br_max_order_id := max (br_max_order_id (br_core b)) x\<rparr>\<rparr>)" if "x \<noteq> - 1" for x
    using room that by (simp add: Bridge_room_def max_def)
  have len: "length (br_strategies b) = 1" using wf by (auto simp: Bridge_wf_def)
  have timer: "result_all (Bridge_wf has n rid) raised (Bridge_to_strategies dbg U C D info (Timer now) [0] b)" for now
    using to_strategy_wf [OF wf room, where k = 0 and info = info and msg = "Timer now" and U = U and C = C and dbg = dbg and D = D]
    by (auto simp: from_source_def intro!: result_all_bind)
  show ?thesis
  proof (cases msg)
    case (Timer now)
    then show ?thesis using timer len by simp
  next
    case (DownloadEnd d)
    then show ?thesis using legal on_gateway_wf [OF max_order_id_wf [OF wf] top, where dbg = dbg and U = U and C = C and D = D and info = info and msg = msg] by simp
  next
    case (OrderAck a)
    then show ?thesis using legal on_order_wf [OF wf _ _ top, where dbg = dbg and U = U and C = C and D = D and info = info and msg = msg] by (simp add: from_source_def)
  next
    case (OrderUpdate u)
    then show ?thesis using legal on_order_wf [OF wf _ _ top, where dbg = dbg and U = U and C = C and D = D and info = info and msg = msg] by (simp add: from_source_def)
  qed (use legal wf on_gateway_wf [OF wf room, where dbg = dbg and U = U and C = C and D = D and info = info and msg = msg]
      dispatch_wf [OF wf room, where dbg = dbg and U = U and C = C and D = D and info = info and msg = msg] in simp_all)
qed

interpretation proto_machine: guarded_machine "Bridge_step dbg U C" "Bridge_wf has n rid" Bridge_room
  "legal_event has n rid" "\<lambda>f. \<not> raised f" for dbg U C has n rid
proof (unfold_locales, goal_cases)
  case (1 b e)
  then show ?case
    using Bridge_step_wf [of has n rid b "fst e" "fst (snd e)" "snd (snd e)" dbg U C] by simp
qed

section \<open>The constructed bridge\<close>

lemma create_symbol_routes_empty:
  "create_symbol_routes dbg C exchange symbols acc = Inr acc' \<Longrightarrow>
     \<forall>e s r. find_route (snd acc) e s = Some r \<longrightarrow> rt_strategies r = [] \<Longrightarrow>
     \<forall>e s r. find_route (snd acc') e s = Some r \<longrightarrow> rt_strategies r = []"
proof (induction symbols arbitrary: acc)
  case (Cons x xs)
  obtain k routes where acc: "acc = (k, routes)" by (cases acc)
  let ?acc = "(k + 1, if find_route routes exchange x = None
      then set_route exchange x (Route_new C (k + 1) exchange x) routes else routes)"
  have "create_symbol_routes dbg C exchange xs ?acc = Inr acc'"
    using Cons.prems(1) by (auto simp: acc result_Inr Let_def)
  moreover have "\<forall>e s r. find_route (snd ?acc) e s = Some r \<longrightarrow> rt_strategies r = []"
    using Cons.prems(2) by (auto simp: acc find_set_route Route_new_def)
  ultimately show ?case by (rule Cons.IH)
qed simp

lemma create_routes_loop_empty:
  "create_routes_loop dbg C ess acc = Inr routes \<Longrightarrow>
     \<forall>e s r. find_route (snd acc) e s = Some r \<longrightarrow> rt_strategies r = [] \<Longrightarrow>
     \<forall>e s r. find_route routes e s = Some r \<longrightarrow> rt_strategies r = []"
proof (induction ess arbitrary: acc)
  case (Cons x xs)
  then obtain acc' where acc': "create_symbol_routes dbg C (fst x) (snd x) acc = Inr acc'"
      "create_routes_loop dbg C xs acc' = Inr routes"
    by (auto simp: result_Inr)
  show ?case by (rule Cons.IH [OF acc'(2) create_symbol_routes_empty [OF acc'(1) Cons.prems(2)]])
qed simp

lemma create_routes_empty:
  "create_routes dbg C config = Inr routes \<Longrightarrow> find_route routes e s = Some r \<Longrightarrow> rt_strategies r = []"
  using create_routes_loop_empty [of dbg C "pc_exchange_symbols config" "(0, Map.empty)" routes]
  by (auto simp: create_routes_def find_route_def)

lemma add_to_routes_one:
  "add_to_routes dbg i st routes = Inr routes' \<Longrightarrow>
     \<forall>e s r. find_route routes e s = Some r \<longrightarrow> rt_strategies r = [] \<or> rt_strategies r = [i] \<Longrightarrow>
     (\<forall>e s r. find_route routes' e s = Some r \<longrightarrow> rt_strategies r = [] \<or> rt_strategies r = [i]) \<and>
     (\<forall>e s. find_route routes e s \<noteq> None \<longrightarrow> find_route routes' e s \<noteq> None)"
proof (induction st arbitrary: routes)
  case (Cons x xs)
  show ?case
  proof (cases "find_route routes (ai_exchange x) (ai_symbol x)")
    case None
    then have "add_to_routes dbg i xs routes = Inr routes'" using Cons.prems(1) by (auto simp: result_Inr)
    then show ?thesis using Cons.IH Cons.prems(2) by blast
  next
    case (Some r)
    let ?routes = "set_route (ai_exchange x) (ai_symbol x) (Route_add i r) routes"
    have 1: "add_to_routes dbg i xs ?routes = Inr routes'" using Cons.prems(1) Some by simp
    have r: "rt_strategies r = [] \<or> rt_strategies r = [i]" using Cons.prems(2) Some by blast
    have 2: "\<forall>e s r. find_route ?routes e s = Some r \<longrightarrow> rt_strategies r = [] \<or> rt_strategies r = [i]"
      using Cons.prems(2) r by (auto simp: find_set_route Route_add_def)
    have "find_route ?routes e s \<noteq> None" if "find_route routes e s \<noteq> None" for e s
      using that by (simp add: find_set_route)
    then show ?thesis using Cons.IH [OF 1 2] by blast
  qed
qed simp

lemma create_order_managers_shape:
  "create_order_managers U sd k st = Inr oms \<Longrightarrow> length oms = length st \<and> (st \<noteq> [] \<longrightarrow> om_index (oms ! 0) = k \<and> om_order_id (oms ! 0) = 0)"
proof (induction st arbitrary: k oms)
  case (Cons x xs)
  then obtain oms' sd' where "create_order_managers U sd (k + 1) xs = Inr oms'" "oms = OrderManager_new k sd' # oms'"
    by (auto simp: result_Inr split: ordering.splits)
  then show ?case using Cons.IH by (auto simp: OrderManager_new_def)
qed simp

definition announced :: "proto_config \<Rightarrow> string \<Rightarrow> string \<Rightarrow> bool" where
  "announced config exchange symbol \<longleftrightarrow> C_Symbol symbol exchange \<in> set (Config_algo_proto config)"

lemma announced_has:
  assumes "Config_new account doc = Inr config"
  shows "announced config e s = has_symbol (pc_exchange_symbols config) e s"
proof -
  have keys: "distinct (map fst (pc_exchange_symbols config))"
    using extract_symbols_distinct [of "pc_strategies config"] Config_new_symbols [OF assms] by simp
  show ?thesis
    using map_of_eq_Some_iff [OF keys] by (auto simp: announced_def Config_algo_proto_def has_symbol_def)
qed

text \<open>The factories are the strategies of the configuration.\<close>

lemma create_factories_map:
  assumes "create_factories config routes = Inr factories"
  shows "factories = map (\<lambda>(name, s). (name, ac_type s, ac_instruments s)) (pc_strategies config)"
proof -
  have *: "collect (\<lambda>(symbol, strategy). if P strategy then Inr (symbol, ac_type strategy, ac_instruments strategy) else Inl Fatal) xs =
      Inr ys \<Longrightarrow> ys = map (\<lambda>(name, s). (name, ac_type s, ac_instruments s)) xs" for P xs ys
    by (induction xs arbitrary: ys) (auto simp: result_Inr split: if_splits)
  show ?thesis using assms unfolding create_factories_def by (rule *)
qed

lemma factory_lookup:
  assumes "create_factories config routes = Inr factories"
  shows "map_of factories name = map_option (\<lambda>s. (ac_type s, ac_instruments s)) (map_of (pc_strategies config) name)"
  unfolding create_factories_map [OF assms] by (simp add: map_of_map)

lemma factory_instruments:
  assumes "create_factories config routes = Inr factories" "map_of factories name = Some (type, st)"
  shows "\<exists>strategy. (name, strategy) \<in> set (pc_strategies config) \<and> st = ac_instruments strategy"
  using assms factory_lookup [OF assms(1), of name] by (auto dest: map_of_SomeD)

lemma Bridge_new_wf:
  fixes C :: "('g, 'm, 'u) algo_cache"
  assumes config: "Config_new account doc = Inr config"
    and new: "Bridge_new dbg U C encode gateways settings config = Inr b"
    and two: "\<forall>x \<in> set (pc_strategies config). 2 \<le> length (ac_instruments (snd x))"
    and side: "side_cast (pp_side settings) \<noteq> Side_UNDEFINED" and enc: "encode 1 \<noteq> []"
  shows "Bridge_wf (announced config) (length gateways) (encode 1) b"
proof -
  let ?core = "\<lambda>routes. \<lparr>br_routes = routes, br_gateways = gateways, br_max_order_id = 0,
    br_order_id_to_source = Map.empty, br_sent = []\<rparr>"
  let ?spread = "\<lambda>st oms. \<lparr>sp_routing_id = encode 1, sp_account = pp_account settings, sp_state = st, sp_order_managers = oms,
    sp_order_index = Map.empty, sp_ready_by_instrument = replicate (length st) False, sp_ready = False,
    sp_side = side_cast (pp_side settings), sp_quantity = pp_quantity settings, sp_price = pp_price settings\<rparr>"
  obtain routes factories where r: "create_routes dbg C config = Inr routes" "create_factories config routes = Inr factories"
    and created: "Bridge_create_strategy dbg U encode (Bridge_order settings) \<lparr>br_core = ?core routes, br_factories = factories,
      br_strategies = [], br_routing_id_to_strategy = Map.empty, br_strategy_id = 0\<rparr> = Inr b"
    using new by (auto simp: Bridge_new_def result_Inr)
  obtain type st where f: "map_of factories (pp_strategy settings) = Some (type, st)"
    using created by (auto simp: Bridge_create_strategy_def Bridge_order_def split: option.splits)
  obtain oms routes' where oms: "create_order_managers U (side_cast (pp_side settings)) 0 st = Inr oms"
      "add_to_routes dbg 1 st routes = Inr routes'"
    and b: "b = \<lparr>br_core = ?core routes', br_factories = factories, br_strategies = [(1, ?spread st oms)],
      br_routing_id_to_strategy = [encode 1 \<mapsto> 1], br_strategy_id = 1\<rparr>"
    using created f by (auto simp: Bridge_create_strategy_def Bridge_order_def Factory_create_def Spread_new_def
        result_Inr Let_def split: if_splits)
  obtain strategy where st: "(pp_strategy settings, strategy) \<in> set (pc_strategies config)" "st = ac_instruments strategy"
    using factory_instruments [OF r(2) f] by blast
  have has: "announced config e s = has_symbol (pc_exchange_symbols config) e s" for e s by (rule announced_has [OF config])
  have cover: "find_route routes e s \<noteq> None" if "announced config e s" for e s
    using Config_routes [OF config, of dbg C] r(1) that has by auto
  have one: "\<forall>e s r. find_route routes e s = Some r \<longrightarrow> rt_strategies r = [] \<or> rt_strategies r = [1]"
    using create_routes_empty [OF r(1)] by blast
  note routes' = add_to_routes_one [OF oms(2) one]
  have "\<forall>x \<in> set st. announced config (ai_exchange x) (ai_symbol x)"
    using extract_symbols_has [OF st(1)] st(2) Config_new_symbols [OF config] has by simp
  moreover have "2 \<le> length st" using two st by auto
  ultimately show ?thesis
    using create_order_managers_shape [OF oms(1)] side enc routes' cover
    by (auto simp: b Bridge_wf_def pair_wf_def core_wf_def core_inv_def spread_wf_def link_wf_def spread_oid_def)
qed

text \<open>Construction succeeds for a strategy of the configuration that is a spread without a zero weight.\<close>

lemma create_order_managers_total:
  "\<forall>i \<in> set st. compare U (ai_weight i) (Fin 0) \<noteq> Equal \<Longrightarrow> \<exists>oms. create_order_managers U sd k st = Inr oms"
proof (induction st arbitrary: k)
  case (Cons x xs)
  then obtain oms where "create_order_managers U sd (k + 1) xs = Inr oms" by fastforce
  then show ?case using Cons.prems by (cases "compare U (ai_weight x) (Fin 0)") auto
qed simp

lemma add_to_routes_total:
  "\<forall>i \<in> set st. find_route routes (ai_exchange i) (ai_symbol i) \<noteq> None \<Longrightarrow> \<exists>routes'. add_to_routes dbg k st routes = Inr routes'"
proof (induction st arbitrary: routes)
  case (Cons x xs)
  then obtain r where r: "find_route routes (ai_exchange x) (ai_symbol x) = Some r" by auto
  have "\<exists>routes'. add_to_routes dbg k xs (set_route (ai_exchange x) (ai_symbol x) (Route_add k r) routes) = Inr routes'"
    using Cons.prems by (intro Cons.IH) (simp add: find_set_route)
  then show ?case using r by simp
qed simp

lemma create_factories_total:
  fixes C :: "('g, 'm, 'u) algo_cache"
  assumes "Config_new account doc = Inr config" "create_routes dbg C config = Inr routes"
  shows "\<exists>factories. create_factories config routes = Inr factories"
    and "(name, s) \<in> set (pc_strategies config) \<Longrightarrow> i \<in> set (ac_instruments s) \<Longrightarrow> find_route routes (ai_exchange i) (ai_symbol i) \<noteq> None"
proof -
  have routes: "find_route routes e s \<noteq> None \<longleftrightarrow> has_symbol (pc_exchange_symbols config) e s" for e s
    using Config_routes [OF assms(1), of dbg C] assms(2) by auto
  show has: "find_route routes (ai_exchange i) (ai_symbol i) \<noteq> None"
    if "(name, s) \<in> set (pc_strategies config)" "i \<in> set (ac_instruments s)" for name s i
    using extract_symbols_has [OF that] Config_new_symbols [OF assms(1)] routes by simp
  have "\<forall>x \<in> set (pc_strategies config). \<exists>y. (\<lambda>(symbol, strategy).
      if \<forall>i \<in> set (ac_instruments strategy). find_route routes (ai_exchange i) (ai_symbol i) \<noteq> None
      then Inr (symbol, ac_type strategy, ac_instruments strategy) else Inl Fatal) x = Inr y"
    using has by fastforce
  then show "\<exists>factories. create_factories config routes = Inr factories"
    unfolding create_factories_def by (rule collect_all)
qed

lemma Bridge_new_total:
  fixes C :: "('g, 'm, 'u) algo_cache"
  assumes config: "Config_new account doc = Inr config"
    and named: "map_of (pc_strategies config) (pp_strategy settings) = Some strategy" "ac_type strategy = ''spread''"
    and weights: "\<forall>i \<in> set (ac_instruments strategy). compare U (ai_weight i) (Fin 0) \<noteq> Equal"
  shows "\<exists>b. Bridge_new dbg U C encode gateways settings config = Inr b"
proof -
  obtain routes where r: "create_routes dbg C config = Inr routes" using Config_routes [OF config, of dbg C] by blast
  obtain factories where f: "create_factories config routes = Inr factories"
    using create_factories_total(1) [OF config r] by blast
  have "map_of factories (pp_strategy settings) = Some (''spread'', ac_instruments strategy)"
    using factory_lookup [OF f] named by simp
  moreover obtain oms where "create_order_managers U (side_cast (pp_side settings)) 0 (ac_instruments strategy) = Inr oms"
    using create_order_managers_total [OF weights] by blast
  moreover obtain routes' where "add_to_routes dbg 1 (ac_instruments strategy) routes = Inr routes'"
    using add_to_routes_total [of "ac_instruments strategy" routes dbg 1] create_factories_total(2) [OF config r map_of_SomeD [OF named(1)]]
    by blast
  ultimately show ?thesis
    using r f by (simp add: Bridge_new_def Bridge_create_strategy_def Bridge_order_def Factory_create_def Spread_new_def Let_def)
qed

section \<open>The prices of the strategy\<close>

text \<open>The request that a new target leads to.\<close>

definition target_request :: "'z utils_scheme \<Rightarrow> Spread \<Rightarrow> double \<Rightarrow> request \<Rightarrow> bool" where
  "target_request U s target r \<longleftrightarrow>
     (let om = sp_order_managers s ! 0;
          price = snd (update_double U (om_target_price om) target);
          quantity = snd (update_double U (om_target_quantity om) (sp_quantity s))
      in if om_order_id om = 0
         then \<exists>c. r = CreateOrder c \<and> co_price c = price \<and> co_quantity c = quantity \<and> co_side c = om_side om \<and>
           co_exchange c = ai_exchange (sp_state s ! om_index om) \<and> co_symbol c = ai_symbol (sp_state s ! om_index om) \<and>
           co_order_type c = LIMIT
         else \<exists>m. r = ModifyOrder m \<and> mo_order_id m = om_order_id om \<and> mo_price m = price)"

lemma set_target_request:
  assumes "OrderManager_set_target dbg U (bridge_context dbg D) 0 (sp_quantity s) target (w, s) = Inr (w', s')"
    and "br_sent w' \<noteq> br_sent w"
  shows "\<exists>r src. br_sent w' = br_sent w @ [(r, src)] \<and> target_request U s target r"
proof -
  obtain om oms where oms: "sp_order_managers s = om # oms"
    using assms(1) by (cases "sp_order_managers s") (auto simp: OrderManager_set_target_def)
  obtain c1 q where q: "update_double U (om_target_quantity om) (sp_quantity s) = (c1, q)" by fastforce
  obtain c2 p where p: "update_double U (om_target_price om) target = (c2, p)" by fastforce
  define om1 where "om1 = om\<lparr>om_target_quantity := q, om_target_price := p\<rparr>"
  define s1 where "s1 = s\<lparr>sp_order_managers := om1 # oms\<rparr>"
  show ?thesis
  proof (cases "om_order_id om = 0")
    case True
    let ?c = "OrderManager_create s1 om1 (sp_state s ! om_index om) (br_max_order_id w + 1)"
    have "Bridge_create_order dbg D ?c w = Inr w'"
      using assms q p True
      by (auto simp: OrderManager_set_target_def oms s1_def om1_def bridge_context_def Let_def result_Inr split: if_splits)
    then obtain src where "br_sent w' = br_sent w @ [(CreateOrder ?c, src)]" using create_core(5) by blast
    then show ?thesis using True
      by (intro exI [of _ "CreateOrder ?c"] exI [of _ src])
        (simp add: target_request_def oms OrderManager_create_def om1_def q p)
  next
    case False
    let ?m = "\<lparr>mo_account = sp_account s1, mo_order_id = om_order_id om, mo_quantity = NaN,
      mo_price = om_target_price om1, mo_routing_id = sp_routing_id s1\<rparr>"
    have "Bridge_modify_order dbg D ?m w = Inr w'"
      using assms q p False
      by (auto simp: OrderManager_set_target_def oms s1_def om1_def bridge_context_def Let_def result_Inr split: if_splits)
    then obtain src where "br_sent w' = br_sent w @ [(ModifyOrder ?m, src)]" using modify_core(4) by blast
    then show ?thesis using False
      by (intro exI [of _ "ModifyOrder ?m"] exI [of _ src]) (simp add: target_request_def oms om1_def p)
  qed
qed

text \<open>A strategy with one instrument reads the market of a second one that does not exist.\<close>

lemma Spread_one_leg_undefined:
  assumes "sp_ready s" "length (sp_state s) = 1" "Base_extract C X w s 0 = Inr depth_0"
  shows "Spread_update dbg U C X (w, s) = Inl Undefined_Behaviour"
proof -
  have "Base_extract C X w s 1 = Inl Undefined_Behaviour" using assms(2) by (simp add: Base_extract_def state_market_def)
  then show ?thesis using assms by (simp add: Spread_update_def)
qed

text \<open>A request that follows the price of the second instrument.\<close>

definition quotes_spread ::
  "bool \<Rightarrow> 'z utils_scheme \<Rightarrow> ('g, 'm, 'u) algo_cache \<Rightarrow> dispatcher \<Rightarrow> ('g, 'm) bridge_core \<Rightarrow> Spread \<Rightarrow> ('g, 'm) bridge_core \<Rightarrow> bool" where
  "quotes_spread dbg U C D w s w' \<longleftrightarrow> (\<exists>best_0 best_1 r src.
     Base_extract C (bridge_context dbg D) w s 0 = Inr (Some best_0) \<and>
     Base_extract C (bridge_context dbg D) w s 1 = Inr (Some best_1) \<and>
     br_sent w' = br_sent w @ [(r, src)] \<and> sp_side s \<noteq> Side_UNDEFINED \<and>
     (let target = dsub (if sp_side s = BUY then bid_price best_1 else ask_price best_1) (sp_price s)
      in \<not> isnan target \<and> target_request U s target r))"

lemma Spread_update_quotes:
  assumes "Spread_update dbg U C (bridge_context dbg D) (w, s) = Inr (w', s')" "br_sent w' \<noteq> br_sent w"
  shows "sp_ready s' \<and> quotes_spread dbg U C D w s w'"
proof -
  have ready: "sp_ready s" using assms by (auto simp: Spread_update_def split: if_splits)
  obtain best_0 best_1 where best: "Base_extract C (bridge_context dbg D) w s 0 = Inr (Some best_0)"
      "Base_extract C (bridge_context dbg D) w s 1 = Inr (Some best_1)"
    using assms ready by (auto simp: Spread_update_def result_Inr split: option.splits)
  define target where "target = dsub (if sp_side s = BUY then bid_price best_1 else ask_price best_1) (sp_price s)"
  have side: "sp_side s \<noteq> Side_UNDEFINED" "\<not> isnan target"
    and set: "OrderManager_set_target dbg U (bridge_context dbg D) 0 (sp_quantity s) target (w, s) = Inr (w', s')"
    using assms ready best
    by (cases "sp_side s"; auto simp: Spread_update_def target_def result_Inr split: if_splits)+
  have "sp_ready s'" using set_target_flags [OF set] ready by simp
  moreover obtain r src where "br_sent w' = br_sent w @ [(r, src)]" "target_request U s target r"
    using set_target_request [OF set assms(2)] by blast
  ultimately show ?thesis using best side unfolding quotes_spread_def Let_def
    by (intro conjI exI [of _ best_0] exI [of _ best_1] exI [of _ r] exI [of _ src]) (simp_all add: target_def)
qed

lemma Base_update_quotes:
  assumes "Base_update dbg U C (bridge_context dbg D) info (w, s) = Inr (w', s')" "br_sent w' \<noteq> br_sent w"
  shows "sp_ready s' \<and> quotes_spread dbg U C D w s w'"
proof -
  obtain flags ready where "Base_ready_loop U C (bridge_context dbg D) w s (source info) 0 (sp_ready_by_instrument s) = Inr (flags, ready)"
    using assms(1) by (auto simp: Base_update_eq result_Inr)
  moreover obtain changed r where "update_bool U (sp_ready s) ready = (changed, r)" by fastforce
  ultimately have upd: "Spread_update dbg U C (bridge_context dbg D)
      (w, s\<lparr>sp_ready_by_instrument := flags, sp_ready := r\<rparr>) = Inr (w', s')"
    using assms by (auto simp: Base_update_eq Let_def split: if_splits)
  have "quotes_spread dbg U C D w (s\<lparr>sp_ready_by_instrument := flags, sp_ready := r\<rparr>) w' = quotes_spread dbg U C D w s w'"
    by (simp add: quotes_spread_def target_request_def Base_extract_def)
  then show ?thesis using Spread_update_quotes [OF upd assms(2)] by simp
qed

section \<open>Properties\<close>

text \<open>A session of legal events can only end early by an exception of the dispatcher.\<close>

lemma Bridge_session_safe:
  fixes C :: "('g, 'm, 'u) algo_cache"
  assumes "Config_new account doc = Inr config" "Bridge_new dbg U C encode gateways settings config = Inr b"
    and "\<forall>x \<in> set (pc_strategies config). 2 \<le> length (ac_instruments (snd x))"
    and "side_cast (pp_side settings) \<noteq> Side_UNDEFINED" "encode 1 \<noteq> []"
    and "\<forall>e \<in> set es. legal_event (announced config) (length gateways) (encode 1) e"
    and "\<forall>t \<in> set (states (Bridge_step dbg U C) b es). br_max_order_id (br_core t) \<noteq> - 1"
  shows "(\<exists>b'. run (Bridge_step dbg U C) b es = Inr b') \<or> (\<exists>x. run (Bridge_step dbg U C) b es = Inl (Raised x))"
proof -
  have "result_all (Bridge_wf (announced config) (length gateways) (encode 1)) (\<lambda>f. \<not> \<not> raised f) (run (Bridge_step dbg U C) b es)"
    using proto_machine.run_all [OF Bridge_new_wf [OF assms(1-5)] _ assms(6)] assms(7) by (simp add: Bridge_room_def)
  then show ?thesis by (cases "run (Bridge_step dbg U C) b es") auto
qed

text \<open>
  C25: The prices of the spread strategy. When an event makes it send a request, the strategy is
  ready, both instruments have a best bid and ask, and exactly one request is sent: for its first
  instrument and its own side, a limit order (the first time) or a new price for that order. The
  price is the best price of the second instrument on the side of the order, less the spread that
  was asked for, in binary64; the order manager keeps an old value that \<open>utils::update\<close> does not
  tell apart.
\<close>

theorem Spread_prices_second_leg:
  assumes "Spread_handle dbg U C (bridge_context dbg D) info msg (w, s) = Inr (w', s')" "br_sent w' \<noteq> br_sent w"
  shows "sp_ready s' \<and> quotes_spread dbg U C D w s w'"
  using assms Base_update_quotes [of dbg U C D info w s w' s'] Spread_update_quotes [of dbg U C D w s w' s']
  by (cases msg) (auto simp: Base_dispatch_eq split: option.splits if_splits)

definition proto_demo_core :: "(unit, layer option) bridge_core" where
  "proto_demo_core = \<lparr>br_routes = (\<lambda>e. Some (\<lambda>s. Some \<lparr>rt_market = \<lparr>am_market =
       Some \<lparr>bid_price = Fin 10, bid_quantity = Fin 1, ask_price = Fin 11, ask_quantity = Fin 1\<rparr>, am_source = 0\<rparr>,
       rt_strategies = [1]\<rparr>)),
     br_gateways = [()], br_max_order_id = 7, br_order_id_to_source = Map.empty, br_sent = []\<rparr>"

theorem Spread_prices_second_leg_witness:
  "\<exists>w' s' c. Spread_handle True exact_utils demo_cache (bridge_context True accept_all)
       \<lparr>source = 0, receive_time = 0, origin_create_time = 0\<rparr> Connected (proto_demo_core, demo_spread) = Inr (w', s') \<and>
     br_sent w' = [(CreateOrder c, 0)] \<and> co_price c = Fin 5 \<and> co_order_id c = 8 \<and>
     quotes_spread True exact_utils demo_cache accept_all proto_demo_core demo_spread w'"
proof -
  obtain w' s' c where s: "Spread_handle True exact_utils demo_cache (bridge_context True accept_all)
       \<lparr>source = 0, receive_time = 0, origin_create_time = 0\<rparr> Connected (proto_demo_core, demo_spread) = Inr (w', s')"
     "br_sent w' = [(CreateOrder c, 0)]" "co_price c = Fin 5" "co_order_id c = 8"
    by (simp add: proto_demo_core_def demo_spread_eval bridge_context_def Bridge_requests find_route_def Route_get_source_def
        accept_all_def)
  have "br_sent w' \<noteq> br_sent proto_demo_core" using s(2) by (simp add: proto_demo_core_def)
  then show ?thesis using Spread_prices_second_leg [OF s(1)] s by blast
qed

end
