(* ===== verification/Maker.thy ===== *)
theory Maker
  imports Maker_Quote
begin

text \<open>
  The market maker (\<open>maker/main.cpp\<close>), second half: the strategy that owns the two quotes.
  It cancels everything when the gateway becomes ready, quotes both sides of the mid price
  once that was acknowledged, and moves a quote by cancelling and recreating its order.
  Shown: when orders can be sent at all, that quoting only starts after an acknowledged
  cancel-all, that the assertions never fail, that order ids are not recycled, that the two
  target prices never cross, how many requests can be sent in a monitor period, and how a
  quote can be lost or get stuck.
\<close>

section \<open>State\<close>

record Maker =
  mk_shared :: maker_shared
  mk_ready :: bool
  mk_state :: maker_state
  mk_own_max_order_id :: u64
  mk_tick_size :: double
  mk_trading_status :: trading_status
  mk_mid_price :: double
  mk_bid :: Quote
  mk_ask :: Quote

definition Maker_new :: Maker where
  "Maker_new = \<lparr>mk_shared = Shared_new, mk_ready = False, mk_state = Maker_UNDEFINED,
     mk_own_max_order_id = 0, mk_tick_size = NaN, mk_trading_status = TradingStatus_UNDEFINED,
     mk_mid_price = NaN, mk_bid = Quote_new BUY, mk_ask = Quote_new SELL\<rparr>"

section \<open>Helpers\<close>

definition Maker_set_state :: "'m maker_utils_scheme \<Rightarrow> maker_state \<Rightarrow> Maker \<Rightarrow> Maker" where
  "Maker_set_state U st m = m\<lparr>mk_state := snd (update_maker_state U (mk_state m) st)\<rparr>"

definition Maker_can_trade :: "Maker \<Rightarrow> bool" where
  "Maker_can_trade m \<longleftrightarrow>
     mk_ready m \<and> mk_state m = Maker_QUOTE \<and> \<not> isnan (mk_tick_size m) \<and> mk_trading_status m = OPEN"

definition Maker_cancel_all_orders :: "dispatcher \<Rightarrow> nanoseconds \<Rightarrow> Maker \<Rightarrow> Maker result" where
  "Maker_cancel_all_orders D now m =
     bind_result (Shared_send D now (CancelAllOrders \<lparr>cx_account = MAKER_ACCOUNT,
       cx_exchange = MAKER_EXCHANGE, cx_symbol = MAKER_SYMBOL\<rparr>) (mk_shared m))
       (\<lambda>sh. Inr (m\<lparr>mk_shared := sh\<rparr>))"

text \<open>The two target prices of \<open>update_quotes\<close>.\<close>

definition Maker_target_prices :: "'m maker_utils_scheme \<Rightarrow> Maker \<Rightarrow> double \<times> double" where
  "Maker_target_prices U m =
     (let half_spread = dmul (dmul (Fin (1/2)) SPREAD) (mk_tick_size m);
          position = mk_position (mk_shared m);
          skew = (if is_zero U position then Fin 0
                  else if dlt position (Fin 0) then mk_tick_size m else dneg (mk_tick_size m))
      in (round_away U BUY (dsub (dadd (mk_mid_price m) skew) half_spread) (mk_tick_size m),
          round_away U SELL (dadd (dadd (mk_mid_price m) skew) half_spread) (mk_tick_size m)))"

definition Maker_update_quotes :: "'m maker_utils_scheme \<Rightarrow> Maker \<Rightarrow> Maker" where
  "Maker_update_quotes U m =
     (if isnan (mk_mid_price m) then m
      else let (bid_price, ask_price) = Maker_target_prices U m
      in m\<lparr>mk_bid := snd (Quote_update_target_price U (mk_bid m) bid_price),
           mk_ask := snd (Quote_update_target_price U (mk_ask m) ask_price)\<rparr>)"

text \<open>The quote of a side, or the program stops.\<close>

definition Maker_with_quote ::
  "side \<Rightarrow> (maker_shared \<times> Quote \<Rightarrow> (maker_shared \<times> Quote) result) \<Rightarrow> Maker \<Rightarrow> Maker result" where
  "Maker_with_quote sd f m =
     (case sd of
        Side_UNDEFINED \<Rightarrow> Inl Fatal
      | BUY \<Rightarrow> bind_result (f (mk_shared m, mk_bid m)) (\<lambda>(sh, q). Inr (m\<lparr>mk_shared := sh, mk_bid := q\<rparr>))
      | SELL \<Rightarrow> bind_result (f (mk_shared m, mk_ask m)) (\<lambda>(sh, q). Inr (m\<lparr>mk_shared := sh, mk_ask := q\<rparr>)))"

section \<open>Handlers\<close>

definition Maker_on_Timer ::
  "bool \<Rightarrow> 'm maker_utils_scheme \<Rightarrow> dispatcher \<Rightarrow> nanoseconds \<Rightarrow> Maker \<Rightarrow> Maker result" where
  "Maker_on_Timer dbg U D now m =
     (if Maker_can_trade m then
        bind_result (Maker_with_quote BUY (Quote_on_Timer dbg U D now) m)
          (Maker_with_quote SELL (Quote_on_Timer dbg U D now))
      else Inr m)"

definition Maker_on_Disconnected :: "Maker \<Rightarrow> Maker" where
  "Maker_on_Disconnected m = m\<lparr>mk_ready := False, mk_state := Maker_UNDEFINED, mk_mid_price := NaN,
     mk_bid := Quote_clear (mk_bid m), mk_ask := Quote_clear (mk_ask m)\<rparr>"

definition Maker_on_DownloadEnd :: "'m maker_utils_scheme \<Rightarrow> download_end \<Rightarrow> Maker \<Rightarrow> Maker" where
  "Maker_on_DownloadEnd U d m = m\<lparr>mk_shared := (mk_shared m)\<lparr>mk_max_order_id :=
     snd (update_max U (mk_max_order_id (mk_shared m)) (de_max_order_id d))\<rparr>\<rparr>"

definition Maker_on_Ready ::
  "'m maker_utils_scheme \<Rightarrow> dispatcher \<Rightarrow> nanoseconds \<Rightarrow> Maker \<Rightarrow> Maker result" where
  "Maker_on_Ready U D now m =
     Maker_cancel_all_orders D now (Maker_set_state U Maker_CANCEL_ALL (m\<lparr>mk_ready := True\<rparr>))"

definition Maker_on_ReferenceData :: "'m maker_utils_scheme \<Rightarrow> reference_data \<Rightarrow> Maker \<Rightarrow> Maker" where
  "Maker_on_ReferenceData U r m =
     m\<lparr>mk_tick_size := snd (update_double U (mk_tick_size m) (rd_tick_size r))\<rparr>"

definition Maker_on_MarketStatus :: "'m maker_utils_scheme \<Rightarrow> market_status \<Rightarrow> Maker \<Rightarrow> Maker" where
  "Maker_on_MarketStatus U s m =
     m\<lparr>mk_trading_status := snd (update_trading_status U (mk_trading_status m) (ms_trading_status s))\<rparr>"

definition Maker_on_TopOfBook :: "'m maker_utils_scheme \<Rightarrow> top_of_book \<Rightarrow> Maker \<Rightarrow> Maker" where
  "Maker_on_TopOfBook U t m =
     (if mk_ready m then
        let mid_price = dmul (Fin (1/2)) (dadd (bid_price (tob_layer t)) (ask_price (tob_layer t)))
        in case update_double U (mk_mid_price m) mid_price of (changed, p) \<Rightarrow>
             (if changed then Maker_update_quotes U (m\<lparr>mk_mid_price := p\<rparr>) else m\<lparr>mk_mid_price := p\<rparr>)
      else m)"

definition Maker_on_CancelAllOrdersAck :: "'m maker_utils_scheme \<Rightarrow> Maker \<Rightarrow> Maker" where
  "Maker_on_CancelAllOrdersAck U m =
     (if mk_ready m \<and> mk_state m = Maker_CANCEL_ALL then Maker_set_state U Maker_QUOTE m else m)"

fun Maker_step ::
  "bool \<Rightarrow> 'm maker_utils_scheme \<Rightarrow> Maker \<Rightarrow> 'u client_event \<Rightarrow> Maker result" where
  "Maker_step dbg U m (D, info, Timer _) = Maker_on_Timer dbg U D (origin_create_time info) m"
| "Maker_step dbg U m (D, info, Disconnected) = Inr (Maker_on_Disconnected m)"
| "Maker_step dbg U m (D, info, DownloadEnd d) = Inr (Maker_on_DownloadEnd U d m)"
| "Maker_step dbg U m (D, info, Ready) = Maker_on_Ready U D (origin_create_time info) m"
| "Maker_step dbg U m (D, info, ReferenceData r) = Inr (Maker_on_ReferenceData U r m)"
| "Maker_step dbg U m (D, info, MarketStatus s) = Inr (Maker_on_MarketStatus U s m)"
| "Maker_step dbg U m (D, info, TopOfBook t) = Inr (Maker_on_TopOfBook U t m)"
| "Maker_step dbg U m (D, info, CancelAllOrdersAck) = Inr (Maker_on_CancelAllOrdersAck U m)"
| "Maker_step dbg U m (D, info, OrderAck a) =
     Maker_with_quote (oa_side a)
       (\<lambda>(sh, q). bind_result (Quote_on_OrderAck U a q) (\<lambda>q'. Inr (sh, q'))) m"
| "Maker_step dbg U m (D, info, OrderUpdate u) =
     Maker_with_quote (ou_side u) (\<lambda>st. Inr (Quote_on_OrderUpdate U u st)) m"
| "Maker_step dbg U m (D, info, _) = Inr m"

lemmas Maker_handlers = Maker_on_Disconnected_def Maker_on_DownloadEnd_def Maker_on_ReferenceData_def
  Maker_on_MarketStatus_def Maker_on_TopOfBook_def Maker_on_CancelAllOrdersAck_def Maker_update_quotes_def
  Maker_set_state_def

section \<open>Step lemmas\<close>

text \<open>Which parts of the state an event can touch.\<close>

lemma maker_updates_okD:
  assumes "maker_updates_ok U"
  shows "updates_ok U" "update_maker_state U c v = (c \<noteq> v, v)"
  using assms by (simp_all add: maker_updates_ok_def update_lawD)

lemma target_price_same [simp]:
  "mq_state (snd (Quote_update_target_price U q p)) = mq_state q"
  "mq_order_id (snd (Quote_update_target_price U q p)) = mq_order_id q"
  "mq_side (snd (Quote_update_target_price U q p)) = mq_side q"
  by (simp_all add: Quote_update_target_price_def split: prod.split)

lemma clear_same [simp]:
  "mq_state (Quote_clear q) = mq_state q" "mq_order_id (Quote_clear q) = 0" "mq_side (Quote_clear q) = mq_side q"
  by (simp_all add: Quote_clear_def)

lemma timer_split:
  assumes "maker_updates_ok U" "Maker_on_Timer dbg U D now m = Inr m'"
  shows "\<not> Maker_can_trade m \<and> m' = m \<or> Maker_can_trade m \<and> (\<exists>sh1 q1 sh2 q2.
    Quote_on_Timer dbg U D now (mk_shared m, mk_bid m) = Inr (sh1, q1) \<and>
    Quote_on_Timer dbg U D now (sh1, mk_ask m) = Inr (sh2, q2) \<and>
    m' = m\<lparr>mk_shared := sh2, mk_bid := q1, mk_ask := q2\<rparr>)"
  using assms by (auto simp: Maker_on_Timer_def Maker_with_quote_def result_Inr split: if_splits)

text \<open>Events that are neither a timer nor the ready event send nothing.\<close>

lemma other_sends_nothing:
  assumes "maker_updates_ok U" "Maker_step dbg U m (D, info, msg) = Inr m'"
    and "\<forall>t. msg \<noteq> Timer t" "msg \<noteq> Ready"
  shows "mk_sent (mk_shared m') = mk_sent (mk_shared m)"
    and "mk_history (mk_shared m') = mk_history (mk_shared m)"
    and "mk_max_order_id (mk_shared m) \<le> mk_max_order_id (mk_shared m')"
proof -
  have "mk_sent (mk_shared m') = mk_sent (mk_shared m) \<and> mk_history (mk_shared m') = mk_history (mk_shared m) \<and>
    mk_max_order_id (mk_shared m) \<le> mk_max_order_id (mk_shared m')"
    using assms maker_updates_okD(1) [OF assms(1)]
    by (cases msg) (auto simp: Maker_handlers Maker_with_quote_def Quote_on_OrderUpdate_def Let_def result_Inr
        updates_ok_def update_max_lawD split: side.splits prod.splits if_splits)
  then show "mk_sent (mk_shared m') = mk_sent (mk_shared m)"
    and "mk_history (mk_shared m') = mk_history (mk_shared m)"
    and "mk_max_order_id (mk_shared m) \<le> mk_max_order_id (mk_shared m')" by auto
qed

lemma ready_sends:
  assumes "maker_updates_ok U" "Maker_on_Ready U D now m = Inr m'"
  shows "m' = m\<lparr>mk_ready := True, mk_state := Maker_CANCEL_ALL, mk_shared := (mk_shared m)\<lparr>mk_sent :=
    mk_sent (mk_shared m) @ [(now, CancelAllOrders \<lparr>cx_account = MAKER_ACCOUNT, cx_exchange = MAKER_EXCHANGE,
      cx_symbol = MAKER_SYMBOL\<rparr>, 0)]\<rparr>\<rparr>"
  using assms by (auto simp: Maker_on_Ready_def Maker_cancel_all_orders_def Shared_send_def Maker_set_state_def
      maker_updates_okD result_Inr split: option.splits)

section \<open>Contracts\<close>

abbreviation maker_requests :: "Maker \<Rightarrow> (nanoseconds \<times> request \<times> u8) list" where
  "maker_requests m \<equiv> mk_sent (mk_shared m)"

abbreviation maker_high :: "Maker \<Rightarrow> u64" where
  "maker_high m \<equiv> mk_max_order_id (mk_shared m)"

text \<open>A timer may create two orders.\<close>

definition maker_room :: "Maker \<Rightarrow> bool" where
  "maker_room m \<longleftrightarrow> unat (maker_high m) + 2 < 2 ^ 64"

lemma room_less:
  assumes "maker_room m"
  shows "maker_high m < maker_high m + 1" "maker_high m + 1 < maker_high m + 1 + 1"
    "maker_high m < maker_high m + 1 + 1"
proof -
  have 1: "unat (maker_high m + 1) = unat (maker_high m) + 1"
    using assms by (simp add: maker_room_def unat_word_ariths)
  moreover have "unat (maker_high m + 1 + 1) = unat (maker_high m) + 2"
    using assms unfolding maker_room_def by (subst unat_word_ariths) (simp add: 1)
  ultimately show "maker_high m < maker_high m + 1" "maker_high m + 1 < maker_high m + 1 + 1"
    "maker_high m < maker_high m + 1 + 1"
    by (simp_all add: word_less_nat_alt)
qed

lemma quote_timer_ids:
  assumes "maker_updates_ok U" "Quote_on_Timer dbg U D now (sh, q) = Inr (sh', q')"
  shows "mk_max_order_id sh' = mk_max_order_id sh \<and>
      created_ids (map snd (mk_sent sh')) = created_ids (map snd (mk_sent sh)) \<or>
    mk_max_order_id sh' = mk_max_order_id sh + 1 \<and>
      created_ids (map snd (mk_sent sh')) = created_ids (map snd (mk_sent sh)) @ [mk_max_order_id sh + 1]"
  using Quote_on_Timer_cases [OF assms] by (auto simp: quote_actions Quote_order_def)

interpretation maker_orders: order_id_source
  "Maker_step dbg U" maker_high "\<lambda>m. created_ids (map snd (maker_requests m))"
  "\<lambda>m. maker_updates_ok U \<and> maker_room m"
  for dbg U
proof
  fix m m' e
  assume step: "Maker_step dbg U m e = Inr m'" and room: "maker_updates_ok U \<and> maker_room m"
  obtain D info msg where e: "e = (D, info, msg)" by (cases e)
  note less = room_less [of m] and U = conjunct1 [OF room]
  show "\<exists>ids. created_ids (map snd (maker_requests m')) = created_ids (map snd (maker_requests m)) @ ids \<and>
      sorted_wrt (<) ids \<and> (\<forall>i \<in> set ids. maker_high m < i \<and> i \<le> maker_high m') \<and> maker_high m \<le> maker_high m'"
  proof (cases "(\<exists>t. msg = Timer t) \<or> msg = Ready")
    case True
    then consider now where "Maker_on_Timer dbg U D now m = Inr m'"
      | now where "Maker_on_Ready U D now m = Inr m'" using step e by auto
    then show ?thesis
    proof cases
      case 1
      consider "m' = m" | sh1 q1 sh2 q2 where "Quote_on_Timer dbg U D now (mk_shared m, mk_bid m) = Inr (sh1, q1)"
          "Quote_on_Timer dbg U D now (sh1, mk_ask m) = Inr (sh2, q2)"
          "m' = m\<lparr>mk_shared := sh2, mk_bid := q1, mk_ask := q2\<rparr>"
        using timer_split [OF U 1] by blast
      then show ?thesis
      proof cases
        case 2
        show ?thesis
          using quote_timer_ids [OF U 2(1)] quote_timer_ids [OF U 2(2)] less room
          by (elim disjE conjE) (simp_all add: 2(3) less_imp_le)
      qed simp
    next
      case 2
      from ready_sends [OF U this] show ?thesis by simp
    qed
  next
    case False
    then show ?thesis using other_sends_nothing [OF U step [unfolded e]] by auto
  qed
qed

text \<open>A quote without an order in flight has no order id.\<close>

definition Quote_inv :: "Quote \<Rightarrow> bool" where
  "Quote_inv q \<longleftrightarrow> (mq_state q = Quote_UNDEFINED \<longrightarrow> mq_order_id q = 0)"

definition Maker_inv :: "Maker \<Rightarrow> bool" where
  "Maker_inv m \<longleftrightarrow> Quote_inv (mk_bid m) \<and> Quote_inv (mk_ask m) \<and>
     mq_side (mk_bid m) = BUY \<and> mq_side (mk_ask m) = SELL \<and>
     (mk_state m \<noteq> Maker_UNDEFINED \<longrightarrow> mk_ready m)"

lemma Quote_timer_inv:
  assumes "maker_updates_ok U" "Quote_on_Timer dbg U D now st = Inr st'" "Quote_inv (snd st)"
  shows "Quote_inv (snd st')" "mq_side (snd st') = mq_side (snd st)"
proof -
  have "Quote_inv (snd st') \<and> mq_side (snd st') = mq_side (snd st)"
    using Quote_on_Timer_cases [OF assms(1,2)] assms(3)
    by (cases st; cases st') (auto simp: quote_actions Quote_inv_def)
  then show "Quote_inv (snd st')" "mq_side (snd st') = mq_side (snd st)" by auto
qed

lemma Quote_ack_inv:
  assumes "maker_updates_ok U" "Quote_on_OrderAck U a q = Inr q'" "Quote_inv q"
  shows "Quote_inv q' \<and> mq_side q' = mq_side q"
  using assms by (auto simp: Quote_on_OrderAck_def Quote_inv_def Quote_set_state_ok
      split: if_splits request_type.splits)

lemma Quote_update_inv:
  assumes "maker_updates_ok U" "Quote_inv (snd st)"
  shows "Quote_inv (snd (Quote_on_OrderUpdate U u st)) \<and>
    mq_side (snd (Quote_on_OrderUpdate U u st)) = mq_side (snd st)"
  using assms by (cases st) (auto simp: Quote_on_OrderUpdate_def Quote_inv_def Quote_set_state_ok Let_def)

lemma Maker_step_inv:
  assumes U: "maker_updates_ok U" and inv: "Maker_inv m" and step: "Maker_step dbg U m (D, info, msg) = Inr m'"
  shows "Maker_inv m'"
proof -
  note ok = maker_updates_okD [OF U]
  show ?thesis
  proof (cases msg)
    case (Timer t)
    then have "Maker_on_Timer dbg U D (origin_create_time info) m = Inr m'" using step by simp
    from timer_split [OF U this] show ?thesis
      using inv Quote_timer_inv [OF U] by (fastforce simp: Maker_inv_def)
  next
    case Ready
    then show ?thesis using step ready_sends [OF U] inv by (fastforce simp: Maker_inv_def)
  next
    case (OrderAck a)
    then show ?thesis using step inv Quote_ack_inv [OF U]
      by (fastforce simp: Maker_inv_def Maker_with_quote_def result_Inr split: side.splits)
  next
    case (OrderUpdate u)
    then show ?thesis
      using step inv Quote_update_inv [OF U, of "(mk_shared m, mk_bid m)" u]
        Quote_update_inv [OF U, of "(mk_shared m, mk_ask m)" u]
      by (auto simp: Maker_inv_def Maker_with_quote_def result_Inr split: side.splits prod.splits)
  qed (use step inv ok in \<open>auto simp: Maker_handlers Maker_inv_def Quote_inv_def Let_def split: prod.splits if_splits\<close>)
qed

lemma Quote_timer_safe:
  assumes "maker_updates_ok U" "Quote_on_Timer dbg U D now (sh, q) = Inl f" "Quote_inv q"
    and "mk_max_order_id sh < mk_max_order_id sh + 1"
  shows "f \<noteq> Assertion_Failed"
  using assms
  by (auto simp: Quote_on_Timer_def machine_defs Quote_inv_def Let_def assert_then_def bind_result_eq_Inl
      split: quote_state.splits if_splits sum.splits option.splits)

interpretation maker_asserts: safe_machine "Maker_step dbg U"
  "\<lambda>m. maker_updates_ok U \<and> Maker_inv m" maker_room "\<lambda>f. f = Assertion_Failed"
  for dbg U
proof
  fix m e m'
  assume "maker_updates_ok U \<and> Maker_inv m" "Maker_step dbg U m e = Inr m'"
  then show "maker_updates_ok U \<and> Maker_inv m'" using Maker_step_inv by (cases e) blast
next
  fix m e f
  assume inv: "maker_updates_ok U \<and> Maker_inv m" and room: "maker_room m"
    and step: "Maker_step dbg U m e = Inl f"
  obtain D info msg where e: "e = (D, info, msg)" by (cases e)
  note U = conjunct1 [OF inv] and less = room_less [OF room]
  show "f \<noteq> Assertion_Failed"
  proof (cases "\<exists>t. msg = Timer t")
    case True
    define now where "now = origin_create_time info"
    consider "Quote_on_Timer dbg U D now (mk_shared m, mk_bid m) = Inl f"
      | sh q where "Quote_on_Timer dbg U D now (mk_shared m, mk_bid m) = Inr (sh, q)"
          "Quote_on_Timer dbg U D now (sh, mk_ask m) = Inl f"
      using True step by (auto simp: e now_def Maker_on_Timer_def Maker_with_quote_def bind_result_eq_Inl
          bind_result_eq_Inr split: if_splits)
    then show ?thesis
    proof cases
      case 1
      then show ?thesis using Quote_timer_safe [OF U] inv less by (auto simp: Maker_inv_def)
    next
      case 2
      have "mk_max_order_id sh < mk_max_order_id sh + 1"
        using Quote_on_Timer_cases [OF U 2(1)] less by (auto simp: quote_actions)
      then show ?thesis using Quote_timer_safe [OF U 2(2)] inv by (auto simp: Maker_inv_def)
    qed
  next
    case False
    then show ?thesis using step e
      by (cases msg) (auto simp: Maker_on_Ready_def Maker_cancel_all_orders_def Shared_send_def Maker_with_quote_def
          Quote_on_OrderAck_def bind_result_eq_Inl split: option.splits side.splits if_splits request_type.splits prod.splits)
  qed
qed

section \<open>Requests of a quote\<close>

definition request_of :: "Quote \<Rightarrow> request \<Rightarrow> bool" where
  "request_of q r \<longleftrightarrow> (case r of
     CreateOrder c \<Rightarrow> mq_state q = Quote_UNDEFINED \<and> \<not> isnan (mq_target_price q) \<and>
       c = Quote_order q (co_order_id c)
   | CancelOrder c \<Rightarrow> mq_state q = Quote_WORKING \<and> mq_order_id q \<noteq> 0 \<and> ca_order_id c = mq_order_id q
   | _ \<Rightarrow> False)"

lemma quote_timer_sent:
  assumes "maker_updates_ok U" "Quote_on_Timer dbg U D now (sh, q) = Inr (sh', q')"
  shows "mk_sent sh' = mk_sent sh \<and> mk_history sh' = mk_history sh \<or>
    (\<exists>r. mk_sent sh' = mk_sent sh @ [(now, r, 0)] \<and> request_of q r \<and> mq_update_order q \<and>
       \<not> Shared_is_blocked (mk_history sh) now \<and> mk_history sh' = Shared_record now (mk_history sh))"
  using Quote_on_Timer_cases [OF assms]
  by (auto simp: quote_actions request_of_def Quote_order_def)

lemma timer_sent:
  assumes "maker_updates_ok U" "Maker_on_Timer dbg U D now m = Inr m'"
  shows "\<exists>new. maker_requests m' = maker_requests m @ new \<and>
    (\<forall>(t, r, src) \<in> set new. Maker_can_trade m \<and> t = now \<and> src = 0 \<and>
       (request_of (mk_bid m) r \<or> request_of (mk_ask m) r))"
proof (cases "m' = m")
  case False
  then obtain sh1 q1 sh2 q2 where
      q: "Quote_on_Timer dbg U D now (mk_shared m, mk_bid m) = Inr (sh1, q1)"
      "Quote_on_Timer dbg U D now (sh1, mk_ask m) = Inr (sh2, q2)"
      and m': "m' = m\<lparr>mk_shared := sh2, mk_bid := q1, mk_ask := q2\<rparr>" and ct: "Maker_can_trade m"
    using timer_split [OF assms] by blast
  show ?thesis
    using quote_timer_sent [OF assms(1) q(1)] quote_timer_sent [OF assms(1) q(2)] ct
    by (elim disjE exE conjE) (simp_all add: m')
qed simp

section \<open>Times of the order requests\<close>

definition order_times :: "maker_shared \<Rightarrow> nanoseconds list" where
  "order_times sh = map fst (filter (\<lambda>(t, r, src). \<forall>c. r \<noteq> CancelAllOrders c) (mk_sent sh))"

lemma order_times_same: "mk_sent sh' = mk_sent sh \<Longrightarrow> order_times sh' = order_times sh"
  by (simp add: order_times_def)

lemma order_times_snoc:
  "mk_sent sh' = mk_sent sh @ [(now, r, 0)] \<Longrightarrow> request_of q r \<Longrightarrow> order_times sh' = order_times sh @ [now]"
  by (cases r) (simp_all add: order_times_def request_of_def)

abbreviation event_time :: "'u client_event \<Rightarrow> nanoseconds" where
  "event_time e \<equiv> origin_create_time (fst (snd e))"

lemma quote_timer_limited:
  assumes "maker_updates_ok U" "Quote_on_Timer dbg U D now (sh, q) = Inr (sh', q')"
    and "limiter_inv (order_times sh) (mk_history sh)"
    and "\<forall>t \<in> set (order_times sh). t \<le> now \<and> now - t \<noteq> MONITOR_PERIOD"
  shows "limiter_inv (order_times sh') (mk_history sh') \<and> set (order_times sh') \<subseteq> insert now (set (order_times sh))"
proof -
  consider "order_times sh' = order_times sh" "mk_history sh' = mk_history sh"
    | "order_times sh' = order_times sh @ [now]" "\<not> Shared_is_blocked (mk_history sh) now"
      "mk_history sh' = Shared_record now (mk_history sh)"
    using quote_timer_sent [OF assms(1,2)] order_times_same order_times_snoc by metis
  then show ?thesis using assms(3,4) limiter_accept by cases auto
qed

lemma step_limited:
  assumes U: "maker_updates_ok U" and step: "Maker_step dbg U m e = Inr m'"
    and inv: "limiter_inv (order_times (mk_shared m)) (mk_history (mk_shared m))"
    and times: "\<forall>t \<in> set (order_times (mk_shared m)). t \<le> event_time e \<and> event_time e - t \<noteq> MONITOR_PERIOD"
  shows "limiter_inv (order_times (mk_shared m')) (mk_history (mk_shared m')) \<and>
    set (order_times (mk_shared m')) \<subseteq> insert (event_time e) (set (order_times (mk_shared m)))"
proof -
  obtain D info msg where e: "e = (D, info, msg)" by (cases e)
  have zero: "now - now \<noteq> MONITOR_PERIOD" for now by (simp add: MONITOR_PERIOD_def)
  show ?thesis
  proof (cases "m' = m \<or> (\<forall>t. msg \<noteq> Timer t)")
    case True
    consider "m' = m" | "Maker_on_Ready U D (event_time e) m = Inr m'"
      | "\<forall>t. msg \<noteq> Timer t" "msg \<noteq> Ready" using True step e by fastforce
    then show ?thesis
    proof cases
      case 2
      then show ?thesis using ready_sends [OF U 2] inv by (auto simp: order_times_def)
    next
      case 3
      then show ?thesis using other_sends_nothing(1,2) [OF U step [unfolded e]] inv
          order_times_same [of "mk_shared m'" "mk_shared m"] by auto
    qed (use inv in auto)
  next
    case False
    then have "Maker_on_Timer dbg U D (event_time e) m = Inr m'" using step e by auto
    then obtain sh1 q1 sh2 q2 where
        q: "Quote_on_Timer dbg U D (event_time e) (mk_shared m, mk_bid m) = Inr (sh1, q1)"
        "Quote_on_Timer dbg U D (event_time e) (sh1, mk_ask m) = Inr (sh2, q2)"
        and m': "m' = m\<lparr>mk_shared := sh2, mk_bid := q1, mk_ask := q2\<rparr>"
      using timer_split [OF U] False by blast
    note 1 = quote_timer_limited [OF U q(1) inv times]
    then have "\<forall>t \<in> set (order_times sh1). t \<le> event_time e \<and> event_time e - t \<noteq> MONITOR_PERIOD"
      using times zero by auto
    with quote_timer_limited [OF U q(2)] 1 show ?thesis by (auto simp: m')
  qed
qed

lemma run_limited:
  assumes U: "maker_updates_ok U"
  shows "run (Maker_step dbg U) m es = Inr m' \<Longrightarrow>
    limiter_inv (order_times (mk_shared m)) (mk_history (mk_shared m)) \<Longrightarrow>
    \<forall>t \<in> set (order_times (mk_shared m)). \<forall>e \<in> set es. t \<le> event_time e \<and> event_time e - t \<noteq> MONITOR_PERIOD \<Longrightarrow>
    sorted (map event_time es) \<Longrightarrow>
    \<forall>e \<in> set es. \<forall>f \<in> set es. event_time f - event_time e \<noteq> MONITOR_PERIOD \<Longrightarrow>
    limiter_inv (order_times (mk_shared m')) (mk_history (mk_shared m'))"
proof (induction es arbitrary: m)
  case (Cons e es)
  then obtain n where n: "Maker_step dbg U m e = Inr n" "run (Maker_step dbg U) n es = Inr m'"
    by (auto simp: bind_result_eq_Inr)
  then have lim: "limiter_inv (order_times (mk_shared n)) (mk_history (mk_shared n))"
      "set (order_times (mk_shared n)) \<subseteq> insert (event_time e) (set (order_times (mk_shared m)))"
    using step_limited [OF U n(1) Cons.prems(2)] Cons.prems(3) by simp_all
  then have "\<forall>t \<in> set (order_times (mk_shared n)). \<forall>f \<in> set es. t \<le> event_time f \<and> event_time f - t \<noteq> MONITOR_PERIOD"
    using Cons.prems(3-5) by (fastforce simp: subset_iff)
  then show ?case using Cons.IH [OF n(2) lim(1)] Cons.prems(4,5) by simp
qed simp

section \<open>Other helpers of the properties\<close>

text \<open>\<open>get_quote\<close>, as a read.\<close>

definition quote_of :: "side \<Rightarrow> Maker \<Rightarrow> Quote" where
  "quote_of sd m = (if sd = BUY then mk_bid m else mk_ask m)"

text \<open>A quote that believes its order is working but has forgotten which.\<close>

definition Quote_stuck :: "Quote \<Rightarrow> bool" where
  "Quote_stuck q \<longleftrightarrow> mq_state q = Quote_WORKING \<and> mq_order_id q = 0"

definition no_create :: "side \<Rightarrow> (nanoseconds \<times> request \<times> u8) list \<Rightarrow> bool" where
  "no_create sd out \<longleftrightarrow> (\<forall>(t, r, src) \<in> set out. \<forall>c. r = CreateOrder c \<longrightarrow> co_side c \<noteq> sd)"

lemma stuck_timer:
  assumes "maker_updates_ok U" "Quote_on_Timer dbg U D now (sh, q) = Inr (sh', q')" "Quote_stuck q"
  shows "Quote_stuck q'" "sh' = sh"
  using Quote_on_Timer_cases [OF assms(1,2)] assms(3) by (auto simp: quote_actions Quote_stuck_def)

lemma no_create_other_side:
  assumes "maker_updates_ok U" "Quote_on_Timer dbg U D now (sh, q) = Inr (sh', q')" "mq_side q \<noteq> sd"
  shows "\<exists>new. mk_sent sh' = mk_sent sh @ new \<and> no_create sd new"
  using Quote_on_Timer_cases [OF assms(1,2)] assms(3)
  by (auto simp: quote_actions no_create_def Quote_order_def)

lemma stuck_step:
  assumes U: "maker_updates_ok U" and inv: "Maker_inv m" and sd: "sd = BUY \<or> sd = SELL"
    and stuck: "Quote_stuck (quote_of sd m)" and step: "Maker_step dbg U m (D, info, msg) = Inr m'"
    and ids: "\<forall>u. msg = OrderUpdate u \<longrightarrow> ou_order_id u \<noteq> 0"
  shows "Quote_stuck (quote_of sd m') \<and> (\<exists>new. maker_requests m' = maker_requests m @ new \<and> no_create sd new)"
proof -
  note ok = maker_updates_okD [OF U]
  consider now where "Maker_on_Timer dbg U D now m = Inr m'" | "Maker_on_Ready U D (origin_create_time info) m = Inr m'"
    | "\<forall>t. msg \<noteq> Timer t" "msg \<noteq> Ready" using step by fastforce
  then show ?thesis
  proof cases
    case 1
    show ?thesis
    proof (cases "m' = m")
      case False
      then obtain sh1 q1 sh2 q2 where
          q: "Quote_on_Timer dbg U D now (mk_shared m, mk_bid m) = Inr (sh1, q1)"
          "Quote_on_Timer dbg U D now (sh1, mk_ask m) = Inr (sh2, q2)"
          and m': "m' = m\<lparr>mk_shared := sh2, mk_bid := q1, mk_ask := q2\<rparr>"
        using timer_split [OF U 1] by blast
      then show ?thesis
        using sd stuck inv stuck_timer [OF U q(1)] stuck_timer [OF U q(2)]
          no_create_other_side [OF U q(1)] no_create_other_side [OF U q(2)]
        by (auto simp: quote_of_def Maker_inv_def)
    qed (use stuck in \<open>simp add: no_create_def\<close>)
  next
    case 2
    show ?thesis using ready_sends [OF U 2] stuck by (auto simp: quote_of_def no_create_def)
  next
    case 3
    then have "Quote_stuck (quote_of sd m')"
      using step stuck sd ids ok
      by (cases msg) (auto simp: Maker_handlers Maker_with_quote_def Quote_on_OrderUpdate_def Quote_on_OrderAck_def
          quote_of_def Quote_stuck_def result_Inr Let_def Quote_set_state_ok [OF U]
          split: side.splits prod.splits if_splits request_type.splits)
    then show ?thesis using other_sends_nothing(1) [OF U step 3] by (simp add: no_create_def)
  qed
qed

lemma no_create_append: "no_create sd (xs @ ys) \<longleftrightarrow> no_create sd xs \<and> no_create sd ys"
  by (simp add: no_create_def ball_Un)

lemma blocked_timer:
  assumes "Maker_can_trade m" "Shared_is_blocked (mk_history (mk_shared m)) now"
    and "Maker_on_Timer dbg U D now m = Inr m'"
  shows "m' = m\<lparr>mk_bid := (mk_bid m)\<lparr>mq_update_order := False\<rparr>, mk_ask := (mk_ask m)\<lparr>mq_update_order := False\<rparr>\<rparr>"
proof -
  have q: "Quote_on_Timer dbg U D now (mk_shared m, q) = Inr st \<Longrightarrow> st = (mk_shared m, q\<lparr>mq_update_order := False\<rparr>)" for q st
    using assms(2) by (auto simp: Quote_on_Timer_def machine_defs Let_def split: if_splits quote_state.splits)
  from assms(1,3) obtain st1 st2 where "Quote_on_Timer dbg U D now (mk_shared m, mk_bid m) = Inr st1"
      "Quote_on_Timer dbg U D now (fst st1, mk_ask m) = Inr st2"
      "m' = m\<lparr>mk_shared := fst st2, mk_bid := snd st1, mk_ask := snd st2\<rparr>"
    by (auto simp: Maker_on_Timer_def Maker_with_quote_def result_Inr)
  then show ?thesis using q [of "mk_bid m" st1] q [of "mk_ask m" st2] by simp
qed

lemma idle_timer:
  assumes "\<not> mq_update_order (mk_bid m)" "\<not> mq_update_order (mk_ask m)" "Maker_on_Timer dbg U D now m = Inr m'"
  shows "m' = m"
  using assms by (auto simp: Maker_on_Timer_def Maker_with_quote_def Quote_on_Timer_def split: if_splits)

text \<open>The events that lead to the quoting state.\<close>

definition has_cancel_all :: "'u client_event list \<Rightarrow> bool" where
  "has_cancel_all es \<longleftrightarrow> (\<exists>pre D info mid. es = pre @ (D, info, Ready) # mid \<and>
     (\<forall>e \<in> set mid. snd (snd e) \<noteq> Disconnected))"

definition has_quote_start :: "'u client_event list \<Rightarrow> bool" where
  "has_quote_start es \<longleftrightarrow> (\<exists>pre D info mid D' info' post.
     es = pre @ (D, info, Ready) # mid @ (D', info', CancelAllOrdersAck) # post \<and>
     (\<forall>e \<in> set (mid @ post). snd (snd e) \<noteq> Disconnected))"

lemma has_cancel_all_snoc:
  assumes "has_cancel_all es" "snd (snd e) \<noteq> Disconnected"
  shows "has_cancel_all (es @ [e])"
proof -
  obtain pre D info mid where "es = pre @ (D, info, Ready) # mid" "\<forall>e \<in> set mid. snd (snd e) \<noteq> Disconnected"
    using assms(1) unfolding has_cancel_all_def by blast
  then have "es @ [e] = pre @ (D, info, Ready) # (mid @ [e])" "\<forall>e \<in> set (mid @ [e]). snd (snd e) \<noteq> Disconnected"
    using assms(2) by auto
  then show ?thesis unfolding has_cancel_all_def by blast
qed

lemma has_quote_start_snoc:
  assumes "has_quote_start es" "snd (snd e) \<noteq> Disconnected"
  shows "has_quote_start (es @ [e])"
proof -
  obtain pre D info mid D' info' post where
      "es = pre @ (D, info, Ready) # mid @ (D', info', CancelAllOrdersAck) # post"
      "\<forall>e \<in> set (mid @ post). snd (snd e) \<noteq> Disconnected"
    using assms(1) unfolding has_quote_start_def by blast
  then have "es @ [e] = pre @ (D, info, Ready) # mid @ (D', info', CancelAllOrdersAck) # (post @ [e])"
      "\<forall>e \<in> set (mid @ post @ [e]). snd (snd e) \<noteq> Disconnected"
    using assms(2) by auto
  then show ?thesis unfolding has_quote_start_def by blast
qed

lemma has_quote_start_ack:
  assumes "has_cancel_all es"
  shows "has_quote_start (es @ [(D, info, CancelAllOrdersAck)])"
proof -
  obtain pre D' info' mid where "es = pre @ (D', info', Ready) # mid" "\<forall>e \<in> set mid. snd (snd e) \<noteq> Disconnected"
    using assms unfolding has_cancel_all_def by blast
  then have "es @ [(D, info, CancelAllOrdersAck)] =
      pre @ (D', info', Ready) # mid @ (D, info, CancelAllOrdersAck) # []"
      "\<forall>e \<in> set (mid @ []). snd (snd e) \<noteq> Disconnected"
    by auto
  then show ?thesis unfolding has_quote_start_def by blast
qed

lemma has_cancel_all_ready: "has_cancel_all (es @ [(D, info, Ready)])"
  unfolding has_cancel_all_def by (intro exI [of _ es]) auto

lemma state_step:
  assumes U: "maker_updates_ok U" and step: "Maker_step dbg U m (D, info, msg) = Inr m'"
  shows "mk_state m' = (if msg = Disconnected then Maker_UNDEFINED else if msg = Ready then Maker_CANCEL_ALL
    else if msg = CancelAllOrdersAck \<and> mk_ready m \<and> mk_state m = Maker_CANCEL_ALL then Maker_QUOTE else mk_state m)"
proof (cases "\<exists>t. msg = Timer t")
  case True
  then obtain now where "Maker_on_Timer dbg U D now m = Inr m'" using step by auto
  from timer_split [OF U this] True show ?thesis by auto
next
  case False
  then show ?thesis using step ready_sends [OF U, of D "origin_create_time info" m m'] maker_updates_okD [OF U]
    by (cases msg) (auto simp: Maker_handlers Maker_with_quote_def Let_def result_Inr split: side.splits prod.splits if_splits)
qed

lemma quote_start:
  assumes U: "maker_updates_ok U"
  shows "run (Maker_step dbg U) Maker_new es = Inr m \<Longrightarrow>
    (mk_state m \<noteq> Maker_UNDEFINED \<longrightarrow> has_cancel_all es) \<and> (mk_state m = Maker_QUOTE \<longrightarrow> has_quote_start es)"
proof (induction es arbitrary: m rule: rev_induct)
  case Nil
  then show ?case by (auto simp: Maker_new_def)
next
  case (snoc e es)
  then obtain m1 where m1: "run (Maker_step dbg U) Maker_new es = Inr m1" "Maker_step dbg U m1 e = Inr m"
    by (auto simp: run_append_Inr bind_result_eq_Inr)
  obtain D info msg where e: "e = (D, info, msg)" by (cases e)
  show ?case
    using state_step [OF U m1(2) [unfolded e]] snoc.IH [OF m1(1)] has_cancel_all_snoc [of es e] has_quote_start_snoc [of es e]
      has_quote_start_ack [of es D info] has_cancel_all_ready [of es D info]
    by (auto simp: e split: if_splits)
qed

end
