(* ===== verification/Maker_Props.thy ===== *)
theory Maker_Props
  imports Maker
begin

text \<open>The properties of the market maker, and a concrete session that instantiates them.\<close>

section \<open>A concrete session\<close>

definition mk_event :: "nanoseconds \<Rightarrow> unit message \<Rightarrow> unit client_event" where
  "mk_event now msg = (accept_all, \<lparr>source = 0, receive_time = now, origin_create_time = now\<rparr>, msg)"

definition maker_demo_start :: "unit client_event list" where
  "maker_demo_start = map (mk_event 0)
     [DownloadEnd \<lparr>de_account = ''A1'', de_max_order_id = 100\<rparr>,
      ReferenceData \<lparr>rd_exchange = ''deribit'', rd_symbol = ''BTC-PERPETUAL'', rd_tick_size = Fin 2,
        rd_min_trade_vol = Fin 1, rd_multiplier = Fin 1\<rparr>,
      MarketStatus \<lparr>ms_exchange = ''deribit'', ms_symbol = ''BTC-PERPETUAL'', ms_trading_status = OPEN\<rparr>,
      Ready, CancelAllOrdersAck,
      TopOfBook \<lparr>tob_exchange = ''deribit'', tob_symbol = ''BTC-PERPETUAL'',
        tob_layer = \<lparr>bid_price = Fin 100, bid_quantity = Fin 1, ask_price = Fin 104, ask_quantity = Fin 1\<rparr>\<rparr>]"

definition maker_demo_tick :: "unit client_event" where
  "maker_demo_tick = mk_event (seconds 1) (Timer (seconds 1))"

definition maker_demo_ack :: "unit client_event" where
  "maker_demo_ack = mk_event (seconds 2) (OrderAck \<lparr>oa_order_id = 101, oa_side = BUY,
     oa_request_type = CREATE_ORDER, oa_request_status = RequestStatus 1, oa_error = Error_UNDEFINED,
     oa_price = NaN, oa_routing_id = []\<rparr>)"

definition maker_demo_step where
  "maker_demo_step = Maker_step True exact_maker_utils"

lemma to_double_3_4 [simp]: "to_double (3 / 4) = Fin (3 / 4)"
proof -
  have "rnd (of_int 3 * 2 powi (- 2)) = of_int 3 * 2 powi (- 2)" by (rule rnd_dyadic) simp_all
  then have "rnd (3 / 4) = 3 / 4" by (simp add: power_int_def power2_eq_square)
  moreover have "(3 / 4 :: rat) < dbl_overflow" "- dbl_overflow < (3 / 4 :: rat)"
    using power_strict_increasing [of 0 1024 "2 :: rat"] by (simp_all add: dbl_overflow_def)
  ultimately show ?thesis by (simp add: to_double_def)
qed

lemmas maker_eval = maker_demo_step_def maker_demo_start_def maker_demo_tick_def maker_demo_ack_def mk_event_def
  Maker_new_def Shared_new_def Quote_new_def Maker_handlers Maker_on_Ready_def Maker_cancel_all_orders_def
  Maker_on_Timer_def Maker_with_quote_def Maker_can_trade_def Maker_target_prices_def
  Quote_update_target_price_def Quote_on_Timer_def Quote_on_OrderAck_def Quote_set_state_def Quote_order_def
  Shared_is_blocked_def Shared_record_def REQUEST_LIMIT_def MONITOR_PERIOD_def SPREAD_def QUANTITY_def
  MAKER_ACCOUNT_def MAKER_EXCHANGE_def MAKER_SYMBOL_def exact_maker_utils_def exact_utils_def utils.defs
  accept_all_def dsub_def machine_defs

lemma exact_maker_utils_ok: "maker_updates_ok exact_maker_utils"
  by (simp add: maker_updates_ok_def updates_ok_def exact_maker_utils_def exact_utils_def utils.defs update_law_def
      update_double_law_def update_max_law_def)

lemma maker_demo_run:
  "\<exists>m m' m''. run maker_demo_step Maker_new maker_demo_start = Inr m \<and> mk_state m = Maker_QUOTE \<and>
     maker_demo_step m maker_demo_tick = Inr m' \<and>
     maker_demo_step m' maker_demo_ack = Inr m'' \<and> mq_state (mk_bid m'') = Quote_WORKING \<and> Maker_inv m''"
  by (simp add: maker_eval Maker_inv_def Quote_inv_def)

section \<open>Properties\<close>

text \<open>
  C11: Every request has its reason: a cancel-all is sent on the ready event only; an order is
  created or cancelled on a timer only, while the strategy may trade (ready, quoting, tick size
  known, market open), and it is the request of one of the two quotes: the create of a quote
  without an order at its target price, which is a number, or the cancel of the working order.
  Everything goes to source 0, stamped with the time of the event.
\<close>

theorem Maker_requests_gated:
  assumes "maker_updates_ok U" "Maker_step dbg U m (D, info, msg) = Inr m'"
  shows "\<exists>new. maker_requests m' = maker_requests m @ new \<and>
    (\<forall>(t, r, src) \<in> set new. t = origin_create_time info \<and> src = 0 \<and>
       (msg = Ready \<and> r = CancelAllOrders \<lparr>cx_account = MAKER_ACCOUNT, cx_exchange = MAKER_EXCHANGE,
          cx_symbol = MAKER_SYMBOL\<rparr> \<or>
        (\<exists>now. msg = Timer now) \<and> Maker_can_trade m \<and> (request_of (mk_bid m) r \<or> request_of (mk_ask m) r)))"
proof -
  consider t where "msg = Timer t" "Maker_on_Timer dbg U D (origin_create_time info) m = Inr m'"
    | "msg = Ready" "Maker_on_Ready U D (origin_create_time info) m = Inr m'"
    | "\<forall>t. msg \<noteq> Timer t" "msg \<noteq> Ready" using assms(2) by fastforce
  then show ?thesis
  proof cases
    case 1
    then show ?thesis using timer_sent [OF assms(1) 1(2)] by fastforce
  next
    case 2
    show ?thesis using ready_sends [OF assms(1) 2(2)] 2(1) by simp
  next
    case 3
    show ?thesis using other_sends_nothing(1) [OF assms 3] by simp
  qed
qed

theorem Maker_requests_gated_witness:
  "\<exists>m m' new. maker_demo_step m maker_demo_tick = Inr m' \<and> maker_requests m' = maker_requests m @ new \<and>
     (\<forall>(t, r, src) \<in> set new. t = seconds 1 \<and> src = 0 \<and> Maker_can_trade m)"
proof -
  obtain m m' where step: "maker_demo_step m maker_demo_tick = Inr m'" using maker_demo_run by blast
  from Maker_requests_gated [OF exact_maker_utils_ok step [unfolded maker_demo_step_def maker_demo_tick_def mk_event_def]]
  obtain new where new: "maker_requests m' = maker_requests m @ new"
      "\<forall>(t, r, src) \<in> set new. t = seconds 1 \<and> src = 0 \<and> Maker_can_trade m"
    by (auto simp: case_prod_unfold)
  show ?thesis using step new by (intro exI conjI)
qed

text \<open>
  C16: From program start, the strategy is in its quoting state only if a ready event was handled by sending a
  cancel-all request for its account and symbol (as its only request, stamped with the time of the event), an
  acknowledgement of a cancel-all came after that, and no disconnect has come since that ready event.
\<close>

theorem Maker_quotes_after_cancel_all:
  fixes es :: "'u client_event list"
  assumes "maker_updates_ok U" "run (Maker_step dbg U) Maker_new es = Inr m" "mk_state m = Maker_QUOTE"
  shows "\<exists>pre D info mid D' info' post m1 m2.
    es = pre @ (D, info, Ready) # mid @ (D', info', CancelAllOrdersAck) # post \<and>
    run (Maker_step dbg U) Maker_new pre = Inr m1 \<and> Maker_step dbg U m1 (D, info, Ready :: 'u message) = Inr m2 \<and>
    maker_requests m2 = maker_requests m1 @ [(origin_create_time info, CancelAllOrders \<lparr>cx_account = MAKER_ACCOUNT,
      cx_exchange = MAKER_EXCHANGE, cx_symbol = MAKER_SYMBOL\<rparr>, 0)] \<and>
    (\<forall>e \<in> set (mid @ post). snd (snd e) \<noteq> Disconnected)"
proof -
  obtain pre D info mid D' info' post where es: "es = pre @ (D, info, Ready) # mid @ (D', info', CancelAllOrdersAck) # post"
      "\<forall>e \<in> set (mid @ post). snd (snd e) \<noteq> Disconnected"
    using quote_start [OF assms(1,2)] assms(3) unfolding has_quote_start_def by blast
  obtain m1 m2 where m: "run (Maker_step dbg U) Maker_new pre = Inr m1" "Maker_step dbg U m1 (D, info, Ready :: 'u message) = Inr m2"
    using assms(2) unfolding es(1) run_append_Inr run_Cons_Inr by blast
  then have "maker_requests m2 = maker_requests m1 @ [(origin_create_time info, CancelAllOrders \<lparr>cx_account = MAKER_ACCOUNT,
      cx_exchange = MAKER_EXCHANGE, cx_symbol = MAKER_SYMBOL\<rparr>, 0)]"
    using ready_sends [OF assms(1), of D "origin_create_time info" m1 m2] by auto
  then show ?thesis using es m by blast
qed

theorem Maker_quotes_after_cancel_all_witness:
  "\<exists>m pre D info rest m1 m2. run maker_demo_step Maker_new maker_demo_start = Inr m \<and> mk_state m = Maker_QUOTE \<and>
     maker_demo_start = pre @ (D, info, Ready) # rest \<and> run maker_demo_step Maker_new pre = Inr m1 \<and>
     maker_demo_step m1 (D, info, Ready :: unit message) = Inr m2 \<and> maker_requests m2 \<noteq> maker_requests m1"
proof -
  obtain m where m: "run maker_demo_step Maker_new maker_demo_start = Inr m" "mk_state m = Maker_QUOTE"
    using maker_demo_run by blast
  obtain pre D info mid D' info' post m1 m2 where
      w: "maker_demo_start = pre @ (D, info, Ready) # mid @ (D', info', CancelAllOrdersAck) # post"
      "run maker_demo_step Maker_new pre = Inr m1" "maker_demo_step m1 (D, info, Ready :: unit message) = Inr m2"
      "maker_requests m2 = maker_requests m1 @ [(origin_create_time info, CancelAllOrders \<lparr>cx_account = MAKER_ACCOUNT,
         cx_exchange = MAKER_EXCHANGE, cx_symbol = MAKER_SYMBOL\<rparr>, 0)]"
    using Maker_quotes_after_cancel_all [OF exact_maker_utils_ok m(1) [unfolded maker_demo_step_def] m(2)]
    unfolding maker_demo_step_def by blast
  show ?thesis
    by (intro exI conjI, rule m(1), rule m(2), rule w(1), rule w(2), rule w(3)) (simp add: w(4))
qed

text \<open>
  From program start, and while the order id counter is not about to wrap around, neither
  assertion in the creation of an order ever fails: the new id is larger than every id seen,
  and a quote that creates an order has none.
\<close>

theorem Maker_assertions_hold:
  assumes "maker_updates_ok U" "\<forall>t \<in> set (states (Maker_step dbg U) Maker_new es). maker_room t"
  shows "run (Maker_step dbg U) Maker_new es \<noteq> Inl Assertion_Failed"
proof -
  have "Maker_inv Maker_new" by (simp add: Maker_inv_def Maker_new_def Quote_inv_def Quote_new_def)
  then show ?thesis using maker_asserts.run_safe [of U Maker_new dbg es] assms by auto
qed

lemma maker_demo_room:
  "\<forall>t \<in> set (states maker_demo_step Maker_new (maker_demo_start @ [maker_demo_tick])). maker_room t"
  by (simp add: maker_eval maker_room_def)

theorem Maker_assertions_hold_witness:
  "run maker_demo_step Maker_new (maker_demo_start @ [maker_demo_tick]) \<noteq> Inl Assertion_Failed"
  unfolding maker_demo_step_def
  by (rule Maker_assertions_hold [OF exact_maker_utils_ok maker_demo_room [unfolded maker_demo_step_def]])

text \<open>
  From program start, and while the order id counter is not about to wrap around, the ids
  of the orders created by the two quotes are strictly increasing in the order of sending.
\<close>

theorem Maker_order_ids_increase:
  assumes "maker_updates_ok U" "run (Maker_step dbg U) Maker_new es = Inr m"
    and "\<forall>t \<in> set (states (Maker_step dbg U) Maker_new es). maker_room t"
  shows "sorted_wrt (<) (created_ids (map snd (maker_requests m))) \<and>
    (\<forall>i \<in> set (created_ids (map snd (maker_requests m))). i \<le> maker_high m)"
  using maker_orders.run_sorted [OF _ assms(2)] assms(1,3) by (simp add: Maker_new_def Shared_new_def)

theorem Maker_order_ids_increase_witness:
  "\<exists>m. run maker_demo_step Maker_new (maker_demo_start @ [maker_demo_tick]) = Inr m \<and>
     created_ids (map snd (maker_requests m)) = [101, 102] \<and> 102 \<le> maker_high m"
proof -
  obtain m where m: "run maker_demo_step Maker_new (maker_demo_start @ [maker_demo_tick]) = Inr m"
      "created_ids (map snd (maker_requests m)) = [101, 102]"
    by (simp add: maker_eval created_ids_def List.map_filter_simps)
  then show ?thesis
    using Maker_order_ids_increase [OF exact_maker_utils_ok m(1) [unfolded maker_demo_step_def]
        maker_demo_room [unfolded maker_demo_step_def]] by simp
qed

text \<open>
  C15: The rate limit. In any session whose event times do not decrease and in which no two
  events are exactly one monitor period apart, any eleven consecutive order requests take
  longer than the monitor period: at most ten are sent in any two seconds.
\<close>

theorem Maker_rate_limited:
  assumes "maker_updates_ok U" "run (Maker_step dbg U) Maker_new es = Inr m"
    and "sorted (map event_time es)"
    and "\<forall>e \<in> set es. \<forall>f \<in> set es. event_time f - event_time e \<noteq> MONITOR_PERIOD"
    and "i + REQUEST_LIMIT < length (order_times (mk_shared m))"
  shows "order_times (mk_shared m) ! i + MONITOR_PERIOD < order_times (mk_shared m) ! (i + REQUEST_LIMIT)"
proof -
  have "limiter_inv (order_times (mk_shared Maker_new)) (mk_history (mk_shared Maker_new))"
      "order_times (mk_shared Maker_new) = []"
    by (simp_all add: Maker_new_def Shared_new_def order_times_def)
  then have "spaced (order_times (mk_shared m))"
    using run_limited [OF assms(1,2) _ _ assms(3,4)] by (simp add: limiter_inv_def)
  then show ?thesis using assms(5) by (simp add: spaced_def)
qed


definition maker_demo_round :: "nat \<Rightarrow> unit client_event list" where
  "maker_demo_round j = (let now = seconds (2 + int j) + milliseconds (10 + 10 * int j);
       done = (\<lambda>oid sd. OrderUpdate \<lparr>ou_order_id = oid, ou_side = sd, ou_order_status = COMPLETED,
         ou_update_type = INCREMENTAL, ou_quantity = Fin 0, ou_price = Fin 100, ou_traded_quantity = Fin 0,
         ou_routing_id = []\<rparr>)
     in map (mk_event now)
     [done (101 + 2 * of_nat j) BUY, done (102 + 2 * of_nat j) SELL,
      TopOfBook \<lparr>tob_exchange = ''deribit'', tob_symbol = ''BTC-PERPETUAL'',
        tob_layer = \<lparr>bid_price = Fin (104 + 4 * of_nat j), bid_quantity = Fin 1,
          ask_price = Fin (108 + 4 * of_nat j), ask_quantity = Fin 1\<rparr>\<rparr>,
      Timer now])"

definition maker_demo_morning :: "unit client_event list" where
  "maker_demo_morning = maker_demo_start @ [maker_demo_tick] @ maker_demo_round 0 @ maker_demo_round 1"

definition maker_demo_afternoon :: "unit client_event list" where
  "maker_demo_afternoon = maker_demo_round 2 @ maker_demo_round 3 @ maker_demo_round 4"

definition maker_demo_day :: "unit client_event list" where
  "maker_demo_day = maker_demo_morning @ maker_demo_afternoon"

text \<open>The state at noon, but for the requests.\<close>

definition maker_demo_noon :: "Maker \<Rightarrow> bool" where
  "maker_demo_noon m \<longleftrightarrow> mk_ready m \<and> mk_state m = Maker_QUOTE \<and> mk_tick_size m = Fin 2 \<and> mk_trading_status m = OPEN \<and>
     mk_mid_price m = Fin 110 \<and> mk_max_order_id (mk_shared m) = 106 \<and> mk_position (mk_shared m) = Fin 0 \<and>
     mk_history (mk_shared m) = [seconds 2 + milliseconds 10, seconds 2 + milliseconds 10,
       seconds 3 + milliseconds 20, seconds 3 + milliseconds 20] \<and>
     mk_bid m = \<lparr>mq_side = BUY, mq_target_price = Fin (217 / 2), mq_update_order = False, mq_order_id = 105,
       mq_limit_price = NaN, mq_state = Quote_CREATE\<rparr> \<and>
     mk_ask m = \<lparr>mq_side = SELL, mq_target_price = Fin (223 / 2), mq_update_order = False, mq_order_id = 106,
       mq_limit_price = NaN, mq_state = Quote_CREATE\<rparr>"

lemma maker_demo_morning_run:
  "\<exists>m. run maker_demo_step Maker_new maker_demo_morning = Inr m \<and> maker_demo_noon m \<and>
     length (order_times (mk_shared m)) = 6"
  by (simp add: maker_eval maker_demo_morning_def maker_demo_round_def order_times_def Quote_on_OrderUpdate_def
      maker_demo_noon_def)

lemma maker_demo_afternoon_run:
  assumes "maker_demo_noon m"
  shows "\<exists>m'. run maker_demo_step m maker_demo_afternoon = Inr m' \<and>
    length (order_times (mk_shared m')) = length (order_times (mk_shared m)) + 6"
  using assms
  by (simp add: maker_eval maker_demo_afternoon_def maker_demo_round_def order_times_def Quote_on_OrderUpdate_def
      maker_demo_noon_def)

lemma maker_demo_day_run:
  "\<exists>m. run maker_demo_step Maker_new maker_demo_day = Inr m \<and> length (order_times (mk_shared m)) = 12"
proof -
  obtain m where m: "run maker_demo_step Maker_new maker_demo_morning = Inr m" "maker_demo_noon m"
      "length (order_times (mk_shared m)) = 6"
    using maker_demo_morning_run by blast
  obtain m' where "run maker_demo_step m maker_demo_afternoon = Inr m'" "length (order_times (mk_shared m')) = 12"
    using maker_demo_afternoon_run [OF m(2)] m(3) by auto
  then show ?thesis using m(1) by (auto simp: maker_demo_day_def run_append simp del: run.simps)
qed

lemma maker_demo_day_times:
  "sorted (map event_time maker_demo_day)"
  "event_time ` set maker_demo_day = {0, seconds 1, seconds 2 + milliseconds 10, seconds 3 + milliseconds 20,
     seconds 4 + milliseconds 30, seconds 5 + milliseconds 40, seconds 6 + milliseconds 50}"
  by (simp_all add: maker_demo_day_def maker_demo_morning_def maker_demo_afternoon_def maker_demo_round_def maker_demo_start_def maker_demo_tick_def mk_event_def)

theorem Maker_rate_limited_witness:
  "\<exists>m. run maker_demo_step Maker_new maker_demo_day = Inr m \<and>
     order_times (mk_shared m) ! 0 + MONITOR_PERIOD < order_times (mk_shared m) ! (0 + REQUEST_LIMIT)"
proof -
  obtain m where m: "run maker_demo_step Maker_new maker_demo_day = Inr m" "length (order_times (mk_shared m)) = 12"
    using maker_demo_day_run by blast
  have "\<forall>s \<in> event_time ` set maker_demo_day. \<forall>t \<in> event_time ` set maker_demo_day. t - s \<noteq> MONITOR_PERIOD"
    unfolding maker_demo_day_times MONITOR_PERIOD_def by simp
  then have "\<forall>e \<in> set maker_demo_day. \<forall>f \<in> set maker_demo_day. event_time f - event_time e \<noteq> MONITOR_PERIOD"
    by blast
  then show ?thesis
    using Maker_rate_limited [OF exact_maker_utils_ok m(1) [unfolded maker_demo_step_def] maker_demo_day_times(1), of 0] m
    by (auto simp: REQUEST_LIMIT_def)
qed


text \<open>
  C17: The target prices never cross: with a finite mid price and a positive tick size, both
  far from the overflow threshold, the bid the strategy computes is at most the ask it
  computes, whatever the position and the rounding of the arithmetic.
\<close>

theorem Maker_prices_not_crossed:
  assumes "round_away_ok U" "mk_mid_price m = Fin p" "\<bar>p\<bar> \<le> 2 ^ 1000" "mk_tick_size m = Fin t" "0 < t" "t \<le> 2 ^ 1000"
    and "Maker_target_prices U m = (bid, ask)"
  shows "dle bid ask"
proof -
  define skew where "skew = (if is_zero U (mk_position (mk_shared m)) then Fin 0
    else if dlt (mk_position (mk_shared m)) (Fin 0) then Fin t else dneg (Fin t))"
  obtain k where k: "skew = Fin k" "\<bar>k\<bar> \<le> 2 ^ 1000" using assms(5,6)
    by (cases "is_zero U (mk_position (mk_shared m))"; cases "dlt (mk_position (mk_shared m)) (Fin 0)")
      (auto simp: skew_def)
  obtain h where h: "dmul (dmul (Fin (1/2)) SPREAD) (Fin t) = Fin h" "0 \<le> h" "\<bar>h\<bar> \<le> 2 ^ 1000"
    using to_double_bound [of "3 / 4 * t" 1000] assms(5,6) by (auto simp: SPREAD_def)
  have "\<bar>p + k\<bar> \<le> 2 ^ 1001" using assms(3) k(2) by (simp add: abs_le_iff)
  then obtain x where x: "dadd (Fin p) skew = Fin x" "\<bar>x\<bar> \<le> 2 ^ 1001"
    using to_double_bound [of "p + k" 1001] k(1) by auto
  have "\<bar>x - h\<bar> \<le> 2 ^ 1002" "\<bar>x + h\<bar> \<le> 2 ^ 1002" using x(2) h(3) by (simp_all add: abs_le_iff)
  then obtain lo hi where lh: "dsub (Fin x) (Fin h) = Fin lo" "dadd (Fin x) (Fin h) = Fin hi"
    using to_double_bound [of "x - h" 1002] to_double_bound [of "x + h" 1002] by (auto simp: dsub_def)
  have "dle (dsub (Fin x) (Fin h)) (dadd (Fin x) (Fin h))"
    unfolding dsub_def using h(2) by (auto intro: to_double_mono)
  then have "dle (Fin lo) (Fin hi)" by (simp only: lh)
  moreover have "bid = round_away U BUY (Fin lo) (Fin t)" "ask = round_away U SELL (Fin hi) (Fin t)"
    using assms(7) unfolding Maker_target_prices_def Let_def assms(2,4) h(1) skew_def [symmetric] x(1) lh by simp_all
  moreover have "dle (round_away U BUY (Fin lo) (Fin t)) (Fin lo)" "dle (Fin hi) (round_away U SELL (Fin hi) (Fin t))"
    using assms(1,5) by (simp_all add: round_away_ok_def)
  ultimately show ?thesis using dle_trans by blast
qed

theorem Maker_prices_not_crossed_witness:
  "dle (fst (Maker_target_prices exact_maker_utils (Maker_new\<lparr>mk_mid_price := Fin 102, mk_tick_size := Fin 2\<rparr>)))
     (snd (Maker_target_prices exact_maker_utils (Maker_new\<lparr>mk_mid_price := Fin 102, mk_tick_size := Fin 2\<rparr>)))"
proof (rule Maker_prices_not_crossed)
  show "round_away_ok exact_maker_utils"
    by (auto simp: round_away_ok_def exact_maker_utils_def utils.defs elim: is_finite.elims)
  have "(102::rat) \<le> 2 ^ 7" "(2::rat) ^ 7 \<le> 2 ^ 1000" by (simp, rule power_increasing) simp_all
  then show "\<bar>102 :: rat\<bar> \<le> 2 ^ 1000" "(2::rat) \<le> 2 ^ 1000" by linarith+
qed simp_all

text \<open>
  A disconnect while a quote has a working order makes that side stop for good: clearing
  the quote forgets the order id but not the state, so the quote stays working without an
  order through every later session, and no order is ever created on that side again. (No
  order has the id 0.)
\<close>

theorem Maker_disconnect_sticks_quote:
  assumes "maker_updates_ok U" "Maker_inv m" "sd = BUY \<or> sd = SELL" "mq_state (quote_of sd m) = Quote_WORKING"
    and "run (Maker_step dbg U) m ((D, info, Disconnected) # es) = Inr m'"
    and "\<forall>(D, info, msg) \<in> set es. \<forall>u. msg = OrderUpdate u \<longrightarrow> ou_order_id u \<noteq> 0"
  shows "mq_state (quote_of sd m') = Quote_WORKING \<and> mq_order_id (quote_of sd m') = 0 \<and>
    (\<exists>new. maker_requests m' = maker_requests m @ new \<and>
       (\<forall>(t, r, src) \<in> set new. \<forall>c. r = CreateOrder c \<longrightarrow> co_side c \<noteq> sd))"
proof -
  let ?P = "\<lambda>n. Maker_inv n \<and> Quote_stuck (quote_of sd n) \<and>
    (\<exists>new. maker_requests n = maker_requests m @ new \<and> no_create sd new)"
  have "Maker_inv (Maker_on_Disconnected m)"
    using Maker_step_inv [OF assms(1,2), of dbg D info Disconnected "Maker_on_Disconnected m"] by simp
  then have init: "?P (Maker_on_Disconnected m)"
    using assms(4) by (auto simp: Maker_on_Disconnected_def quote_of_def Quote_stuck_def no_create_def)
  have "run (Maker_step dbg U) (Maker_on_Disconnected m) es = Inr m'" using assms(5) by simp
  from this init have "?P m'"
  proof (rule run_preserves)
    fix n e n'
    assume e: "e \<in> set es" and n: "?P n" and step: "Maker_step dbg U n e = Inr n'"
    obtain D' info' msg where ee: "e = (D', info', msg)" by (cases e)
    have "\<forall>u. msg = OrderUpdate u \<longrightarrow> ou_order_id u \<noteq> 0" using assms(6) e ee by auto
    then have "Quote_stuck (quote_of sd n') \<and> (\<exists>new. maker_requests n' = maker_requests n @ new \<and> no_create sd new)"
      using stuck_step [OF assms(1) _ assms(3) _ step [unfolded ee]] n by blast
    then show "?P n'" using n Maker_step_inv [OF assms(1) _ step [unfolded ee]] by (fastforce simp: no_create_append)
  qed
  then show ?thesis by (simp add: Quote_stuck_def no_create_def)
qed

theorem Maker_disconnect_sticks_quote_witness:
  "\<exists>m m'. mq_state (mk_bid m) = Quote_WORKING \<and>
     run maker_demo_step m (mk_event (seconds 3) Disconnected # maker_demo_start @ [maker_demo_tick]) = Inr m' \<and>
     mq_state (mk_bid m') = Quote_WORKING \<and> mq_order_id (mk_bid m') = 0"
proof -
  obtain m0 m1 m where "run maker_demo_step Maker_new maker_demo_start = Inr m0"
      "maker_demo_step m0 maker_demo_tick = Inr m1" "maker_demo_step m1 maker_demo_ack = Inr m"
      and m: "mq_state (mk_bid m) = Quote_WORKING" "Maker_inv m"
      and ex: "\<exists>m'. run maker_demo_step m (mk_event (seconds 3) Disconnected # maker_demo_start @ [maker_demo_tick]) = Inr m'"
    by (simp add: maker_eval Maker_inv_def Quote_inv_def Quote_clear_def)
  then obtain m' where run: "run maker_demo_step m (mk_event (seconds 3) Disconnected # maker_demo_start @ [maker_demo_tick]) = Inr m'"
    by blast
  have "\<forall>(D, info, msg) \<in> set (maker_demo_start @ [maker_demo_tick]). \<forall>u. msg = OrderUpdate u \<longrightarrow> ou_order_id u \<noteq> 0"
    by (simp add: maker_demo_start_def maker_demo_tick_def mk_event_def)
  from Maker_disconnect_sticks_quote [OF exact_maker_utils_ok m(2) _ _
      run [unfolded maker_demo_step_def mk_event_def [of "seconds 3"]] this, of BUY] m(1)
  have "mq_state (quote_of BUY m') = Quote_WORKING \<and> mq_order_id (quote_of BUY m') = 0"
    by (simp add: quote_of_def)
  then show ?thesis using m run by (auto simp: quote_of_def simp del: run.simps)
qed

text \<open>
  A quote update that meets the rate limit is lost: the timer clears the update flags
  although no request was let through, so however many timers follow, nothing is sent until
  the market moves a target price again.
\<close>

theorem Maker_blocked_update_lost:
  assumes "Maker_can_trade m" "Shared_is_blocked (mk_history (mk_shared m)) (origin_create_time info)"
    and "run (Maker_step dbg U) m ((D, info, Timer now) # es) = Inr m'"
    and "\<forall>(D, info, msg) \<in> set es. \<exists>t. msg = Timer t"
  shows "maker_requests m' = maker_requests m \<and> \<not> mq_update_order (mk_bid m') \<and> \<not> mq_update_order (mk_ask m')"
proof -
  obtain n where "Maker_on_Timer dbg U D (origin_create_time info) m = Inr n" and n: "run (Maker_step dbg U) n es = Inr m'"
    using assms(3) by (auto simp: bind_result_eq_Inr)
  from blocked_timer [OF assms(1,2) this(1)]
  have "maker_requests n = maker_requests m \<and> \<not> mq_update_order (mk_bid n) \<and> \<not> mq_update_order (mk_ask n)" by simp
  with n show ?thesis
  proof (rule run_preserves)
    fix a e a'
    assume e: "e \<in> set es" and a: "maker_requests a = maker_requests m \<and> \<not> mq_update_order (mk_bid a) \<and> \<not> mq_update_order (mk_ask a)"
      and step: "Maker_step dbg U a e = Inr a'"
    obtain D' info' t where ee: "e = (D', info', Timer t)" using assms(4) e by fastforce
    then have "a' = a" using idle_timer [of a dbg U D' "origin_create_time info'" a'] a step by simp
    then show "maker_requests a' = maker_requests m \<and> \<not> mq_update_order (mk_bid a') \<and> \<not> mq_update_order (mk_ask a')"
      using a by simp
  qed
qed

theorem Maker_blocked_update_lost_witness:
  "\<exists>m m'. Maker_can_trade m \<and> mq_update_order (mk_bid m) \<and>
     run maker_demo_step m [maker_demo_tick, mk_event (seconds 100) (Timer (seconds 100))] = Inr m' \<and>
     maker_requests m' = maker_requests m"
proof -
  obtain m0 where "run maker_demo_step Maker_new maker_demo_start = Inr m0" "Maker_can_trade m0"
      "mq_update_order (mk_bid m0)" and ex: "\<exists>m'. run maker_demo_step
        (m0\<lparr>mk_shared := (mk_shared m0)\<lparr>mk_history := replicate 10 (seconds 1)\<rparr>\<rparr>)
        [maker_demo_tick, mk_event (seconds 100) (Timer (seconds 100))] = Inr m'"
    by (simp add: maker_eval)
  define m where "m = m0\<lparr>mk_shared := (mk_shared m0)\<lparr>mk_history := replicate 10 (seconds 1)\<rparr>\<rparr>"
  obtain m' where m': "run maker_demo_step m [maker_demo_tick, mk_event (seconds 100) (Timer (seconds 100))] = Inr m'"
    using ex by (auto simp: m_def simp del: run.simps)
  have m: "Maker_can_trade m" "mq_update_order (mk_bid m)"
    using \<open>Maker_can_trade m0\<close> \<open>mq_update_order (mk_bid m0)\<close> by (simp_all add: m_def Maker_can_trade_def)
  have "Shared_is_blocked (mk_history (mk_shared m)) (seconds 1)"
    by (simp add: m_def Shared_is_blocked_def REQUEST_LIMIT_def MONITOR_PERIOD_def)
  then have "maker_requests m' = maker_requests m"
    using Maker_blocked_update_lost [OF m(1) _ m' [unfolded maker_demo_step_def maker_demo_tick_def mk_event_def]] by simp
  then show ?thesis using m m' by blast
qed

end
