(* ===== verification/Polling.thy ===== *)
theory Polling
  imports Roq_API
begin

text \<open>
  The polling client (\<open>polling/strategy.hpp\<close>, \<open>polling/strategy.cpp\<close>): an application that
  drives the client library from its own loop and walks one order through its life cycle with
  a pause of ten seconds before every step. The clock is an input: every place that reads
  \<open>clock::get_system()\<close> takes the reading as an argument. What the poller does in one call of
  \<open>dispatch\<close> is an input too: the event it delivers, if any, and the flag it returns.
  Shown: requests are only sent by a due refresh and how they are spaced, the loop reaches
  \<open>stop\<close> without any message from the gateway, order ids are not recycled, and what a
  reconnect does to the assertion on the order id.
\<close>

section \<open>State\<close>

datatype polling_state =
    PS_UNDEFINED | PS_CONNECTING | PS_READY | PS_CREATE_ORDER | PS_WAITING_CREATE | PS_WORKING
  | PS_CANCEL_ORDER | PS_WAITING_CANCEL | PS_DONE

record polling_settings =
  ps_account :: string
  ps_exchange :: string
  ps_symbol :: string
  ps_quantity :: double
  ps_price :: double

text \<open>\<open>po_started\<close> and \<open>po_stopped\<close> record the calls of \<open>start\<close> and \<open>stop\<close> on the poller.\<close>

record Polling =
  po_next_yield :: nanoseconds
  po_state :: polling_state
  po_next_update :: nanoseconds
  po_max_order_id :: u64
  po_order_id :: u64
  po_started :: bool
  po_stopped :: bool
  po_sent :: outbox

definition Polling_new :: Polling where
  "Polling_new = \<lparr>po_next_yield = 0, po_state = PS_UNDEFINED, po_next_update = 0, po_max_order_id = 0,
     po_order_id = 0, po_started = False, po_stopped = False, po_sent = []\<rparr>"

definition YIELD_FREQUENCY :: nanoseconds where
  "YIELD_FREQUENCY = milliseconds 100"

definition DISPATCH_THIS_MANY_BEFORE_CHECKING_CLOCK :: nat where
  "DISPATCH_THIS_MANY_BEFORE_CHECKING_CLOCK = 1000"

definition WAIT_THIS_LONG_BEFORE_NEXT_STATE_CHANGE :: nanoseconds where
  "WAIT_THIS_LONG_BEFORE_NEXT_STATE_CHANGE = seconds 10"

datatype 'u poll_event =
    Refresh dispatcher nanoseconds nanoseconds
  | Message nanoseconds "'u message"
  | Signal

section \<open>Operations\<close>

definition Polling_set_state :: "bool \<Rightarrow> nanoseconds \<Rightarrow> polling_state \<Rightarrow> Polling \<Rightarrow> Polling result" where
  "Polling_set_state dbg clk st s =
     assert_then dbg (po_state s \<noteq> st)
       (Inr (s\<lparr>po_state := st, po_next_update := clk + WAIT_THIS_LONG_BEFORE_NEXT_STATE_CHANGE\<rparr>))"

text \<open>\<open>NotConnected\<close> and \<open>NotReady\<close> are turned into \<open>log::fatal\<close>; nothing else is caught.\<close>

definition Polling_send :: "dispatcher \<Rightarrow> request \<Rightarrow> Polling \<Rightarrow> Polling result" where
  "Polling_send D r s =
     (case D r 0 of
        None \<Rightarrow> Inr (s\<lparr>po_sent := po_sent s @ [(r, 0)]\<rparr>)
      | Some x \<Rightarrow> if x = NotConnected \<or> x = NotReady then Inl Fatal else Inl (Raised x))"

definition Polling_create_order :: "bool \<Rightarrow> polling_settings \<Rightarrow> dispatcher \<Rightarrow> Polling \<Rightarrow> Polling result" where
  "Polling_create_order dbg settings D s =
     assert_then dbg (po_order_id s = 0)
     (let s1 = s\<lparr>po_max_order_id := po_max_order_id s + 1, po_order_id := po_max_order_id s + 1\<rparr>
      in Polling_send D (CreateOrder \<lparr>
        co_account = ps_account settings, co_order_id = po_order_id s1, co_exchange = ps_exchange settings,
        co_symbol = ps_symbol settings, co_side = BUY, co_max_show_quantity = NaN, co_order_type = LIMIT,
        co_time_in_force = GTC, co_execution_instructions = [], co_quantity = ps_quantity settings,
        co_price = ps_price settings, co_stop_price = NaN, co_leverage = NaN, co_routing_id = [],
        co_strategy_id = 0\<rparr>) s1)"

definition Polling_cancel_order :: "bool \<Rightarrow> polling_settings \<Rightarrow> dispatcher \<Rightarrow> Polling \<Rightarrow> Polling result" where
  "Polling_cancel_order dbg settings D s =
     assert_then dbg (po_order_id s \<noteq> 0)
     (Polling_send D (CancelOrder \<lparr>ca_account = ps_account settings, ca_order_id = po_order_id s,
        ca_routing_id = []\<rparr>) s)"

definition Polling_refresh ::
  "bool \<Rightarrow> polling_settings \<Rightarrow> dispatcher \<Rightarrow> nanoseconds \<Rightarrow> nanoseconds \<Rightarrow> Polling \<Rightarrow> Polling result" where
  "Polling_refresh dbg settings D now clk s =
     (if now < po_next_update s then Inr s
      else case po_state s of
        PS_UNDEFINED \<Rightarrow> assert_then dbg (po_next_update s = 0) (Polling_set_state dbg clk PS_CONNECTING s)
      | PS_CONNECTING \<Rightarrow> Inr s
      | PS_READY \<Rightarrow> Polling_set_state dbg clk PS_CREATE_ORDER s
      | PS_CREATE_ORDER \<Rightarrow>
          bind_result (Polling_set_state dbg clk PS_WAITING_CREATE s) (Polling_create_order dbg settings D)
      | PS_WAITING_CREATE \<Rightarrow> Polling_set_state dbg clk PS_DONE s
      | PS_WORKING \<Rightarrow> Polling_set_state dbg clk PS_CANCEL_ORDER s
      | PS_CANCEL_ORDER \<Rightarrow>
          bind_result (Polling_set_state dbg clk PS_WAITING_CANCEL s) (Polling_cancel_order dbg settings D)
      | PS_WAITING_CANCEL \<Rightarrow> Polling_set_state dbg clk PS_DONE s
      | PS_DONE \<Rightarrow> Inr (s\<lparr>po_stopped := True\<rparr>))"

definition Polling_on_OrderAck ::
  "bool \<Rightarrow> 'm utils_scheme \<Rightarrow> nanoseconds \<Rightarrow> order_ack \<Rightarrow> Polling \<Rightarrow> Polling result" where
  "Polling_on_OrderAck dbg U clk a s =
     (if \<not> has_request_maybe_completed U (oa_request_status a) then Inr s
      else if has_request_failed U (oa_request_status a) then Polling_set_state dbg clk PS_DONE s
      else case oa_request_type a of
          RequestType_UNDEFINED \<Rightarrow> Inl Fatal
        | CREATE_ORDER \<Rightarrow> Polling_set_state dbg clk PS_WORKING s
        | MODIFY_ORDER \<Rightarrow> Inl Fatal
        | CANCEL_ORDER \<Rightarrow> Polling_set_state dbg clk PS_DONE s)"

fun Polling_handle ::
  "bool \<Rightarrow> 'm utils_scheme \<Rightarrow> nanoseconds \<Rightarrow> Polling \<Rightarrow> 'u message \<Rightarrow> Polling result" where
  "Polling_handle dbg U clk s Connected = assert_then dbg (po_state s = PS_CONNECTING) (Inr s)"
| "Polling_handle dbg U clk s Disconnected = Polling_set_state dbg clk PS_CONNECTING s"
| "Polling_handle dbg U clk s (DownloadEnd d) =
     Inr (if po_max_order_id s < de_max_order_id d then s\<lparr>po_max_order_id := de_max_order_id d\<rparr> else s)"
| "Polling_handle dbg U clk s Ready =
     assert_then dbg (po_state s = PS_CONNECTING) (Polling_set_state dbg clk PS_READY s)"
| "Polling_handle dbg U clk s (OrderAck a) = Polling_on_OrderAck dbg U clk a s"
| "Polling_handle dbg U clk s _ = Inr s"

fun Polling_step ::
  "bool \<Rightarrow> 'm utils_scheme \<Rightarrow> polling_settings \<Rightarrow> Polling \<Rightarrow> 'u poll_event \<Rightarrow> Polling result" where
  "Polling_step dbg U settings s (Refresh D now clk) = Polling_refresh dbg settings D now clk s"
| "Polling_step dbg U settings s (Message clk msg) = Polling_handle dbg U clk s msg"
| "Polling_step dbg U settings s Signal = Inr (s\<lparr>po_stopped := True\<rparr>)"

section \<open>The dispatch loop\<close>

text \<open>One round of the outer loop: the dispatcher as it is in this round, the two clock
  readings, and what the successive calls of \<open>dispatch\<close> do.\<close>

record 'u poll_round =
  pr_dispatcher :: dispatcher
  pr_now :: nanoseconds
  pr_clock :: nanoseconds
  pr_dispatches :: "('u poll_event option \<times> bool) list"

fun Polling_drain ::
  "bool \<Rightarrow> 'm utils_scheme \<Rightarrow> polling_settings \<Rightarrow> nat \<Rightarrow> Polling \<Rightarrow> ('u poll_event option \<times> bool) list \<Rightarrow>
     (bool \<times> Polling) result" where
  "Polling_drain dbg U settings 0 s ds = Inr (True, s)"
| "Polling_drain dbg U settings (Suc n) s [] = Inr (True, s)"
| "Polling_drain dbg U settings (Suc n) s ((ev, ok) # ds) =
     bind_result (case ev of None \<Rightarrow> Inr s | Some e \<Rightarrow> Polling_step dbg U settings s e) (\<lambda>s'.
     if ok then Polling_drain dbg U settings n s' ds else Inr (False, s'))"

definition Polling_round ::
  "bool \<Rightarrow> 'm utils_scheme \<Rightarrow> polling_settings \<Rightarrow> Polling \<Rightarrow> 'u poll_round \<Rightarrow> (bool \<times> Polling) result" where
  "Polling_round dbg U settings s r =
     bind_result (Polling_refresh dbg settings (pr_dispatcher r) (pr_now r) (pr_clock r) s) (\<lambda>s1.
     let s2 = (if po_next_yield s1 < pr_now r \<and> 0 < YIELD_FREQUENCY
               then s1\<lparr>po_next_yield := pr_now r + YIELD_FREQUENCY\<rparr> else s1)
     in Polling_drain dbg U settings DISPATCH_THIS_MANY_BEFORE_CHECKING_CLOCK s2 (pr_dispatches r))"

text \<open>The loop over the rounds it is given; the flag says whether it is still running.\<close>

primrec Polling_loop ::
  "bool \<Rightarrow> 'm utils_scheme \<Rightarrow> polling_settings \<Rightarrow> Polling \<Rightarrow> 'u poll_round list \<Rightarrow> (bool \<times> Polling) result" where
  "Polling_loop dbg U settings s [] = Inr (True, s)"
| "Polling_loop dbg U settings s (r # rs) =
     bind_result (Polling_round dbg U settings s r) (\<lambda>(ok, s').
     if ok then Polling_loop dbg U settings s' rs else Inr (False, s'))"

definition Polling_dispatch ::
  "bool \<Rightarrow> 'm utils_scheme \<Rightarrow> polling_settings \<Rightarrow> Polling \<Rightarrow> 'u poll_round list \<Rightarrow> (bool \<times> Polling) result" where
  "Polling_dispatch dbg U settings s rs = Polling_loop dbg U settings (s\<lparr>po_started := True\<rparr>) rs"

lemmas Polling_ops = Polling_set_state_def Polling_send_def Polling_create_order_def Polling_cancel_order_def
  Polling_refresh_def Polling_on_OrderAck_def

section \<open>Lemmas\<close>

lemma handle_sends_nothing:
  assumes "Polling_handle dbg U clk s msg = Inr s'"
  shows "po_sent s' = po_sent s" "po_max_order_id s \<le> po_max_order_id s'" "po_order_id s' = po_order_id s"
proof -
  have "po_sent s' = po_sent s \<and> po_max_order_id s \<le> po_max_order_id s' \<and> po_order_id s' = po_order_id s"
    using assms by (cases msg) (auto simp: Polling_ops result_Inr split: if_splits request_type.splits)
  then show "po_sent s' = po_sent s" "po_max_order_id s \<le> po_max_order_id s'" "po_order_id s' = po_order_id s"
    by auto
qed

text \<open>The three things a due refresh can do with requests.\<close>

lemma refresh_cases:
  assumes "Polling_refresh dbg settings D now clk s = Inr s'"
  shows "po_sent s' = po_sent s \<and> po_max_order_id s' = po_max_order_id s \<and> po_order_id s' = po_order_id s \<or>
    po_next_update s \<le> now \<and> po_next_update s' = clk + WAIT_THIS_LONG_BEFORE_NEXT_STATE_CHANGE \<and>
    (po_state s = PS_CREATE_ORDER \<and> po_state s' = PS_WAITING_CREATE \<and> (dbg \<longrightarrow> po_order_id s = 0) \<and>
       po_max_order_id s' = po_max_order_id s + 1 \<and> po_order_id s' = po_max_order_id s + 1 \<and>
       (\<exists>c. po_sent s' = po_sent s @ [(CreateOrder c, 0)] \<and> co_order_id c = po_max_order_id s + 1 \<and>
          co_side c = BUY \<and> co_quantity c = ps_quantity settings \<and> co_price c = ps_price settings) \<or>
     po_state s = PS_CANCEL_ORDER \<and> po_state s' = PS_WAITING_CANCEL \<and> (dbg \<longrightarrow> po_order_id s \<noteq> 0) \<and>
       po_max_order_id s' = po_max_order_id s \<and> po_order_id s' = po_order_id s \<and>
       po_sent s' = po_sent s @ [(CancelOrder \<lparr>ca_account = ps_account settings, ca_order_id = po_order_id s,
         ca_routing_id = []\<rparr>, 0)])"
  using assms
  by (auto simp: Polling_ops result_Inr Let_def split: if_splits polling_state.splits option.splits)

interpretation polling_orders: order_id_source "Polling_step dbg U settings" po_max_order_id
  "\<lambda>s. created_ids (po_sent s)" "\<lambda>s. po_max_order_id s \<noteq> - 1" for dbg U settings
proof
  fix s e s'
  assume step: "Polling_step dbg U settings s e = Inr s'" and room: "po_max_order_id s \<noteq> - 1"
  show "\<exists>ids. created_ids (po_sent s') = created_ids (po_sent s) @ ids \<and> sorted_wrt (<) ids \<and>
      (\<forall>i \<in> set ids. po_max_order_id s < i \<and> i \<le> po_max_order_id s') \<and> po_max_order_id s \<le> po_max_order_id s'"
  proof (cases e)
    case (Refresh D now clk)
    then show ?thesis
      using refresh_cases [of dbg settings D now clk s s'] step word_less_plus_one [OF room] by auto
  next
    case (Message clk msg)
    then show ?thesis using handle_sends_nothing [of dbg U clk s msg s'] step by auto
  qed (use step in auto)
qed

text \<open>Rounds in which the gateway is silent, spaced so that every refresh is due.\<close>

primrec due_rounds :: "nanoseconds \<Rightarrow> 'u poll_round list \<Rightarrow> bool" where
  "due_rounds t [] = True"
| "due_rounds t (r # rs) = (t \<le> pr_now r \<and> pr_now r \<le> pr_clock r \<and> pr_dispatcher r = accept_all \<and>
     pr_dispatches r = [] \<and> due_rounds (pr_clock r + WAIT_THIS_LONG_BEFORE_NEXT_STATE_CHANGE) rs)"

text \<open>How many due refreshes a state is away from the call of \<open>stop\<close>.\<close>

fun polling_rank :: "polling_state \<Rightarrow> nat" where
  "polling_rank PS_DONE = 1"
| "polling_rank PS_WAITING_CREATE = 2"
| "polling_rank PS_WAITING_CANCEL = 2"
| "polling_rank PS_CREATE_ORDER = 3"
| "polling_rank PS_CANCEL_ORDER = 3"
| "polling_rank PS_READY = 4"
| "polling_rank PS_WORKING = 4"
| "polling_rank _ = 0"

definition polling_ordered :: "bool \<Rightarrow> Polling \<Rightarrow> bool" where
  "polling_ordered dbg s \<longleftrightarrow> po_state s \<noteq> PS_UNDEFINED \<and> po_state s \<noteq> PS_CONNECTING \<and>
     (dbg \<longrightarrow> (po_state s = PS_READY \<or> po_state s = PS_CREATE_ORDER \<longrightarrow> po_order_id s = 0) \<and>
              (po_state s = PS_WORKING \<or> po_state s = PS_CANCEL_ORDER \<longrightarrow> po_order_id s \<noteq> 0))"

lemma drain_silent [simp]: "Polling_drain dbg U settings n s [] = Inr (True, s)"
  by (cases n) simp_all

lemma due_round_step:
  assumes "polling_ordered dbg s" "po_next_update s \<le> t" "due_rounds t (r # rs)"
  shows "\<exists>s'. Polling_round dbg U settings s r = Inr (True, s') \<and> polling_ordered dbg s' \<and>
    po_next_update s' \<le> pr_clock r + WAIT_THIS_LONG_BEFORE_NEXT_STATE_CHANGE \<and>
    (po_stopped s \<longrightarrow> po_stopped s') \<and>
    (po_stopped s' \<or> polling_rank (po_state s') < polling_rank (po_state s))"
proof -
  have r: "pr_dispatches r = []" "pr_dispatcher r = accept_all" "t \<le> pr_now r" "pr_now r \<le> pr_clock r"
    using assms(3) by simp_all
  have W: "0 < WAIT_THIS_LONG_BEFORE_NEXT_STATE_CHANGE"
    by (simp add: WAIT_THIS_LONG_BEFORE_NEXT_STATE_CHANGE_def)
  have due: "\<not> pr_now r < po_next_update s" using r assms(2) by linarith
  show ?thesis
    using assms(1,2) r due W
    by (cases "po_state s") (auto simp: Polling_round_def Polling_ops polling_ordered_def accept_all_def Let_def)
qed

lemma due_rounds_stop:
  "polling_ordered dbg s \<Longrightarrow> po_next_update s \<le> t \<Longrightarrow> due_rounds t rs \<Longrightarrow>
     po_stopped s \<or> polling_rank (po_state s) \<le> length rs \<Longrightarrow>
     \<exists>s'. Polling_loop dbg U settings s rs = Inr (True, s') \<and> po_stopped s'"
proof (induction rs arbitrary: s t)
  case Nil
  then show ?case by (cases "po_state s") (auto simp: polling_ordered_def)
next
  case (Cons r rs)
  obtain s1 where s1: "Polling_round dbg U settings s r = Inr (True, s1)" "polling_ordered dbg s1"
      "po_next_update s1 \<le> pr_clock r + WAIT_THIS_LONG_BEFORE_NEXT_STATE_CHANGE"
      "po_stopped s \<longrightarrow> po_stopped s1" "po_stopped s1 \<or> polling_rank (po_state s1) < polling_rank (po_state s)"
    using due_round_step [OF Cons.prems(1-3)] by blast
  moreover have "po_stopped s1 \<or> polling_rank (po_state s1) \<le> length rs" using s1(4,5) Cons.prems(4) by auto
  ultimately show ?case using Cons.IH [OF s1(2,3)] Cons.prems(3) by simp
qed

section \<open>Properties\<close>

text \<open>
  A request is only ever sent by a refresh at a time at least ten seconds after the clock
  reading of the last state change, in the state that calls for it, and the refresh moves on to
  the matching waiting state for another ten seconds: a create of a new order with the
  configured quantity and price, or a cancel of the order that was created.
\<close>

theorem Polling_requests_when_due:
  assumes "Polling_step dbg U settings s e = Inr s'" "po_sent s' \<noteq> po_sent s"
  shows "\<exists>D now clk. e = Refresh D now clk \<and> po_next_update s \<le> now \<and>
    po_next_update s' = clk + WAIT_THIS_LONG_BEFORE_NEXT_STATE_CHANGE \<and>
    (po_state s = PS_CREATE_ORDER \<and> po_state s' = PS_WAITING_CREATE \<and>
       (\<exists>c. po_sent s' = po_sent s @ [(CreateOrder c, 0)] \<and> co_order_id c = po_order_id s' \<and>
          co_side c = BUY \<and> co_quantity c = ps_quantity settings \<and> co_price c = ps_price settings) \<or>
     po_state s = PS_CANCEL_ORDER \<and> po_state s' = PS_WAITING_CANCEL \<and>
       (\<exists>c. po_sent s' = po_sent s @ [(CancelOrder c, 0)] \<and> ca_order_id c = po_order_id s))"
proof (cases e)
  case (Refresh D now clk)
  then show ?thesis using refresh_cases [of dbg settings D now clk s s'] assms by auto
next
  case (Message clk msg)
  then show ?thesis using handle_sends_nothing(1) [of dbg U clk s msg s'] assms by simp
qed (use assms in auto)

text \<open>
  C18: The loop ends by itself: once the gateway was ready (in every state after the connecting one), and
  with no further message from it, four due rounds are enough for the strategy to have called \<open>stop\<close>,
  whatever step of the order's life cycle it was in; no round fails, also in a debug build when the order id is
  consistent with the step. (Before the gateway is ready the loop waits for it, however many rounds there are.)
\<close>

theorem Polling_reaches_stop:
  assumes "polling_ordered dbg s" "due_rounds (po_next_update s) rs" "4 \<le> length rs"
  shows "\<exists>s'. Polling_dispatch dbg U settings s rs = Inr (True, s') \<and> po_stopped s'"
proof -
  have "polling_rank (po_state s) \<le> 4" by (cases "po_state s") simp_all
  then have "po_stopped s \<or> polling_rank (po_state s) \<le> length rs" using assms(3) by simp
  moreover have "polling_ordered dbg (s\<lparr>po_started := True\<rparr>)" using assms(1) by (simp add: polling_ordered_def)
  ultimately show ?thesis
    using due_rounds_stop [of dbg "s\<lparr>po_started := True\<rparr>" "po_next_update s" rs] assms(2)
    by (simp add: Polling_dispatch_def)
qed

text \<open>
  The order id is not reset when the connection is lost. After an order was created, a
  disconnect, a new ready event and two due refreshes violate the assertion of
  \<open>create_order\<close> in a debug build; a release build forgets the first order and creates a
  second one.
\<close>

theorem Polling_reconnect_breaks:
  assumes "po_order_id s \<noteq> 0" "po_state s \<noteq> PS_CONNECTING"
    and "t1 + WAIT_THIS_LONG_BEFORE_NEXT_STATE_CHANGE \<le> t2" "t2 + WAIT_THIS_LONG_BEFORE_NEXT_STATE_CHANGE \<le> t3"
    and "es = [Message t0 Disconnected, Message t1 Ready, Refresh accept_all t2 t2, Refresh accept_all t3 t3]"
  shows "run (Polling_step True U settings) s es = Inl Assertion_Failed \<and>
    (\<exists>s' c. run (Polling_step False U settings) s es = Inr s' \<and> po_sent s' = po_sent s @ [(CreateOrder c, 0)] \<and>
       po_order_id s' = po_max_order_id s + 1)"
  using assms by (auto simp: Polling_ops accept_all_def assert_then_def)

section \<open>A concrete session\<close>

definition polling_demo_settings :: polling_settings where
  "polling_demo_settings = \<lparr>ps_account = ''A1'', ps_exchange = ''deribit'', ps_symbol = ''BTC-PERPETUAL'',
     ps_quantity = Fin 1, ps_price = Fin 100\<rparr>"

definition polling_demo_create :: Polling where
  "polling_demo_create = Polling_new\<lparr>po_state := PS_CREATE_ORDER, po_next_update := seconds 10\<rparr>"

definition polling_demo_round :: "nat \<Rightarrow> unit poll_round" where
  "polling_demo_round k = \<lparr>pr_dispatcher = accept_all, pr_now = seconds (10 * int k), pr_clock = seconds (10 * int k),
     pr_dispatches = []\<rparr>"

theorem Polling_requests_when_due_witness:
  "\<exists>s'. Polling_step True exact_utils polling_demo_settings polling_demo_create
     (Refresh accept_all (seconds 10) (seconds 10)) = Inr s' \<and> po_state s' = PS_WAITING_CREATE"
proof -
  obtain s' where s': "Polling_step True exact_utils polling_demo_settings polling_demo_create
      (Refresh accept_all (seconds 10) (seconds 10)) = Inr s'" "po_sent s' \<noteq> po_sent polling_demo_create"
    by (simp add: Polling_ops polling_demo_create_def Polling_new_def accept_all_def)
  then show ?thesis using Polling_requests_when_due [OF s'] by (auto simp: polling_demo_create_def)
qed

theorem Polling_reaches_stop_witness:
  "\<exists>s'. Polling_dispatch True exact_utils polling_demo_settings polling_demo_create
     (map polling_demo_round [1, 2, 3, 4]) = Inr (True, s') \<and> po_stopped s'"
  by (rule Polling_reaches_stop)
    (simp_all add: polling_ordered_def polling_demo_create_def Polling_new_def polling_demo_round_def
      WAIT_THIS_LONG_BEFORE_NEXT_STATE_CHANGE_def)

theorem Polling_reconnect_breaks_witness:
  "run (Polling_step True exact_utils polling_demo_settings)
     (Polling_new\<lparr>po_state := PS_WORKING, po_order_id := 1, po_max_order_id := 1\<rparr>)
     ([Message 0 Disconnected, Message 0 Ready, Refresh accept_all (seconds 10) (seconds 10),
      Refresh accept_all (seconds 20) (seconds 20)] :: unit poll_event list) = Inl Assertion_Failed"
  by (rule conjunct1 [OF Polling_reconnect_breaks [where ?t1.0 = 0 and ?t2.0 = "seconds 10"]])
    (simp_all add: WAIT_THIS_LONG_BEFORE_NEXT_STATE_CHANGE_def)

end
