(* ===== verification/S1_Leg.thy ===== *)
theory S1_Leg
  imports Roq_API
begin

text \<open>
  Strategy 1 (\<open>strategy-1/strategy.hpp\<close>, \<open>strategy-1/strategy.cpp\<close>), first half: one leg, a
  managed limit order whose price may be changed while requests are in flight.
  The order object and the timers of \<open>strategy::Bridge\<close> are not part of the repository. They
  keep the callbacks of a leg (\<open>lg_pending\<close>: the outstanding request with its retry counter;
  \<open>lg_timers\<close>: the retries that wait for a timer) and call one of them back in an event of
  their own. What the rate limiter and the request see while one event is handled is an input
  (\<open>leg_env\<close>). \<open>handle_failure\<close> calls \<open>handle_retry\<close>, a local it captured by reference, after
  the function that declared it has returned: a refusal for the rate limit is undefined behaviour.
  The retries that work are the ones the helpers schedule themselves, while the rate limiter is not ready.
  Shown: a leg never has two requests outstanding, it creates its order at most once after a bounded
  number of retries, a waiting leg has its current price at the exchange, and three ways in which it
  goes wrong.
\<close>

section \<open>Settings, environment and state\<close>

record s1_settings =
  s1_account :: string
  s1_exchange :: string
  s1_symbol :: string
  s1_strategy_id :: u32
  s1_max_retries :: u32
  s1_retry_delay :: nanoseconds
  s1_quantity :: double
  s1_price_low :: double
  s1_price_high :: double

record leg_env =
  le_ready :: bool
  le_delay :: nanoseconds
  le_send :: "request \<Rightarrow> exn option"

datatype leg_state = LEG_UNDEFINED | LEG_CREATING | LEG_CHANGING | LEG_WAITING | LEG_FINISHED | LEG_FAILED

datatype leg_callback = Submit nat | Modify nat

text \<open>\<open>lg_acked\<close> is the price of the last successful acknowledgement.\<close>

record Leg =
  lg_side :: side
  lg_quantity :: double
  lg_price :: double
  lg_state :: leg_state
  lg_pending :: "leg_callback list"
  lg_timers :: "(leg_callback \<times> nanoseconds) list"
  lg_sent :: "request list"
  lg_acked :: double

section \<open>Requests\<close>

definition create_limit_order_request :: "s1_settings \<Rightarrow> side \<Rightarrow> double \<Rightarrow> double \<Rightarrow> create_order" where
  "create_limit_order_request settings sd quantity price = \<lparr>
     co_account = [], co_order_id = 0, co_exchange = [], co_symbol = [], co_side = sd,
     co_max_show_quantity = NaN, co_order_type = LIMIT, co_time_in_force = GTC,
     co_execution_instructions = [PARTICIPATE_DO_NOT_INITIATE], co_quantity = quantity, co_price = price,
     co_stop_price = NaN, co_leverage = NaN, co_routing_id = [], co_strategy_id = s1_strategy_id settings\<rparr>"

definition create_modify_order_request :: "s1_settings \<Rightarrow> double \<Rightarrow> modify_order" where
  "create_modify_order_request settings price =
     \<lparr>mo_account = [], mo_order_id = 0, mo_quantity = NaN, mo_price = price, mo_routing_id = []\<rparr>"

section \<open>Operations\<close>

definition Leg_new :: "bool \<Rightarrow> side \<Rightarrow> double \<Rightarrow> double \<Rightarrow> Leg result" where
  "Leg_new dbg sd quantity price =
     assert_then dbg (sd \<noteq> Side_UNDEFINED)
     (assert_then dbg (\<not> isnan quantity)
     (assert_then dbg (\<not> isnan price)
     (Inr \<lparr>lg_side = sd, lg_quantity = quantity, lg_price = price, lg_state = LEG_UNDEFINED,
           lg_pending = [], lg_timers = [], lg_sent = [], lg_acked = NaN\<rparr>)))"

definition Leg_finished :: "Leg \<Rightarrow> bool" where
  "Leg_finished l \<longleftrightarrow> lg_state l = LEG_FINISHED"

text \<open>\<open>(*order_)(request, handle_failure, handle_success)\<close> inside its \<open>try\<close> block.\<close>

definition Leg_send :: "leg_env \<Rightarrow> request \<Rightarrow> leg_callback \<Rightarrow> Leg \<Rightarrow> Leg result" where
  "Leg_send env r cb l =
     (case le_send env r of
        None \<Rightarrow> Inr (l\<lparr>lg_sent := lg_sent l @ [r], lg_pending := lg_pending l @ [cb]\<rparr>)
      | Some x \<Rightarrow> if x = NotConnected then Inr l else Inl (Raised x))"

text \<open>The lambda \<open>handle_retry\<close> of both helpers; \<open>st\<close> is the state it asserts.\<close>

definition Leg_handle_retry ::
  "bool \<Rightarrow> s1_settings \<Rightarrow> leg_state \<Rightarrow> (nat \<Rightarrow> leg_callback) \<Rightarrow> nanoseconds \<Rightarrow> nat \<Rightarrow> Leg \<Rightarrow> Leg result" where
  "Leg_handle_retry dbg settings st cb delay retry_counter l =
     assert_then dbg (lg_state l = st)
     (if unat (s1_max_retries settings) \<le> retry_counter then Inl Fatal
      else Inr (l\<lparr>lg_timers := lg_timers l @ [(cb retry_counter, delay)]\<rparr>))"

definition Leg_submit_order_helper :: "bool \<Rightarrow> s1_settings \<Rightarrow> leg_env \<Rightarrow> nat \<Rightarrow> Leg \<Rightarrow> Leg result" where
  "Leg_submit_order_helper dbg settings env retry_counter l =
     assert_then dbg (lg_state l = LEG_CREATING)
     (if le_ready env then
        Leg_send env (CreateOrder (create_limit_order_request settings (lg_side l) (lg_quantity l) (lg_price l)))
          (Submit retry_counter) l
      else Leg_handle_retry dbg settings LEG_CREATING Submit (le_delay env) retry_counter l)"

definition Leg_submit_order :: "bool \<Rightarrow> s1_settings \<Rightarrow> leg_env \<Rightarrow> Leg \<Rightarrow> Leg result" where
  "Leg_submit_order dbg settings env l =
     assert_then dbg (lg_state l = LEG_UNDEFINED)
     (Leg_submit_order_helper dbg settings env 0 (l\<lparr>lg_state := LEG_CREATING\<rparr>))"

definition Leg_maybe_submit_order ::
  "bool \<Rightarrow> s1_settings \<Rightarrow> leg_env \<Rightarrow> bool \<Rightarrow> trading_status \<Rightarrow> Leg \<Rightarrow> Leg result" where
  "Leg_maybe_submit_order dbg settings env market_ready status l =
     (if lg_state l = LEG_UNDEFINED \<and> market_ready \<and> status = OPEN then Leg_submit_order dbg settings env l else Inr l)"

definition Leg_modify_order_helper :: "bool \<Rightarrow> s1_settings \<Rightarrow> leg_env \<Rightarrow> nat \<Rightarrow> Leg \<Rightarrow> Leg result" where
  "Leg_modify_order_helper dbg settings env retry_counter l =
     (if lg_state l = LEG_FINISHED \<or> lg_state l = LEG_FAILED then Inr l
      else if lg_state l \<noteq> LEG_CHANGING \<and> dbg then Inl Fatal
      else if le_ready env then
        Leg_send env (ModifyOrder (create_modify_order_request settings (lg_price l))) (Modify retry_counter) l
      else Leg_handle_retry dbg settings LEG_CHANGING Modify (le_delay env) retry_counter l)"

definition Leg_modify_order ::
  "bool \<Rightarrow> 'm utils_scheme \<Rightarrow> s1_settings \<Rightarrow> leg_env \<Rightarrow> double \<Rightarrow> Leg \<Rightarrow> Leg result" where
  "Leg_modify_order dbg U settings env price l =
     assert_then dbg (\<not> isnan price)
     (case update_double U (lg_price l) price of (changed, p) \<Rightarrow>
        let l1 = l\<lparr>lg_price := p\<rparr> in
        if changed then
          (case lg_state l1 of
             LEG_UNDEFINED \<Rightarrow> assert_then dbg False (Inr l1)
           | LEG_CREATING \<Rightarrow> Inr l1
           | LEG_CHANGING \<Rightarrow> Inr l1
           | LEG_WAITING \<Rightarrow> Leg_modify_order_helper dbg settings env 0 (l1\<lparr>lg_state := LEG_CHANGING\<rparr>)
           | LEG_FINISHED \<Rightarrow> Inr l1
           | LEG_FAILED \<Rightarrow> Inr l1)
        else Inr l1)"

text \<open>The lambda \<open>handle_failure\<close> of both helpers; its call of \<open>handle_retry\<close> uses a dead object.\<close>

fun Leg_handle_failure :: "bool \<Rightarrow> leg_callback \<Rightarrow> error \<Rightarrow> Leg \<Rightarrow> Leg result" where
  "Leg_handle_failure dbg (Submit c) err l =
     assert_then dbg (lg_state l = LEG_CREATING)
     (if err = REQUEST_RATE_LIMIT_REACHED then Inl Undefined_Behaviour
      else Inl Fatal)"
| "Leg_handle_failure dbg (Modify c) err l =
     assert_then dbg (lg_state l = LEG_CHANGING)
     (if err = REQUEST_RATE_LIMIT_REACHED then Inl Undefined_Behaviour
      else if err = TOO_LATE_TO_MODIFY_OR_CANCEL then Inr (l\<lparr>lg_state := LEG_FINISHED\<rparr>)
      else Inl Fatal)"

text \<open>\<open>handle_success\<close> of both helpers; they differ in the state they assert.\<close>

definition Leg_handle_success ::
  "bool \<Rightarrow> 'm utils_scheme \<Rightarrow> s1_settings \<Rightarrow> leg_env \<Rightarrow> leg_callback \<Rightarrow> double \<Rightarrow> Leg \<Rightarrow> Leg result" where
  "Leg_handle_success dbg U settings env cb price l =
     assert_then dbg (lg_state l = (case cb of Submit c \<Rightarrow> LEG_CREATING | Modify c \<Rightarrow> LEG_CHANGING))
     (let l1 = l\<lparr>lg_acked := price\<rparr> in
      if \<not> is_equal U price (lg_price l1)
      then Leg_modify_order_helper dbg settings env 0 (l1\<lparr>lg_state := LEG_CHANGING\<rparr>)
      else Inr (l1\<lparr>lg_state := LEG_WAITING\<rparr>))"

fun Leg_handle_timer :: "bool \<Rightarrow> s1_settings \<Rightarrow> leg_env \<Rightarrow> leg_callback \<Rightarrow> Leg \<Rightarrow> Leg result" where
  "Leg_handle_timer dbg settings env (Submit c) l = Leg_submit_order_helper dbg settings env (c + 1) l"
| "Leg_handle_timer dbg settings env (Modify c) l = Leg_modify_order_helper dbg settings env (c + 1) l"

definition Leg_on_OrderUpdate :: "order_status \<Rightarrow> Leg \<Rightarrow> Leg" where
  "Leg_on_OrderUpdate status l = (if status = COMPLETED then l\<lparr>lg_state := LEG_FINISHED\<rparr> else l)"

section \<open>Events\<close>

text \<open>
  \<open>Market_Update\<close> stands for the four market handlers, which all call \<open>maybe_submit_order\<close>.
  An acknowledgement or a timer calls back one of the callbacks that wait for it; one that
  nobody waits for does not reach the leg.
\<close>

datatype leg_event =
    Market_Update bool trading_status
  | Order_Update order_status
  | Ack_Failure leg_callback error
  | Ack_Success leg_callback double
  | Timer_Fired leg_callback nanoseconds
  | Set_Price double

fun Leg_step ::
  "bool \<Rightarrow> 'm utils_scheme \<Rightarrow> s1_settings \<Rightarrow> Leg \<Rightarrow> leg_env \<times> leg_event \<Rightarrow> Leg result" where
  "Leg_step dbg U settings l (env, Market_Update market_ready status) =
     Leg_maybe_submit_order dbg settings env market_ready status l"
| "Leg_step dbg U settings l (env, Order_Update status) = Inr (Leg_on_OrderUpdate status l)"
| "Leg_step dbg U settings l (env, Ack_Failure cb err) =
     (if cb \<in> set (lg_pending l)
      then Leg_handle_failure dbg cb err (l\<lparr>lg_pending := remove1 cb (lg_pending l)\<rparr>) else Inr l)"
| "Leg_step dbg U settings l (env, Ack_Success cb price) =
     (if cb \<in> set (lg_pending l)
      then Leg_handle_success dbg U settings env cb price (l\<lparr>lg_pending := remove1 cb (lg_pending l)\<rparr>) else Inr l)"
| "Leg_step dbg U settings l (env, Timer_Fired cb delay) =
     (if (cb, delay) \<in> set (lg_timers l)
      then Leg_handle_timer dbg settings env cb (l\<lparr>lg_timers := remove1 (cb, delay) (lg_timers l)\<rparr>) else Inr l)"
| "Leg_step dbg U settings l (env, Set_Price price) = Leg_modify_order dbg U settings env price l"

lemmas Leg_ops [machine_defs] = Leg_send_def Leg_handle_retry_def Leg_submit_order_helper_def Leg_submit_order_def
  Leg_maybe_submit_order_def Leg_modify_order_helper_def Leg_modify_order_def Leg_handle_success_def
  Leg_on_OrderUpdate_def

section \<open>Invariant\<close>

text \<open>The create requests sent so far.\<close>

definition n_creates :: "Leg \<Rightarrow> nat" where
  "n_creates l = length (filter (\<lambda>r. \<exists>c. r = CreateOrder c) (lg_sent l))"

text \<open>
  At most one callback waits, for an acknowledgement or for a timer, and none while the leg has
  not started or is waiting; at most one create request was sent, and none while its retry waits for a
  timer; the retry counter of a create is bounded; while waiting, the exchange has the current price.
\<close>

definition Leg_inv :: "'m utils_scheme \<Rightarrow> s1_settings \<Rightarrow> Leg \<Rightarrow> bool" where
  "Leg_inv U settings l \<longleftrightarrow>
     length (lg_pending l) + length (lg_timers l) \<le> 1 \<and>
     (lg_state l = LEG_UNDEFINED \<or> lg_state l = LEG_WAITING \<longrightarrow> lg_pending l = [] \<and> lg_timers l = []) \<and>
     (lg_state l = LEG_UNDEFINED \<longrightarrow> n_creates l = 0) \<and>
     n_creates l \<le> 1 \<and>
     (\<forall>c d. (Submit c, d) \<in> set (lg_timers l) \<longrightarrow> n_creates l = 0 \<and> c < unat (s1_max_retries settings)) \<and>
     (lg_state l = LEG_WAITING \<longrightarrow> is_equal U (lg_acked l) (lg_price l))"

lemma at_most_one:
  assumes "length xs + length ys \<le> 1"
  shows "x \<in> set xs \<Longrightarrow> xs = [x] \<and> ys = []" "y \<in> set ys \<Longrightarrow> ys = [y] \<and> xs = []"
  using assms by (cases xs; cases ys; auto simp: length_Suc_conv)+

lemma n_creates_simps [simp]:
  "n_creates (l\<lparr>lg_state := st\<rparr>) = n_creates l" "n_creates (l\<lparr>lg_pending := ps\<rparr>) = n_creates l"
  "n_creates (l\<lparr>lg_timers := ts\<rparr>) = n_creates l" "n_creates (l\<lparr>lg_price := p\<rparr>) = n_creates l"
  "n_creates (l\<lparr>lg_acked := p\<rparr>) = n_creates l"
  "n_creates (l\<lparr>lg_sent := lg_sent l @ [CreateOrder c]\<rparr>) = n_creates l + 1"
  "n_creates (l\<lparr>lg_sent := lg_sent l @ [ModifyOrder m]\<rparr>) = n_creates l"
  by (simp_all add: n_creates_def)

text \<open>The helpers are only called while no callback waits; \<open>Leg_free\<close> is what they start from.\<close>

definition Leg_free :: "Leg \<Rightarrow> bool" where
  "Leg_free l \<longleftrightarrow> lg_pending l = [] \<and> lg_timers l = [] \<and> n_creates l \<le> 1"

lemma submit_helper_inv:
  assumes "Leg_submit_order_helper dbg settings env c l = Inr l'" "Leg_free l"
    and "n_creates l = 0" "lg_state l \<noteq> LEG_UNDEFINED" "lg_state l \<noteq> LEG_WAITING"
  shows "Leg_inv U settings l'"
  using assms
  by (auto simp: Leg_submit_order_helper_def Leg_send_def Leg_handle_retry_def Leg_free_def Leg_inv_def result_Inr
      split: if_splits option.splits)

lemma modify_helper_inv:
  assumes "Leg_modify_order_helper dbg settings env c l = Inr l'" "Leg_free l"
    and "lg_state l \<noteq> LEG_UNDEFINED" "lg_state l \<noteq> LEG_WAITING"
  shows "Leg_inv U settings l'"
  using assms
  by (auto simp: Leg_modify_order_helper_def Leg_send_def Leg_handle_retry_def Leg_free_def Leg_inv_def result_Inr
      split: if_splits option.splits)

lemma pending_free:
  assumes "Leg_inv U settings l" "cb \<in> set (lg_pending l)"
  shows "Leg_free (l\<lparr>lg_pending := remove1 cb (lg_pending l)\<rparr>)"
    "lg_state l \<noteq> LEG_UNDEFINED" "lg_state l \<noteq> LEG_WAITING"
proof -
  have "lg_pending l = [cb] \<and> lg_timers l = []"
    using assms at_most_one(1) [of "lg_pending l" "lg_timers l"] by (simp add: Leg_inv_def)
  then show "Leg_free (l\<lparr>lg_pending := remove1 cb (lg_pending l)\<rparr>)"
    "lg_state l \<noteq> LEG_UNDEFINED" "lg_state l \<noteq> LEG_WAITING"
    using assms by (auto simp: Leg_free_def Leg_inv_def)
qed

lemma timer_free:
  assumes "Leg_inv U settings l" "(cb, d) \<in> set (lg_timers l)"
  shows "Leg_free (l\<lparr>lg_timers := remove1 (cb, d) (lg_timers l)\<rparr>)"
    "lg_state l \<noteq> LEG_UNDEFINED" "lg_state l \<noteq> LEG_WAITING"
    "cb = Submit c \<Longrightarrow> n_creates l = 0 \<and> c < unat (s1_max_retries settings)"
proof -
  have "lg_timers l = [(cb, d)] \<and> lg_pending l = []"
    using assms at_most_one(2) [of "lg_pending l" "lg_timers l"] by (simp add: Leg_inv_def)
  then show "Leg_free (l\<lparr>lg_timers := remove1 (cb, d) (lg_timers l)\<rparr>)"
    "lg_state l \<noteq> LEG_UNDEFINED" "lg_state l \<noteq> LEG_WAITING"
    "cb = Submit c \<Longrightarrow> n_creates l = 0 \<and> c < unat (s1_max_retries settings)"
    using assms by (auto simp: Leg_free_def Leg_inv_def)
qed

lemma failure_inv:
  assumes "Leg_handle_failure dbg cb err l = Inr l'" "Leg_free l"
  shows "Leg_inv U settings l'"
  using assms
  by (cases cb) (auto simp: Leg_free_def Leg_inv_def result_Inr split: if_splits)

lemma success_inv:
  assumes "Leg_handle_success dbg U settings env cb price l = Inr l'" "Leg_free l"
  shows "Leg_inv U settings l'"
proof (cases "is_equal U price (lg_price l)")
  case True
  then show ?thesis
    using assms by (auto simp: Leg_handle_success_def Leg_free_def Leg_inv_def result_Inr Let_def)
next
  case False
  then have "Leg_modify_order_helper dbg settings env 0 (l\<lparr>lg_acked := price, lg_state := LEG_CHANGING\<rparr>) = Inr l'"
    using assms(1) by (simp add: Leg_handle_success_def result_Inr Let_def)
  moreover have "Leg_free (l\<lparr>lg_acked := price, lg_state := LEG_CHANGING\<rparr>)"
    using assms(2) by (simp add: Leg_free_def)
  ultimately show ?thesis by (rule modify_helper_inv) simp_all
qed

lemma set_price_inv:
  assumes U: "updates_ok U" and inv: "Leg_inv U settings l"
    and step: "Leg_modify_order dbg U settings env price l = Inr l'"
  shows "Leg_inv U settings l'"
proof -
  consider "update_double U (lg_price l) price = (True, price)" | "update_double U (lg_price l) price = (False, lg_price l)"
    using U update_double_lawD [of "update_double U" "lg_price l" price] by (auto simp: updates_ok_def)
  then show ?thesis
  proof cases
    case 1
    show ?thesis
    proof (cases "lg_state l = LEG_WAITING")
      case True
      then have "Leg_modify_order_helper dbg settings env 0 (l\<lparr>lg_price := price, lg_state := LEG_CHANGING\<rparr>) = Inr l'"
        using step 1 by (simp add: Leg_modify_order_def result_Inr Let_def)
      moreover have "Leg_free (l\<lparr>lg_price := price, lg_state := LEG_CHANGING\<rparr>)"
        using inv True by (simp add: Leg_free_def Leg_inv_def)
      ultimately show ?thesis by (rule modify_helper_inv) simp_all
    next
      case False
      then have "l' = l\<lparr>lg_price := price\<rparr>"
        using step 1 by (auto simp: Leg_modify_order_def result_Inr Let_def split: leg_state.splits)
      then show ?thesis using inv False by (simp add: Leg_inv_def)
    qed
  next
    case 2
    then have "l' = l" using step by (auto simp: Leg_modify_order_def result_Inr Let_def)
    then show ?thesis using inv by simp
  qed
qed

lemma Leg_step_inv:
  assumes U: "updates_ok U" and inv: "Leg_inv U settings l" and step: "Leg_step dbg U settings l (env, ev) = Inr l'"
  shows "Leg_inv U settings l'"
proof (cases ev)
  case (Market_Update r s)
  consider "l' = l" | "lg_state l = LEG_UNDEFINED"
      "Leg_submit_order_helper dbg settings env 0 (l\<lparr>lg_state := LEG_CREATING\<rparr>) = Inr l'"
    using step Market_Update by (auto simp: Leg_maybe_submit_order_def Leg_submit_order_def result_Inr split: if_splits)
  then show ?thesis
  proof cases
    case 2
    have "Leg_free (l\<lparr>lg_state := LEG_CREATING\<rparr>)" "n_creates (l\<lparr>lg_state := LEG_CREATING\<rparr>) = 0"
      using inv 2(1) by (simp_all add: Leg_free_def Leg_inv_def)
    then show ?thesis using submit_helper_inv [OF 2(2)] by simp
  qed (use inv in simp)
next
  case (Order_Update s)
  then consider "l' = l" | "l' = l\<lparr>lg_state := LEG_FINISHED\<rparr>"
    using step by (cases "s = COMPLETED") (simp_all add: Leg_on_OrderUpdate_def)
  then show ?thesis using inv by cases (simp_all add: Leg_inv_def)
next
  case (Ack_Failure cb err)
  show ?thesis
  proof (cases "cb \<in> set (lg_pending l)")
    case True
    note f = pending_free [OF inv True]
    have "Leg_handle_failure dbg cb err (l\<lparr>lg_pending := remove1 cb (lg_pending l)\<rparr>) = Inr l'"
      using step Ack_Failure True by simp
    then show ?thesis by (rule failure_inv) (use f in simp_all)
  qed (use step Ack_Failure inv in simp)
next
  case (Ack_Success cb price)
  show ?thesis
  proof (cases "cb \<in> set (lg_pending l)")
    case True
    have "Leg_handle_success dbg U settings env cb price (l\<lparr>lg_pending := remove1 cb (lg_pending l)\<rparr>) = Inr l'"
      using step Ack_Success True by simp
    then show ?thesis by (rule success_inv) (rule pending_free(1) [OF inv True])
  qed (use step Ack_Success inv in simp)
next
  case (Timer_Fired cb d)
  show ?thesis
  proof (cases "(cb, d) \<in> set (lg_timers l)")
    case True
    note f = timer_free [OF inv True]
    show ?thesis
    proof (cases cb)
      case (Submit c)
      then have "Leg_submit_order_helper dbg settings env (c + 1) (l\<lparr>lg_timers := remove1 (cb, d) (lg_timers l)\<rparr>) = Inr l'"
        using step Timer_Fired True by simp
      then show ?thesis by (rule submit_helper_inv) (use f Submit in simp_all)
    next
      case (Modify c)
      then have "Leg_modify_order_helper dbg settings env (c + 1) (l\<lparr>lg_timers := remove1 (cb, d) (lg_timers l)\<rparr>) = Inr l'"
        using step Timer_Fired True by simp
      then show ?thesis by (rule modify_helper_inv) (use f in simp_all)
    qed
  qed (use step Timer_Fired inv in simp)
next
  case (Set_Price p)
  then show ?thesis using set_price_inv [OF U inv] step by simp
qed

interpretation leg_machine: event_machine "Leg_step dbg U settings" "\<lambda>l. updates_ok U \<and> Leg_inv U settings l"
  for dbg U settings
  by unfold_locales (auto intro: Leg_step_inv)

lemma Leg_new_inv: "Leg_new dbg sd q p = Inr l \<Longrightarrow> Leg_inv U settings l"
  by (auto simp: Leg_new_def Leg_inv_def result_Inr n_creates_def)

lemma Leg_run_inv:
  assumes "updates_ok U" "Leg_new dbg sd q p = Inr l" "run (Leg_step dbg U settings) l es = Inr l'"
  shows "Leg_inv U settings l'"
  using leg_machine.run_inv [OF _ assms(3)] assms(1) Leg_new_inv [OF assms(2)] by blast

lemma Leg_invD:
  assumes "Leg_inv U settings l"
  shows "length (lg_pending l) + length (lg_timers l) \<le> 1" "n_creates l \<le> 1"
    "lg_state l = LEG_WAITING \<Longrightarrow> is_equal U (lg_acked l) (lg_price l)"
  using assms unfolding Leg_inv_def by blast+

section \<open>Retries of the create request\<close>

text \<open>The timers of a session that call the create helper again.\<close>

fun create_retry :: "Leg \<Rightarrow> leg_env \<times> leg_event \<Rightarrow> bool" where
  "create_retry l (env, Timer_Fired (Submit c) d) = ((Submit c, d) \<in> set (lg_timers l))"
| "create_retry l _ = False"

primrec create_retries :: "(Leg \<Rightarrow> leg_env \<times> leg_event \<Rightarrow> Leg result) \<Rightarrow> Leg \<Rightarrow> (leg_env \<times> leg_event) list \<Rightarrow> nat" where
  "create_retries step l [] = 0"
| "create_retries step l (e # es) = (if create_retry l e then 1 else 0) +
     (case step l e of Inl f \<Rightarrow> 0 | Inr l' \<Rightarrow> create_retries step l' es)"

text \<open>After \<open>n\<close> retries: a timer that waits to submit has counted at least those, and one that may still be set by a
  leg that has not started is the first.\<close>

definition Leg_retried :: "s1_settings \<Rightarrow> nat \<Rightarrow> Leg \<Rightarrow> bool" where
  "Leg_retried settings n l \<longleftrightarrow> n \<le> unat (s1_max_retries settings) \<and> (lg_state l = LEG_UNDEFINED \<longrightarrow> n = 0) \<and>
     (\<forall>c d. (Submit c, d) \<in> set (lg_timers l) \<longrightarrow> n \<le> c)"

lemma submit_retried:
  assumes "Leg_submit_order_helper dbg settings env c l = Inr l'" "lg_timers l = []" "lg_state l \<noteq> LEG_UNDEFINED"
    and "n \<le> c" "n \<le> unat (s1_max_retries settings)"
  shows "Leg_retried settings n l'"
  using assms
  by (auto simp: Leg_submit_order_helper_def Leg_send_def Leg_handle_retry_def Leg_retried_def result_Inr
      split: if_splits option.splits)

text \<open>Everything but the two ways to the create helper leaves the timers that wait to submit, and no leg goes back to
  the state before it started.\<close>

lemma modify_retried:
  assumes "Leg_modify_order_helper dbg settings env c l = Inr l'"
  shows "(Submit k, d) \<in> set (lg_timers l') \<longleftrightarrow> (Submit k, d) \<in> set (lg_timers l)" "lg_state l' = lg_state l"
  using assms by (auto simp: Leg_modify_order_helper_def Leg_send_def Leg_handle_retry_def result_Inr split: if_splits option.splits)

lemma retried_step:
  assumes U: "updates_ok U" and r: "Leg_retried settings n l" and inv: "Leg_inv U settings l"
    and step: "Leg_step dbg U settings l (env, ev) = Inr l'"
  shows "Leg_retried settings (n + (if create_retry l (env, ev) then 1 else 0)) l'"
proof (cases ev)
  case (Market_Update m st)
  then consider "l' = l" | "lg_state l = LEG_UNDEFINED" "Leg_submit_order_helper dbg settings env 0 (l\<lparr>lg_state := LEG_CREATING\<rparr>) = Inr l'"
    using step by (auto simp: Leg_maybe_submit_order_def Leg_submit_order_def result_Inr split: if_splits)
  then show ?thesis
  proof cases
    case 2
    then show ?thesis using r inv submit_retried [OF 2(2)] Market_Update by (simp add: Leg_retried_def Leg_inv_def)
  qed (use r Market_Update in simp)
next
  case (Timer_Fired cb d)
  show ?thesis
  proof (cases "(cb, d) \<in> set (lg_timers l)")
    case True
    then have only: "lg_timers l = [(cb, d)]" and st: "lg_state l \<noteq> LEG_UNDEFINED"
      using inv at_most_one(2) [of "lg_pending l" "lg_timers l"] timer_free(2) [OF inv True] by (simp_all add: Leg_inv_def)
    show ?thesis
    proof (cases cb)
      case (Submit c)
      then have "Leg_submit_order_helper dbg settings env (c + 1) (l\<lparr>lg_timers := []\<rparr>) = Inr l'"
        using step Timer_Fired only by simp
      then show ?thesis
        by (rule submit_retried) (use r only st Submit Timer_Fired timer_free(4) [OF inv True] in \<open>auto simp: Leg_retried_def\<close>)
    next
      case (Modify c)
      then have "Leg_modify_order_helper dbg settings env (c + 1) (l\<lparr>lg_timers := []\<rparr>) = Inr l'"
        using step Timer_Fired only by simp
      from modify_retried [OF this] show ?thesis using r st Modify Timer_Fired by (simp add: Leg_retried_def)
    qed
  qed (use r step Timer_Fired in \<open>cases cb; simp\<close>)
next
  case (Ack_Failure cb err)
  then consider "l' = l" | st where "l' = l\<lparr>lg_pending := remove1 cb (lg_pending l), lg_state := st\<rparr>" "st \<noteq> LEG_UNDEFINED"
    using step by (cases cb) (auto simp: result_Inr split: if_splits)
  then show ?thesis using r Ack_Failure by cases (simp_all add: Leg_retried_def)
next
  case (Ack_Success cb p)
  have "Leg_retried settings n l''"
    if "Leg_modify_order_helper dbg settings env 0 (l\<lparr>lg_pending := ps, lg_acked := p, lg_state := LEG_CHANGING\<rparr>) = Inr l''" for ps l''
    using modify_retried [OF that] r by (simp add: Leg_retried_def)
  moreover have "l' = l \<or>
      Leg_modify_order_helper dbg settings env 0 (l\<lparr>lg_pending := remove1 cb (lg_pending l), lg_acked := p, lg_state := LEG_CHANGING\<rparr>) = Inr l' \<or>
      l' = l\<lparr>lg_pending := remove1 cb (lg_pending l), lg_acked := p, lg_state := LEG_WAITING\<rparr>"
    using step Ack_Success by (auto simp: Leg_handle_success_def result_Inr Let_def split: if_splits)
  moreover have "Leg_retried settings n (l\<lparr>lg_pending := ps, lg_acked := p, lg_state := LEG_WAITING\<rparr>)" for ps
    using r by (simp add: Leg_retried_def)
  ultimately show ?thesis using r Ack_Success by auto
next
  case (Set_Price p)
  have "Leg_retried settings n l''"
    if "Leg_modify_order_helper dbg settings env 0 (l\<lparr>lg_price := q, lg_state := LEG_CHANGING\<rparr>) = Inr l''" for q l''
    using modify_retried [OF that] r by (simp add: Leg_retried_def)
  moreover have "(\<exists>q. l' = l\<lparr>lg_price := q\<rparr>) \<or>
      (\<exists>q. Leg_modify_order_helper dbg settings env 0 (l\<lparr>lg_price := q, lg_state := LEG_CHANGING\<rparr>) = Inr l')"
    using step Set_Price by (auto simp: Leg_modify_order_def result_Inr Let_def split: if_splits prod.splits leg_state.splits)
  moreover have "Leg_retried settings n (l\<lparr>lg_price := q\<rparr>)" for q using r by (simp add: Leg_retried_def)
  ultimately show ?thesis using Set_Price by auto
next
  case (Order_Update st)
  then have "l' = l \<or> l' = l\<lparr>lg_state := LEG_FINISHED\<rparr>" using step by (auto simp: Leg_on_OrderUpdate_def)
  then show ?thesis using r Order_Update by (elim disjE) (simp_all add: Leg_retried_def)
qed

lemma retries_run:
  assumes "updates_ok U"
  shows "Leg_retried settings n l \<Longrightarrow> Leg_inv U settings l \<Longrightarrow>
    n + create_retries (Leg_step dbg U settings) l es \<le> unat (s1_max_retries settings)"
proof (induction es arbitrary: n l)
  case (Cons e es)
  obtain env ev where e: "e = (env, ev)" by (cases e)
  show ?case
  proof (cases "Leg_step dbg U settings l e")
    case (Inl f)
    have "n + 1 \<le> unat (s1_max_retries settings)" if retry: "create_retry l e"
    proof -
      obtain c d where "(Submit c, d) \<in> set (lg_timers l)"
        using retry by (cases "(l, e)" rule: create_retry.cases) auto
      then have "n \<le> c" "c < unat (s1_max_retries settings)"
        using Cons.prems unfolding Leg_retried_def Leg_inv_def by blast+
      then show ?thesis by simp
    qed
    then show ?thesis using Inl Cons.prems by (auto simp: Leg_retried_def)
  next
    case (Inr l')
    show ?thesis
      using Cons.IH [OF retried_step [OF assms Cons.prems Inr [unfolded e]] Leg_step_inv [OF assms Cons.prems(2) Inr [unfolded e]]] Inr e
      by (simp add: add.assoc)
  qed
qed (simp add: Leg_retried_def)

section \<open>A concrete leg\<close>

definition s1_demo_settings :: s1_settings where
  "s1_demo_settings = \<lparr>s1_account = ''A1'', s1_exchange = ''deribit'', s1_symbol = ''BTC-PERPETUAL'', s1_strategy_id = 1,
     s1_max_retries = 3, s1_retry_delay = seconds 1, s1_quantity = Fin 1, s1_price_low = Fin 90, s1_price_high = Fin 120\<rparr>"

definition leg_demo_env :: leg_env where
  "leg_demo_env = \<lparr>le_ready = True, le_delay = 0, le_send = (\<lambda>r. None)\<rparr>"

definition leg_demo :: Leg where
  "leg_demo = \<lparr>lg_side = BUY, lg_quantity = Fin 1, lg_price = Fin 90, lg_state = LEG_UNDEFINED, lg_pending = [],
     lg_timers = [], lg_sent = [], lg_acked = NaN\<rparr>"

text \<open>Held back by the rate limiter, retried, submitted and accepted.\<close>

definition leg_busy_env :: leg_env where
  "leg_busy_env = leg_demo_env\<lparr>le_ready := False, le_delay := seconds 1\<rparr>"

definition leg_demo_events :: "(leg_env \<times> leg_event) list" where
  "leg_demo_events = [(leg_busy_env, Market_Update True OPEN), (leg_demo_env, Timer_Fired (Submit 0) (seconds 1)),
     (leg_demo_env, Ack_Success (Submit 1) (Fin 90))]"

lemmas leg_eval = machine_defs leg_demo_def leg_demo_env_def leg_busy_env_def leg_demo_events_def s1_demo_settings_def exact_utils_def

lemma leg_demo_new: "Leg_new True BUY (Fin 1) (Fin 90) = Inr leg_demo"
  by (simp add: Leg_new_def leg_demo_def)

lemma leg_demo_run:
  "\<exists>l. run (Leg_step True exact_utils s1_demo_settings) leg_demo leg_demo_events = Inr l \<and> lg_state l = LEG_WAITING"
  by (simp add: leg_eval)

section \<open>Properties\<close>

text \<open>
  C21: A leg never has two requests in flight: from its construction on, whatever the market,
  the exchange, the timers and the other leg do, at most one callback waits for an
  acknowledgement or a retry timer.
\<close>

theorem Leg_one_request_outstanding:
  assumes "updates_ok U" "Leg_new dbg sd q p = Inr l" "run (Leg_step dbg U settings) l es = Inr l'"
  shows "length (lg_pending l') + length (lg_timers l') \<le> 1"
  by (rule Leg_invD(1) [OF Leg_run_inv [OF assms]])

theorem Leg_one_request_outstanding_witness:
  "\<exists>l. run (Leg_step True exact_utils s1_demo_settings) leg_demo (take 2 leg_demo_events) = Inr l \<and>
     length (lg_pending l) + length (lg_timers l) \<le> 1"
proof -
  obtain l where "run (Leg_step True exact_utils s1_demo_settings) leg_demo (take 2 leg_demo_events) = Inr l"
    by (simp add: leg_eval)
  then show ?thesis using Leg_one_request_outstanding [OF exact_utils_updates_ok leg_demo_new] by blast
qed

text \<open>
  C22: Retries are bounded: in its whole life a leg sends at most one request to create its order, and tries to
  submit it again from a timer at most \<open>max_retries\<close> times.
\<close>

theorem Leg_creates_bounded:
  assumes "updates_ok U" "Leg_new dbg sd q p = Inr l" "run (Leg_step dbg U settings) l es = Inr l'"
  shows "length (filter (\<lambda>r. \<exists>c. r = CreateOrder c) (lg_sent l')) \<le> 1 \<and>
    create_retries (Leg_step dbg U settings) l es \<le> unat (s1_max_retries settings)"
proof
  show "length (filter (\<lambda>r. \<exists>c. r = CreateOrder c) (lg_sent l')) \<le> 1"
    by (rule Leg_invD(2) [OF Leg_run_inv [OF assms], unfolded n_creates_def])
  have "Leg_retried settings 0 l" using assms(2) by (auto simp: Leg_new_def Leg_retried_def result_Inr)
  from retries_run [OF assms(1) this Leg_new_inv [OF assms(2)], of dbg es]
  show "create_retries (Leg_step dbg U settings) l es \<le> unat (s1_max_retries settings)" by simp
qed

theorem Leg_creates_bounded_witness:
  "\<exists>l. run (Leg_step True exact_utils s1_demo_settings) leg_demo leg_demo_events = Inr l \<and>
     length (filter (\<lambda>r. \<exists>c. r = CreateOrder c) (lg_sent l)) \<le> 1 \<and>
     create_retries (Leg_step True exact_utils s1_demo_settings) leg_demo leg_demo_events \<le> 3"
proof -
  obtain l where "run (Leg_step True exact_utils s1_demo_settings) leg_demo leg_demo_events = Inr l"
    using leg_demo_run by blast
  then show ?thesis using Leg_creates_bounded [OF exact_utils_updates_ok leg_demo_new] by (fastforce simp: s1_demo_settings_def)
qed

text \<open>
  C23: While a leg is waiting to be filled, the price of the last successful acknowledgement
  equals its current price: a price that was changed while a request was in flight is not
  forgotten.
\<close>

theorem Leg_waiting_price_current:
  assumes "updates_ok U" "Leg_new dbg sd q p = Inr l" "run (Leg_step dbg U settings) l es = Inr l'"
    and "lg_state l' = LEG_WAITING"
  shows "is_equal U (lg_acked l') (lg_price l')"
  by (rule Leg_invD(3) [OF Leg_run_inv [OF assms(1-3)] assms(4)])

theorem Leg_waiting_price_current_witness:
  "\<exists>l. run (Leg_step True exact_utils s1_demo_settings) leg_demo leg_demo_events = Inr l \<and>
     is_equal exact_utils (lg_acked l) (lg_price l)"
  using leg_demo_run Leg_waiting_price_current [OF exact_utils_updates_ok leg_demo_new] by blast

text \<open>
  A request that is refused for the rate limit, the one refusal the code means to retry, is undefined behaviour: the
  failure handler runs after the helper that declared \<open>handle_retry\<close> has returned.
\<close>

theorem Leg_refusal_undefined:
  assumes "lg_state l = (case cb of Submit c \<Rightarrow> LEG_CREATING | Modify c \<Rightarrow> LEG_CHANGING)" "cb \<in> set (lg_pending l)"
  shows "Leg_step dbg U settings l (env, Ack_Failure cb REQUEST_RATE_LIMIT_REACHED) = Inl Undefined_Behaviour"
  using assms by (cases cb) simp_all

text \<open>
  An order that is completed before its create request is acknowledged is not handled: the
  late acknowledgement violates an assertion in a debug build, and in a release build it takes
  the finished leg back to waiting.
\<close>

theorem Leg_completed_before_ack:
  assumes "lg_state l = LEG_CREATING" "lg_pending l = [Submit c]" "is_equal U p (lg_price l)"
  shows "run (Leg_step True U settings) l [(env, Order_Update COMPLETED), (env, Ack_Success (Submit c) p)] =
      Inl Assertion_Failed \<and>
    (\<exists>l'. run (Leg_step False U settings) l [(env, Order_Update COMPLETED), (env, Ack_Success (Submit c) p)] = Inr l' \<and>
       lg_state l' = LEG_WAITING \<and> \<not> Leg_finished l')"
  using assms by (simp add: machine_defs assert_then_def Leg_finished_def)

theorem Leg_completed_before_ack_witness:
  "run (Leg_step True exact_utils s1_demo_settings) (leg_demo\<lparr>lg_state := LEG_CREATING, lg_pending := [Submit 0]\<rparr>)
     [(leg_demo_env, Order_Update COMPLETED), (leg_demo_env, Ack_Success (Submit 0) (Fin 90))] = Inl Assertion_Failed"
  by (rule conjunct1 [OF Leg_completed_before_ack]) (simp_all add: leg_demo_def exact_utils_def)

text \<open>
  A leg whose create request meets a gateway that is not connected never tries again: the
  exception is swallowed in the creating state without a retry, and whatever follows, short of
  an update that completes the order, the leg stays there and sends nothing.
\<close>

theorem Leg_not_connected_sticks:
  assumes "lg_state l = LEG_UNDEFINED" "lg_pending l = []" "lg_timers l = []"
    and "le_ready env" "\<And>r. le_send env r = Some NotConnected"
    and "run (Leg_step dbg U settings) l ((env, Market_Update True OPEN) # es) = Inr l'"
    and "\<forall>(env, ev) \<in> set es. ev \<noteq> Order_Update COMPLETED"
  shows "lg_state l' = LEG_CREATING \<and> lg_sent l' = lg_sent l"
proof -
  let ?P = "\<lambda>m. lg_state m = LEG_CREATING \<and> lg_sent m = lg_sent l \<and> lg_pending m = [] \<and> lg_timers m = []"
  obtain m where m: "Leg_step dbg U settings l (env, Market_Update True OPEN) = Inr m"
      "run (Leg_step dbg U settings) m es = Inr l'"
    using assms(6) unfolding run_Cons_Inr by blast
  have "?P m" using m(1) assms(1-5) by (auto simp: machine_defs result_Inr)
  with m(2) have "?P l'"
  proof (rule run_preserves)
    fix a e a'
    assume "e \<in> set es" and a: "?P a" and step: "Leg_step dbg U settings a e = Inr a'"
    obtain env' ev where e: "e = (env', ev)" by (cases e)
    then have "ev \<noteq> Order_Update COMPLETED" using assms(7) \<open>e \<in> set es\<close> by auto
    then show "?P a'" using a step e
      by (cases ev) (auto simp: machine_defs result_Inr Let_def split: if_splits prod.splits)
  qed
  then show ?thesis by simp
qed

theorem Leg_not_connected_sticks_witness:
  "\<exists>l. run (Leg_step True exact_utils s1_demo_settings) leg_demo
     [(leg_demo_env\<lparr>le_send := \<lambda>r. Some NotConnected\<rparr>, Market_Update True OPEN), (leg_demo_env, Market_Update True OPEN)] = Inr l \<and>
     lg_state l = LEG_CREATING \<and> lg_sent l = []"
proof -
  obtain l where l: "run (Leg_step True exact_utils s1_demo_settings) leg_demo
     [(leg_demo_env\<lparr>le_send := \<lambda>r. Some NotConnected\<rparr>, Market_Update True OPEN), (leg_demo_env, Market_Update True OPEN)] = Inr l"
    by (simp add: leg_eval)
  then have "lg_state l = LEG_CREATING \<and> lg_sent l = lg_sent leg_demo"
    by (rule Leg_not_connected_sticks [rotated 5]) (simp_all add: leg_demo_def leg_demo_env_def)
  then show ?thesis using l by (auto simp: leg_demo_def simp del: run.simps)
qed

end
