(* ===== verification/S1_Strategy.thy ===== *)
theory S1_Strategy
  imports S1_Leg
begin

text \<open>
  Strategy 1, second half: the two legs. A sell at the expected high and a buy at the expected
  low of the period; once one of them is filled, the price of the other is pulled to a third of
  the range. Each leg has its own environment in an event, as each of them sends its own
  requests. Shown: the contract of a leg holds for both legs in every session, what an order
  update does to the legs, and that the new prices stay inside the range.
\<close>

section \<open>State and operations\<close>

record Strategy1 =
  s1_high :: "Leg option"
  s1_low :: "Leg option"

definition Strategy1_new :: Strategy1 where
  "Strategy1_new = \<lparr>s1_high = None, s1_low = None\<rparr>"

definition Strategy1_on_AddMarket ::
  "bool \<Rightarrow> s1_settings \<Rightarrow> string \<Rightarrow> string \<Rightarrow> Strategy1 \<Rightarrow> Strategy1 result" where
  "Strategy1_on_AddMarket dbg settings exchange symbol s =
     assert_then dbg (exchange = s1_exchange settings)
     (assert_then dbg (symbol = s1_symbol settings)
     (bind_result (Leg_new dbg SELL (s1_quantity settings) (s1_price_high settings)) (\<lambda>h.
      bind_result (Leg_new dbg BUY (s1_quantity settings) (s1_price_low settings)) (\<lambda>l.
      Inr (s\<lparr>s1_high := Some h, s1_low := Some l\<rparr>)))))"

text \<open>A third back from the high, and a third back from the low.\<close>

definition pull_back_from_high :: "s1_settings \<Rightarrow> double" where
  "pull_back_from_high settings =
     ddiv (dadd (s1_price_low settings) (dmul (Fin 2) (s1_price_high settings))) (Fin 3)"

definition pull_back_from_low :: "s1_settings \<Rightarrow> double" where
  "pull_back_from_low settings =
     ddiv (dadd (dmul (Fin 2) (s1_price_low settings)) (s1_price_high settings)) (Fin 3)"

definition Strategy1_on_OrderUpdate ::
  "bool \<Rightarrow> 'm utils_scheme \<Rightarrow> s1_settings \<Rightarrow> leg_env \<Rightarrow> Strategy1 \<Rightarrow> Strategy1 result" where
  "Strategy1_on_OrderUpdate dbg U settings env s =
     (case (s1_high s, s1_low s) of
        (Some h, Some l) \<Rightarrow>
          (if Leg_finished h \<and> Leg_finished l then Inr s
           else if Leg_finished h then
             bind_result (Leg_modify_order dbg U settings env (pull_back_from_high settings) l) (\<lambda>l'.
             Inr (s\<lparr>s1_low := Some l'\<rparr>))
           else if Leg_finished l then
             bind_result (Leg_modify_order dbg U settings env (pull_back_from_low settings) h) (\<lambda>h'.
             Inr (s\<lparr>s1_high := Some h'\<rparr>))
           else Inr s)
      | _ \<Rightarrow> Inl Undefined_Behaviour)"

text \<open>What the bridge delivers: a new market, an event of one leg (which does not exist before
  the market does), or an order update of any order.\<close>

datatype s1_event = S1_AddMarket string string | S1_High leg_event | S1_Low leg_event | S1_OrderUpdate

fun Strategy1_step ::
  "bool \<Rightarrow> 'm utils_scheme \<Rightarrow> s1_settings \<Rightarrow> Strategy1 \<Rightarrow> leg_env \<times> s1_event \<Rightarrow> Strategy1 result" where
  "Strategy1_step dbg U settings s (env, S1_AddMarket exchange symbol) =
     Strategy1_on_AddMarket dbg settings exchange symbol s"
| "Strategy1_step dbg U settings s (env, S1_High ev) =
     (case s1_high s of None \<Rightarrow> Inr s
      | Some h \<Rightarrow> bind_result (Leg_step dbg U settings h (env, ev)) (\<lambda>h'. Inr (s\<lparr>s1_high := Some h'\<rparr>)))"
| "Strategy1_step dbg U settings s (env, S1_Low ev) =
     (case s1_low s of None \<Rightarrow> Inr s
      | Some l \<Rightarrow> bind_result (Leg_step dbg U settings l (env, ev)) (\<lambda>l'. Inr (s\<lparr>s1_low := Some l'\<rparr>)))"
| "Strategy1_step dbg U settings s (env, S1_OrderUpdate) = Strategy1_on_OrderUpdate dbg U settings env s"

section \<open>Lemmas\<close>

definition Strategy1_inv :: "'m utils_scheme \<Rightarrow> s1_settings \<Rightarrow> Strategy1 \<Rightarrow> bool" where
  "Strategy1_inv U settings s \<longleftrightarrow>
     (\<forall>h. s1_high s = Some h \<longrightarrow> Leg_inv U settings h) \<and> (\<forall>l. s1_low s = Some l \<longrightarrow> Leg_inv U settings l)"

lemma set_price_step:
  assumes "updates_ok U" "Leg_inv U settings l" "Leg_modify_order dbg U settings env price l = Inr l'"
  shows "Leg_inv U settings l'"
  using Leg_step_inv [OF assms(1,2), of dbg env "Set_Price price"] assms(3) by simp

interpretation s1_machine: event_machine "Strategy1_step dbg U settings"
  "\<lambda>s. updates_ok U \<and> Strategy1_inv U settings s" for dbg U settings
proof
  fix s e s'
  assume s: "updates_ok U \<and> Strategy1_inv U settings s" and step: "Strategy1_step dbg U settings s e = Inr s'"
  obtain env ev where e: "e = (env, ev)" by (cases e)
  have "Strategy1_inv U settings s'"
  proof (cases ev)
    case (S1_AddMarket exchange symbol)
    then show ?thesis using step e Leg_new_inv
      by (auto simp: Strategy1_on_AddMarket_def Strategy1_inv_def result_Inr)
  next
    case (S1_High lev)
    then show ?thesis using step e s Leg_step_inv
      by (fastforce simp: Strategy1_inv_def result_Inr split: option.splits)
  next
    case (S1_Low lev)
    then show ?thesis using step e s Leg_step_inv
      by (fastforce simp: Strategy1_inv_def result_Inr split: option.splits)
  next
    case S1_OrderUpdate
    then show ?thesis using step e s set_price_step
      by (fastforce simp: Strategy1_on_OrderUpdate_def Strategy1_inv_def result_Inr split: option.splits if_splits)
  qed
  then show "updates_ok U \<and> Strategy1_inv U settings s'" using s by simp
qed

lemma third_mono:
  assumes "3 * a \<le> n" "n \<le> 3 * b" "\<bar>a\<bar> \<le> 2 ^ 50" "\<bar>b\<bar> \<le> 2 ^ 50"
  shows "dle (dint a) (ddiv (dint n) (Fin 3)) \<and> dle (ddiv (dint n) (Fin 3)) (dint b)"
proof -
  have "to_double (of_int a) = dint a" "to_double (of_int b) = dint b"
    using to_double_of_int [of a] to_double_of_int [of b] assms(3,4) by (simp_all add: dint_def)
  moreover have "(of_int (3 * a) :: rat) \<le> of_int n" "of_int n \<le> (of_int (3 * b) :: rat)"
    using assms(1,2) by (simp_all only: of_int_le_iff)
  then have "(of_int a :: rat) \<le> of_int n / 3" "of_int n / 3 \<le> (of_int b :: rat)" by simp_all
  ultimately show ?thesis
    using to_double_mono [of "of_int a" "of_int n / 3"] to_double_mono [of "of_int n / 3" "of_int b"] by (simp add: dint_def)
qed

lemma twice_plus:
  assumes "\<bar>a\<bar> \<le> 2 ^ 50" "\<bar>b\<bar> \<le> 2 ^ 50"
  shows "dadd (dint a) (dmul (Fin 2) (dint b)) = dint (a + 2 * b)" "dadd (dmul (Fin 2) (dint a)) (dint b) = dint (2 * a + b)"
proof -
  have "dmul (Fin 2) (dint x) = dint (2 * x)" if "\<bar>x\<bar> \<le> 2 ^ 50" for x
    using to_double_of_int [of "2 * x"] that by (simp add: dint_def)
  then show "dadd (dint a) (dmul (Fin 2) (dint b)) = dint (a + 2 * b)" "dadd (dmul (Fin 2) (dint a)) (dint b) = dint (2 * a + b)"
    using assms by (simp_all add: dadd_dint)
qed

section \<open>Properties\<close>

text \<open>
  In every session of the strategy, for both legs: at most one request is outstanding, and
  a leg that is waiting has its current price at the exchange.
\<close>

theorem Strategy1_legs_keep_contract:
  assumes "updates_ok U" "run (Strategy1_step dbg U settings) Strategy1_new es = Inr s"
    and "s1_high s = Some l \<or> s1_low s = Some l"
  shows "length (lg_pending l) + length (lg_timers l) \<le> 1 \<and>
    (lg_state l = LEG_WAITING \<longrightarrow> is_equal U (lg_acked l) (lg_price l))"
proof -
  have "Strategy1_inv U settings Strategy1_new" by (simp add: Strategy1_inv_def Strategy1_new_def)
  then have "Strategy1_inv U settings s" using s1_machine.run_inv [OF _ assms(2)] assms(1) by simp
  then have "Leg_inv U settings l" using assms(3) by (auto simp: Strategy1_inv_def)
  then show ?thesis using Leg_invD(1,3) by blast
qed

text \<open>
  With whole-number prices (up to 2 to the 50th) the prices of the pull-back stay within
  the range from the low to the high, and the one that buys is at least the one that sells,
  in binary64 arithmetic.
\<close>

theorem Strategy1_pull_back_in_range:
  assumes "s1_price_low settings = dint a" "s1_price_high settings = dint b" "a \<le> b" "\<bar>a\<bar> \<le> 2 ^ 50" "\<bar>b\<bar> \<le> 2 ^ 50"
  shows "dle (dint a) (pull_back_from_low settings) \<and> dle (pull_back_from_low settings) (pull_back_from_high settings) \<and>
    dle (pull_back_from_high settings) (dint b)"
proof -
  have h: "pull_back_from_high settings = ddiv (dint (a + 2 * b)) (Fin 3)"
    and l: "pull_back_from_low settings = ddiv (dint (2 * a + b)) (Fin 3)"
    using assms twice_plus [OF assms(4,5)] by (simp_all add: pull_back_from_high_def pull_back_from_low_def)
  have "dle (dint a) (pull_back_from_low settings)" using third_mono [of a "2 * a + b" b] assms(3-5) l by simp
  moreover have "dle (pull_back_from_high settings) (dint b)" using third_mono [of a "a + 2 * b" b] assms(3-5) h by simp
  moreover have "dle (pull_back_from_low settings) (pull_back_from_high settings)"
    unfolding h l using assms(3) by (auto simp: dint_def intro!: to_double_mono divide_right_mono)
  ultimately show ?thesis by simp
qed

text \<open>
  When an order update finds the high leg finished and the low leg waiting at another
  price, and the request gets through, the low leg asks the exchange for the price a third back
  from the high, is changing until that is acknowledged, and the high leg is left alone.
\<close>

theorem Strategy1_moves_other_leg:
  assumes "s1_high s = Some h" "Leg_finished h" "s1_low s = Some l" "lg_state l = LEG_WAITING"
    and "update_double U (lg_price l) (pull_back_from_high settings) = (True, pull_back_from_high settings)"
    and "\<not> isnan (pull_back_from_high settings)" "le_ready env" "\<And>r. le_send env r = None"
  shows "\<exists>l'. Strategy1_step dbg U settings s (env, S1_OrderUpdate) = Inr (s\<lparr>s1_low := Some l'\<rparr>) \<and>
    lg_state l' = LEG_CHANGING \<and> lg_price l' = pull_back_from_high settings \<and>
    lg_sent l' = lg_sent l @ [ModifyOrder (create_modify_order_request settings (pull_back_from_high settings))]"
proof -
  let ?p = "pull_back_from_high settings"
  let ?l = "l\<lparr>lg_price := ?p, lg_state := LEG_CHANGING, lg_pending := lg_pending l @ [Modify 0],
    lg_sent := lg_sent l @ [ModifyOrder (create_modify_order_request settings ?p)]\<rparr>"
  have "Leg_modify_order dbg U settings env ?p l = Inr ?l" using assms(4-8) by (simp add: machine_defs Let_def)
  then show ?thesis using assms(1-4) by (intro exI [of _ ?l]) (simp add: Strategy1_on_OrderUpdate_def Leg_finished_def)
qed

section \<open>Witnesses\<close>

definition s1_demo :: Strategy1 where
  "s1_demo = \<lparr>s1_high = Some (leg_demo\<lparr>lg_side := SELL, lg_state := LEG_FINISHED\<rparr>),
     s1_low = Some (leg_demo\<lparr>lg_state := LEG_WAITING, lg_acked := Fin 90\<rparr>)\<rparr>"

theorem Strategy1_legs_keep_contract_witness:
  "\<exists>s l. run (Strategy1_step True exact_utils s1_demo_settings) Strategy1_new
      ((leg_demo_env, S1_AddMarket ''deribit'' ''BTC-PERPETUAL'') # map (\<lambda>(env, ev). (env, S1_Low ev)) leg_demo_events) = Inr s \<and>
     s1_low s = Some l \<and> length (lg_pending l) + length (lg_timers l) \<le> 1"
proof -
  obtain s l where s: "run (Strategy1_step True exact_utils s1_demo_settings) Strategy1_new
      ((leg_demo_env, S1_AddMarket ''deribit'' ''BTC-PERPETUAL'') # map (\<lambda>(env, ev). (env, S1_Low ev)) leg_demo_events) = Inr s"
      "s1_low s = Some l"
    by (simp add: Strategy1_new_def Strategy1_on_AddMarket_def Leg_new_def leg_eval)
  then show ?thesis using Strategy1_legs_keep_contract [OF exact_utils_updates_ok s(1), of l] by blast
qed

theorem Strategy1_pull_back_in_range_witness:
  "dle (Fin 90) (pull_back_from_low s1_demo_settings) \<and> dle (pull_back_from_high s1_demo_settings) (Fin 120)"
  using Strategy1_pull_back_in_range [of s1_demo_settings 90 120] by (simp add: s1_demo_settings_def dint_def)

lemma demo_pull_back: "pull_back_from_high s1_demo_settings = Fin 110"
  by (simp add: pull_back_from_high_def s1_demo_settings_def)

theorem Strategy1_moves_other_leg_witness:
  "\<exists>l'. Strategy1_step True exact_utils s1_demo_settings s1_demo (leg_demo_env, S1_OrderUpdate) =
     Inr (s1_demo\<lparr>s1_low := Some l'\<rparr>) \<and> lg_price l' = Fin 110"
  using Strategy1_moves_other_leg [of s1_demo "leg_demo\<lparr>lg_side := SELL, lg_state := LEG_FINISHED\<rparr>"
      "leg_demo\<lparr>lg_state := LEG_WAITING, lg_acked := Fin 90\<rparr>" exact_utils s1_demo_settings leg_demo_env True]
  by (auto simp: s1_demo_def Leg_finished_def demo_pull_back exact_utils_def leg_demo_def leg_demo_env_def)

end
