(* ===== verification/S1_Controller.thy ===== *)
theory S1_Controller
  imports S1_Strategy
begin

text \<open>
  The controller of strategy 1 (\<open>strategy-1/controller.*\<close>): the dispatch loop that polls the
  client library, forwards the messages to the bridge of the strategy library and gives it a timer
  every tenth of a second. The bridge is a parameter: its state and what it does with an event.
  The readings of the clock and what the poller delivers are inputs. Shown: the loop is a run of
  the bridge over a stream of events that is read off the inputs, and the timers in it.
\<close>

section \<open>Constants and state\<close>

definition S1_DISPATCH_THIS_MANY :: nat where
  "S1_DISPATCH_THIS_MANY = 1000"

definition S1_YIELD_FREQUENCY :: nanoseconds where
  "S1_YIELD_FREQUENCY = milliseconds 1000"

definition S1_TIMER_FREQUENCY :: nanoseconds where
  "S1_TIMER_FREQUENCY = milliseconds 100"

record 'b S1_Controller =
  ct_next_yield :: nanoseconds
  ct_next_timer :: nanoseconds
  ct_bridge :: 'b
  ct_started :: bool
  ct_stopped :: bool

definition S1_Controller_new :: "'b \<Rightarrow> 'b S1_Controller" where
  "S1_Controller_new b = \<lparr>ct_next_yield = 0, ct_next_timer = 0, ct_bridge = b, ct_started = False, ct_stopped = False\<rparr>"

section \<open>Events\<close>

text \<open>What a call of the poller delivers: a signal or a message. \<open>ct_stopped\<close> records the call of
  the dispatcher's \<open>stop\<close>.\<close>

datatype 'u s1_poll = S1_Signal | S1_Message "'u event"

text \<open>The handlers the controller overrides; the library drops the other messages.\<close>

fun S1_Controller_handles :: "'u message \<Rightarrow> bool" where
  "S1_Controller_handles Connected = True"
| "S1_Controller_handles Disconnected = True"
| "S1_Controller_handles (DownloadEnd d) = True"
| "S1_Controller_handles Ready = True"
| "S1_Controller_handles (ReferenceData r) = True"
| "S1_Controller_handles (MarketStatus m) = True"
| "S1_Controller_handles (TopOfBook t) = True"
| "S1_Controller_handles (OrderAck a) = True"
| "S1_Controller_handles (OrderUpdate u) = True"
| "S1_Controller_handles TradeUpdate = True"
| "S1_Controller_handles _ = False"

definition S1_bridge :: "('b \<Rightarrow> 'u event \<Rightarrow> 'b result) \<Rightarrow> 'b S1_Controller \<Rightarrow> 'u event \<Rightarrow> 'b S1_Controller result" where
  "S1_bridge B c e = bind_result (B (ct_bridge c) e) (\<lambda>b. Inr (c\<lparr>ct_bridge := b\<rparr>))"

fun S1_Controller_handle :: "('b \<Rightarrow> 'u event \<Rightarrow> 'b result) \<Rightarrow> 'b S1_Controller \<Rightarrow> 'u s1_poll \<Rightarrow> 'b S1_Controller result" where
  "S1_Controller_handle B c S1_Signal = Inr (c\<lparr>ct_stopped := True\<rparr>)"
| "S1_Controller_handle B c (S1_Message e) = (if S1_Controller_handles (snd e) then S1_bridge B c e else Inr c)"

definition S1_refresh ::
  "u8 \<Rightarrow> ('b \<Rightarrow> 'u event \<Rightarrow> 'b result) \<Rightarrow> nanoseconds \<Rightarrow> 'b S1_Controller \<Rightarrow> 'b S1_Controller result" where
  "S1_refresh self B now c =
     S1_bridge B c (\<lparr>source = self, receive_time = now, origin_create_time = now\<rparr>, Timer now)"

section \<open>The dispatch loop\<close>

text \<open>One round: the clock, and what each call of the poller delivers with the flag it returns.\<close>

record 'u s1_round =
  sr_now :: nanoseconds
  sr_dispatches :: "('u s1_poll option \<times> bool) list"

fun S1_drain ::
  "('b \<Rightarrow> 'u event \<Rightarrow> 'b result) \<Rightarrow> nat \<Rightarrow> 'b S1_Controller \<Rightarrow> ('u s1_poll option \<times> bool) list \<Rightarrow>
    (bool \<times> 'b S1_Controller) result" where
  "S1_drain B 0 c ds = Inr (True, c)"
| "S1_drain B (Suc n) c [] = Inr (True, c)"
| "S1_drain B (Suc n) c ((p, ok) # ds) =
     bind_result (case p of None \<Rightarrow> Inr c | Some x \<Rightarrow> S1_Controller_handle B c x) (\<lambda>c'.
     if ok then S1_drain B n c' ds else Inr (False, c'))"

definition S1_round ::
  "u8 \<Rightarrow> ('b \<Rightarrow> 'u event \<Rightarrow> 'b result) \<Rightarrow> 'b S1_Controller \<Rightarrow> 'u s1_round \<Rightarrow> (bool \<times> 'b S1_Controller) result" where
  "S1_round self B c r =
     bind_result
       (if ct_next_timer c < sr_now r
        then bind_result (S1_refresh self B (sr_now r) c) (\<lambda>c. Inr (c\<lparr>ct_next_timer := sr_now r + S1_TIMER_FREQUENCY\<rparr>))
        else Inr c) (\<lambda>c1.
     let c2 = (if ct_next_yield c1 < sr_now r \<and> 0 < S1_YIELD_FREQUENCY
               then c1\<lparr>ct_next_yield := sr_now r + S1_YIELD_FREQUENCY\<rparr> else c1)
     in S1_drain B S1_DISPATCH_THIS_MANY c2 (sr_dispatches r))"

primrec S1_loop ::
  "u8 \<Rightarrow> ('b \<Rightarrow> 'u event \<Rightarrow> 'b result) \<Rightarrow> 'b S1_Controller \<Rightarrow> 'u s1_round list \<Rightarrow> (bool \<times> 'b S1_Controller) result" where
  "S1_loop self B c [] = Inr (True, c)"
| "S1_loop self B c (r # rs) =
     bind_result (S1_round self B c r) (\<lambda>(ok, c'). if ok then S1_loop self B c' rs else Inr (False, c'))"

definition S1_dispatch ::
  "u8 \<Rightarrow> ('b \<Rightarrow> 'u event \<Rightarrow> 'b result) \<Rightarrow> 'b S1_Controller \<Rightarrow> 'u s1_round list \<Rightarrow> (bool \<times> 'b S1_Controller) result" where
  "S1_dispatch self B c rs = S1_loop self B (c\<lparr>ct_started := True\<rparr>) rs"

section \<open>What the legs call\<close>

text \<open>The interface of the bridge that the controller hands through, with the bridge it belongs to: timers,
  orders (with the handlers \<open>'h\<close> for their updates), accounts and markets.\<close>

record ('b, 'h, 'o, 'k) s1_bridge_ops =
  sb_add_timer :: "'b \<Rightarrow> nanoseconds \<Rightarrow> 'h \<Rightarrow> 'b"
  sb_create_order :: "'b \<Rightarrow> string \<Rightarrow> 'k \<Rightarrow> 'h list \<Rightarrow> 'o \<times> 'b"
  sb_has_account :: "'b \<Rightarrow> u8 \<Rightarrow> string \<Rightarrow> bool"
  sb_get_market :: "'b \<Rightarrow> string \<Rightarrow> string \<Rightarrow> 'k"
  sb_has_market :: "'b \<Rightarrow> string \<Rightarrow> string \<Rightarrow> bool"

definition S1_add_timer :: "('b, 'h, 'o, 'k) s1_bridge_ops \<Rightarrow> nanoseconds \<Rightarrow> 'h \<Rightarrow> 'b S1_Controller \<Rightarrow> 'b S1_Controller" where
  "S1_add_timer B delay handler c = c\<lparr>ct_bridge := sb_add_timer B (ct_bridge c) delay handler\<rparr>"

text \<open>The three overloads pass one or two handlers.\<close>

definition S1_create_order ::
  "('b, 'h, 'o, 'k) s1_bridge_ops \<Rightarrow> string \<Rightarrow> 'k \<Rightarrow> 'h list \<Rightarrow> 'b S1_Controller \<Rightarrow> 'o \<times> 'b S1_Controller" where
  "S1_create_order B account market handlers c =
     (let (order, b) = sb_create_order B (ct_bridge c) account market handlers in (order, c\<lparr>ct_bridge := b\<rparr>))"

definition S1_has_account :: "('b, 'h, 'o, 'k) s1_bridge_ops \<Rightarrow> u8 \<Rightarrow> string \<Rightarrow> 'b S1_Controller \<Rightarrow> bool" where
  "S1_has_account B src account c = sb_has_account B (ct_bridge c) src account"

definition S1_get_market :: "('b, 'h, 'o, 'k) s1_bridge_ops \<Rightarrow> string \<Rightarrow> string \<Rightarrow> 'b S1_Controller \<Rightarrow> 'k" where
  "S1_get_market B exchange symbol c = sb_get_market B (ct_bridge c) exchange symbol"

definition S1_has_market :: "('b, 'h, 'o, 'k) s1_bridge_ops \<Rightarrow> string \<Rightarrow> string \<Rightarrow> 'b S1_Controller \<Rightarrow> bool" where
  "S1_has_market B exchange symbol c = sb_has_market B (ct_bridge c) exchange symbol"

text \<open>The requests of the bridge go to the dispatcher of the client library.\<close>

definition S1_outbound :: "dispatcher \<Rightarrow> request \<Rightarrow> u8 \<Rightarrow> outbox \<Rightarrow> outbox result" where
  "S1_outbound D r src out = (case D r src of Some x \<Rightarrow> Inl (Raised x) | None \<Rightarrow> Inr (out @ [(r, src)]))"

text \<open>The configuration of the rate limiter that the legs share.\<close>

record s1_rate_limiter =
  rl_request_limit :: nat
  rl_monitor_period :: nanoseconds
  rl_ban_period :: nanoseconds

definition create_rate_limiter :: "nat \<Rightarrow> nanoseconds \<Rightarrow> nanoseconds \<Rightarrow> s1_rate_limiter" where
  "create_rate_limiter request_limit monitor_period ban_period =
     \<lparr>rl_request_limit = request_limit, rl_monitor_period = monitor_period, rl_ban_period = ban_period\<rparr>"

text \<open>None of these touches the schedule of the controller; queries do not change the bridge.\<close>

lemma S1_calls_keep_schedule:
  "ct_next_timer (S1_add_timer B delay handler c) = ct_next_timer c"
  "ct_next_yield (S1_add_timer B delay handler c) = ct_next_yield c"
  "ct_next_timer (snd (S1_create_order B account market handlers c)) = ct_next_timer c"
  "ct_next_yield (snd (S1_create_order B account market handlers c)) = ct_next_yield c"
  by (simp_all add: S1_add_timer_def S1_create_order_def split: prod.split)

section \<open>The stream of events\<close>

text \<open>What the bridge is given, read off the inputs alone.\<close>

definition forwarded :: "'u s1_poll option \<Rightarrow> 'u event list" where
  "forwarded p = (case p of Some (S1_Message e) \<Rightarrow> if S1_Controller_handles (snd e) then [e] else [] | _ \<Rightarrow> [])"

fun drain_events :: "nat \<Rightarrow> ('u s1_poll option \<times> bool) list \<Rightarrow> 'u event list \<times> bool" where
  "drain_events 0 ds = ([], True)"
| "drain_events (Suc n) [] = ([], True)"
| "drain_events (Suc n) ((p, ok) # ds) =
     (if ok then let (es, b) = drain_events n ds in (forwarded p @ es, b) else (forwarded p, False))"

definition timer_event :: "u8 \<Rightarrow> nanoseconds \<Rightarrow> 'u event" where
  "timer_event self t = (\<lparr>source = self, receive_time = t, origin_create_time = t\<rparr>, Timer t)"

primrec loop_events :: "u8 \<Rightarrow> nanoseconds \<Rightarrow> 'u s1_round list \<Rightarrow> 'u event list \<times> bool" where
  "loop_events self next [] = ([], True)"
| "loop_events self next (r # rs) =
     (let due = next < sr_now r; (es, ok) = drain_events S1_DISPATCH_THIS_MANY (sr_dispatches r);
          es' = (if due then [timer_event self (sr_now r)] else []) @ es
      in if ok then let (fs, b) = loop_events self (if due then sr_now r + S1_TIMER_FREQUENCY else next) rs in (es' @ fs, b)
         else (es', False))"

text \<open>The times of the timers in a stream of events.\<close>

definition timer_times :: "'u event list \<Rightarrow> nanoseconds list" where
  "timer_times es = [t. (info, Timer t) \<leftarrow> es]"

lemma handle_bridge:
  assumes "S1_Controller_handle B c x = Inr c'"
  shows "run B (ct_bridge c) (forwarded (Some x)) = Inr (ct_bridge c')" "ct_next_timer c' = ct_next_timer c"
  using assms by (cases x; auto simp: forwarded_def S1_bridge_def bind_result_eq_Inr split: if_splits)+

lemma S1_drain_events:
  assumes "S1_drain B n c ds = Inr (ok, c')"
  shows "run B (ct_bridge c) (fst (drain_events n ds)) = Inr (ct_bridge c') \<and> snd (drain_events n ds) = ok \<and>
    ct_next_timer c' = ct_next_timer c"
  using assms
proof (induction B n c ds rule: S1_drain.induct)
  case (3 B n c p ok1 ds)
  then obtain c1 where c1: "(case p of None \<Rightarrow> Inr c | Some x \<Rightarrow> S1_Controller_handle B c x) = Inr c1"
      "(if ok1 then S1_drain B n c1 ds else Inr (False, c1)) = Inr (ok, c')"
    by (auto simp: bind_result_eq_Inr)
  have b: "run B (ct_bridge c) (forwarded p) = Inr (ct_bridge c1)" "ct_next_timer c1 = ct_next_timer c"
    using c1(1) handle_bridge by (auto simp: forwarded_def split: option.splits)
  show ?case
    using 3(1) [of c1] c1 b by (auto simp: run_append Let_def split: if_splits prod.splits)
qed simp_all


lemma S1_round_events:
  assumes "S1_round self B c r = Inr (ok, c')"
  shows "run B (ct_bridge c) ((if ct_next_timer c < sr_now r then [timer_event self (sr_now r)] else []) @
      fst (drain_events S1_DISPATCH_THIS_MANY (sr_dispatches r))) = Inr (ct_bridge c') \<and>
    snd (drain_events S1_DISPATCH_THIS_MANY (sr_dispatches r)) = ok \<and>
    ct_next_timer c' = (if ct_next_timer c < sr_now r then sr_now r + S1_TIMER_FREQUENCY else ct_next_timer c)"
  using assms
  by (auto simp: S1_round_def S1_refresh_def S1_bridge_def timer_event_def bind_result_eq_Inr Let_def split: if_splits
      dest!: S1_drain_events)

lemma S1_loop_events:
  assumes "S1_loop self B c rs = Inr (ok, c')"
  shows "run B (ct_bridge c) (fst (loop_events self (ct_next_timer c) rs)) = Inr (ct_bridge c') \<and>
    snd (loop_events self (ct_next_timer c) rs) = ok"
  using assms
proof (induction rs arbitrary: c)
  case (Cons r rs)
  then obtain ok1 c1 where c1: "S1_round self B c r = Inr (ok1, c1)"
      "(if ok1 then S1_loop self B c1 rs else Inr (False, c1)) = Inr (ok, c')"
    by (auto simp: bind_result_eq_Inr)
  note round = S1_round_events [OF c1(1)]
  show ?case
  proof (cases ok1)
    case True
    then have "S1_loop self B c1 rs = Inr (ok, c')" using c1(2) by simp
    note rest = Cons.IH [OF this]
    define pre where "pre = (if ct_next_timer c < sr_now r then [timer_event self (sr_now r)] else []) @
      fst (drain_events S1_DISPATCH_THIS_MANY (sr_dispatches r))"
    have "loop_events self (ct_next_timer c) (r # rs) =
        (pre @ fst (loop_events self (ct_next_timer c1) rs), snd (loop_events self (ct_next_timer c1) rs))"
      using round True by (simp add: pre_def Let_def case_prod_beta)
    then show ?thesis using round rest unfolding pre_def [symmetric] by (simp add: run_append)
  next
    case False
    then show ?thesis using c1(2) round by (simp add: Let_def case_prod_beta del: run.simps)
  qed
qed simp

section \<open>Timers\<close>

lemma timer_times_simps [simp]:
  "timer_times [] = []" "timer_times (es @ fs) = timer_times es @ timer_times fs" "timer_times [timer_event self t] = [t]"
  by (simp_all add: timer_times_def timer_event_def)

lemma drain_events_handled: "e \<in> set (fst (drain_events n ds)) \<Longrightarrow> S1_Controller_handles (snd e)"
  by (induction n ds rule: drain_events.induct)
    (auto simp: forwarded_def Let_def split: option.splits s1_poll.splits if_splits prod.splits)

lemma no_timers:
  assumes "\<And>e. e \<in> set es \<Longrightarrow> S1_Controller_handles (snd e)"
  shows "timer_times es = []"
  using assms by (induction es) (auto simp: timer_times_def split: message.splits, force)

lemma drain_no_timers [simp]: "timer_times (fst (drain_events n ds)) = []"
  by (rule no_timers) (rule drain_events_handled)

lemma loop_timers:
  "sorted_wrt (\<lambda>a b. a + S1_TIMER_FREQUENCY < b) (timer_times (fst (loop_events self next rs))) \<and>
     (\<forall>t \<in> set (timer_times (fst (loop_events self next rs))). next < t)"
proof (induction rs arbitrary: "next")
  case (Cons r rs)
  note IH = Cons.IH [of "if next < sr_now r then sr_now r + S1_TIMER_FREQUENCY else next"]
  have "0 < S1_TIMER_FREQUENCY" by (simp add: S1_TIMER_FREQUENCY_def)
  then show ?case using IH by (auto simp: Let_def case_prod_beta split: if_splits dest!: bspec)
qed simp

lemma loop_timers_due:
  assumes "snd (loop_events self next rs)" "r \<in> set rs" "next < sr_now r"
  shows "\<exists>t \<in> set (timer_times (fst (loop_events self next rs))). sr_now r \<le> t + S1_TIMER_FREQUENCY"
  using assms
proof (induction rs arbitrary: "next")
  case (Cons r1 rs)
  define next1 where "next1 = (if next < sr_now r1 then sr_now r1 + S1_TIMER_FREQUENCY else next)"
  have ok: "snd (drain_events S1_DISPATCH_THIS_MANY (sr_dispatches r1))" "snd (loop_events self next1 rs)"
    using Cons.prems(1) by (auto simp: next1_def Let_def case_prod_beta split: if_splits)
  have sub: "set (timer_times (fst (loop_events self next (r1 # rs)))) =
      (if next < sr_now r1 then {sr_now r1} else {}) \<union> set (timer_times (fst (loop_events self next1 rs)))"
    using ok(1) by (simp add: next1_def Let_def case_prod_beta)
  have F: "0 < S1_TIMER_FREQUENCY" by (simp add: S1_TIMER_FREQUENCY_def)
  show ?case
  proof (cases "r \<in> set rs \<and> next1 < sr_now r")
    case True
    then show ?thesis using Cons.IH [OF ok(2)] unfolding sub by blast
  next
    case False
    then have "next < sr_now r1 \<and> sr_now r \<le> sr_now r1 + S1_TIMER_FREQUENCY"
      using Cons.prems(2,3) F by (auto simp: next1_def split: if_splits)
    then show ?thesis unfolding sub by simp
  qed
qed simp

section \<open>Properties\<close>

text \<open>
  C40: The dispatch loop of strategy 1 is a run of the bridge over a stream of events that only
  depends on the clock and on what the poller delivers: the messages it has handlers for, in
  their order, and timers. Two timers are always more than a tenth of a second apart, and while
  the loop is running no reading of the clock is more than a tenth of a second after the last
  timer.
\<close>

theorem S1_Controller_stream:
  assumes "S1_dispatch self B (S1_Controller_new b) rs = Inr (ok, c)"
  shows "run B b (fst (loop_events self 0 rs)) = Inr (ct_bridge c) \<and> snd (loop_events self 0 rs) = ok \<and>
    sorted_wrt (\<lambda>s t. s + milliseconds 100 < t) (timer_times (fst (loop_events self 0 rs))) \<and>
    (ok \<longrightarrow> (\<forall>r \<in> set rs. 0 < sr_now r \<longrightarrow>
      (\<exists>t \<in> set (timer_times (fst (loop_events self 0 rs))). sr_now r \<le> t + milliseconds 100)))"
proof (intro conjI impI ballI)
  have loop: "S1_loop self B (S1_Controller_new b\<lparr>ct_started := True\<rparr>) rs = Inr (ok, c)"
    using assms by (simp add: S1_dispatch_def)
  from S1_loop_events [OF this]
  show "run B b (fst (loop_events self 0 rs)) = Inr (ct_bridge c)" and ok: "snd (loop_events self 0 rs) = ok"
    by (simp_all add: S1_Controller_new_def)
  show "sorted_wrt (\<lambda>s t. s + milliseconds 100 < t) (timer_times (fst (loop_events self 0 rs)))"
    using loop_timers [of self 0 rs] by (simp add: S1_TIMER_FREQUENCY_def)
  show "\<exists>t \<in> set (timer_times (fst (loop_events self 0 rs))). sr_now r \<le> t + milliseconds 100"
    if "ok" "r \<in> set rs" "0 < sr_now r" for r
    using loop_timers_due [of self 0 rs r] ok that by (simp add: S1_TIMER_FREQUENCY_def)
qed

text \<open>A bridge that keeps the events, and three rounds; the last one ends the loop.\<close>

definition keep_events :: "unit event list \<Rightarrow> unit event \<Rightarrow> unit event list result" where
  "keep_events b e = Inr (b @ [e])"

definition s1_demo_message :: "unit message \<Rightarrow> unit s1_poll option" where
  "s1_demo_message m = Some (S1_Message (\<lparr>source = 0, receive_time = 1, origin_create_time = 1\<rparr>, m))"

definition s1_demo_rounds :: "unit s1_round list" where
  "s1_demo_rounds =
     [\<lparr>sr_now = seconds 1, sr_dispatches = [(s1_demo_message Connected, True), (None, True)]\<rparr>,
      \<lparr>sr_now = seconds 1 + milliseconds 100, sr_dispatches = [(s1_demo_message GatewaySettings, True)]\<rparr>,
      \<lparr>sr_now = seconds 2, sr_dispatches = [(s1_demo_message Ready, True)]\<rparr>]"

lemmas s1_controller_eval = keep_events_def s1_demo_message_def s1_demo_rounds_def S1_dispatch_def S1_round_def
  S1_refresh_def S1_bridge_def S1_DISPATCH_THIS_MANY_def S1_TIMER_FREQUENCY_def S1_YIELD_FREQUENCY_def
  S1_Controller_new_def forwarded_def timer_event_def timer_times_def Let_def

theorem S1_Controller_stream_witness:
  "\<exists>c. S1_dispatch 255 keep_events (S1_Controller_new []) s1_demo_rounds = Inr (True, c) \<and>
     map snd (ct_bridge c) = [Timer (seconds 1), Connected, Timer (seconds 2), Ready] \<and>
     sorted_wrt (\<lambda>s t. s + milliseconds 100 < t) (timer_times (fst (loop_events 255 0 s1_demo_rounds)))"
proof -
  obtain c where c: "S1_dispatch 255 keep_events (S1_Controller_new []) s1_demo_rounds = Inr (True, c)"
      "map snd (ct_bridge c) = [Timer (seconds 1), Connected, Timer (seconds 2), Ready]"
    by (simp add: s1_controller_eval eval_nat_numeral)
  show ?thesis using c S1_Controller_stream [OF c(1)] by (intro exI [of _ c] conjI) simp_all
qed

end
