(* ===== verification/Web_Controllers.thy ===== *)
theory Web_Controllers
  imports Web_Session
begin

text \<open>
  The controllers of the io-context and rest samples (\<open>io-context/controller.*\<close>,
  \<open>rest/controller.*\<close>). The first publishes top of book updates by UDP, filtered by the
  symbols its web sessions subscribed to, and owns the sessions; the network events that
  \<open>io::Context::drain\<close> delivers are part of a timer event. The second polls a REST service.
  The network objects are parameters of the events: the size of the send buffer the sender
  offers, whether the client is connected and what it does with a request.
  Shown: session ids are not reused and disconnected sessions are removed; only subscribed
  symbols are published; requests are more than five seconds apart.
\<close>

section \<open>The io-context controller\<close>

text \<open>
  The last three fields record what the controller did: the calls on the servers of its
  sessions, the messages it published and the session events it handled, oldest first.
\<close>

record io_controller =
  ic_sessions :: "u64 set"
  ic_next_garbage_collection :: nanoseconds
  ic_next_session_id :: u64
  ic_shared :: web_shared
  ic_actions :: "(u64 \<times> server_action) list"
  ic_published :: "string list"
  ic_handled :: "session_event list"

record 'j io_settings =
  is_filter_symbols :: bool
  is_json :: "'j json_ops"
  is_sizeof_string :: nat
  is_render :: "top_of_book \<Rightarrow> string"

text \<open>
  \<open>Sender_Error\<close> and \<open>Sender_Write\<close> come from the UDP sender, \<open>Accept\<close> from the listener,
  the rest from the session of that id (with what the server does with its reply).
\<close>

datatype net_event =
    Sender_Error
  | Sender_Write
  | Accept
  | Session_event u64 bool session_event

text \<open>A top of book comes with the buffer the sender offers, \<open>None\<close> when it offers none.\<close>

datatype io_event =
    IO_Timer nanoseconds "net_event list"
  | IO_TopOfBook top_of_book "nat option"

definition io_controller_new :: io_controller where
  "io_controller_new = \<lparr>ic_sessions = {}, ic_next_garbage_collection = 0, ic_next_session_id = 0,
     ic_shared = \<lparr>sessions_to_remove = {}, symbols = {}\<rparr>, ic_actions = [], ic_published = [], ic_handled = []\<rparr>"

definition io_accept :: "io_controller \<Rightarrow> io_controller" where
  "io_accept c = (let session_id = ic_next_session_id c + 1 in
     c\<lparr>ic_next_session_id := session_id, ic_sessions := insert session_id (ic_sessions c)\<rparr>)"

text \<open>A session that was erased is destroyed with its server: it has no events.\<close>

fun io_net :: "'j io_settings \<Rightarrow> io_controller \<Rightarrow> net_event \<Rightarrow> io_controller result" where
  "io_net S c Sender_Error = Inl Fatal"
| "io_net S c Sender_Write = Inr c"
| "io_net S c Accept = Inr (io_accept c)"
| "io_net S c (Session_event session_id sent ev) =
     (if session_id \<in> ic_sessions c then
        (let (as, sh) = Session_handle (is_json S) (is_sizeof_string S) session_id sent ev (ic_shared c)
         in Inr (c\<lparr>ic_shared := sh, ic_actions := ic_actions c @ map (Pair session_id) as,
                  ic_handled := ic_handled c @ [ev]\<rparr>))
      else Inr c)"

definition remove_zombies :: "nanoseconds \<Rightarrow> io_controller \<Rightarrow> io_controller" where
  "remove_zombies now c =
     (if now < ic_next_garbage_collection c then c
      else c\<lparr>ic_next_garbage_collection := now + seconds 1,
             ic_sessions := ic_sessions c - sessions_to_remove (ic_shared c),
             ic_shared := (ic_shared c)\<lparr>sessions_to_remove := {}\<rparr>\<rparr>)"

definition io_send :: "nat option \<Rightarrow> string \<Rightarrow> io_controller \<Rightarrow> io_controller result" where
  "io_send buffer message c =
     (case buffer of
        None \<Rightarrow> Inr c
      | Some room \<Rightarrow> if room < length message then Inl Fatal
                     else Inr (c\<lparr>ic_published := ic_published c @ [message]\<rparr>))"

fun io_step :: "'j io_settings \<Rightarrow> io_controller \<Rightarrow> io_event \<Rightarrow> io_controller result" where
  "io_step S c (IO_Timer now drained) =
     bind_result (run (io_net S) c drained) (\<lambda>c. Inr (remove_zombies now c))"
| "io_step S c (IO_TopOfBook t buffer) =
     (if is_filter_symbols S \<and> tob_symbol t \<notin> symbols (ic_shared c) then Inr c
      else io_send buffer (is_render S t @ [CHR 0x0A]) c)"

section \<open>The rest controller\<close>

definition REQUEST_TIMEOUT :: nanoseconds where
  "REQUEST_TIMEOUT = seconds 5"

definition PING_FREQ :: nanoseconds where
  "PING_FREQ = seconds 10"

definition BUFFER_SIZE :: nat where
  "BUFFER_SIZE = 1048576"

definition REST_PATH :: string where
  "REST_PATH = ''/api/v3/avgPrice''"

definition REQUEST_FREQ :: nanoseconds where
  "REQUEST_FREQ = seconds 5"

record rest_settings =
  rs_symbol :: string
  rs_rest_uri :: string
  rs_rest_ping_path :: string

text \<open>The configuration of the client, without the fields left at their default.\<close>

record rest_client_config =
  rc_uri :: string
  rc_connection :: http_connection
  rc_allow_pipelining :: bool
  rc_request_timeout :: nanoseconds
  rc_suspend_on_retry_after :: bool
  rc_user_agent :: string
  rc_ping_frequency :: nanoseconds
  rc_ping_path :: string
  rc_decode_buffer_size :: nat
  rc_encode_buffer_size :: nat

definition create_client :: "rest_settings \<Rightarrow> rest_client_config" where
  "create_client settings = \<lparr>
     rc_uri = rs_rest_uri settings, rc_connection = KEEP_ALIVE, rc_allow_pipelining = True,
     rc_request_timeout = REQUEST_TIMEOUT, rc_suspend_on_retry_after = True, rc_user_agent = ''roq_samples'',
     rc_ping_frequency = PING_FREQ, rc_ping_path = rs_rest_ping_path settings,
     rc_decode_buffer_size = BUFFER_SIZE, rc_encode_buffer_size = BUFFER_SIZE\<rparr>"

datatype rest_state = REST_CONNECTED | REST_DISCONNECTED

text \<open>What the client was told to do, with the time for a request.\<close>

datatype rest_call = Client_start | Client_stop | Client_get nanoseconds string

record rest_controller =
  rest_client :: rest_client_config
  rest_state :: rest_state
  rest_next_request_time :: nanoseconds
  rest_calls :: "rest_call list"

definition rest_controller_new :: "rest_settings \<Rightarrow> rest_controller" where
  "rest_controller_new settings = \<lparr>rest_client = create_client settings, rest_state = REST_CONNECTED,
     rest_next_request_time = 0, rest_calls = []\<rparr>"

text \<open>
  The events of the client handler and of the REST client. A timer has the creation time of
  the message, what the client delivered while the context was drained, whether
  \<open>Client::refresh\<close> reports a usable connection, and what the client throws when it is handed
  a request. A response is only logged.
\<close>

datatype rest_client_event = R_Connected | R_Disconnected | R_Latency | R_Response

datatype rest_event =
    R_Start
  | R_Stop
  | R_TopOfBook
  | R_Timer nanoseconds "rest_client_event list" bool "exn option"

fun rest_on_client :: "rest_controller \<Rightarrow> rest_client_event \<Rightarrow> rest_controller" where
  "rest_on_client c R_Connected = c\<lparr>rest_state := REST_CONNECTED\<rparr>"
| "rest_on_client c R_Disconnected = c\<lparr>rest_state := REST_DISCONNECTED\<rparr>"
| "rest_on_client c R_Latency = c"
| "rest_on_client c R_Response = c"

definition try_request :: "rest_settings \<Rightarrow> nanoseconds \<Rightarrow> exn option \<Rightarrow> rest_controller \<Rightarrow> rest_controller result" where
  "try_request settings now thrown c =
     (case thrown of
        Some x \<Rightarrow> Inl (Raised x)
      | None \<Rightarrow> Inr (c\<lparr>rest_calls := rest_calls c @ [Client_get now (REST_PATH @ ''?symbol='' @ rs_symbol settings)]\<rparr>))"

fun rest_step :: "rest_settings \<Rightarrow> rest_controller \<Rightarrow> rest_event \<Rightarrow> rest_controller result" where
  "rest_step settings c R_Start = Inr (c\<lparr>rest_calls := rest_calls c @ [Client_start]\<rparr>)"
| "rest_step settings c R_Stop = Inr (c\<lparr>rest_calls := rest_calls c @ [Client_stop]\<rparr>)"
| "rest_step settings c R_TopOfBook = Inr c"
| "rest_step settings c (R_Timer now drained usable thrown) =
     (let c1 = foldl rest_on_client c drained in
      if usable \<and> rest_next_request_time c1 < now
      then try_request settings now thrown (c1\<lparr>rest_next_request_time := now + REQUEST_FREQ\<rparr>)
      else Inr c1)"

section \<open>Subscriptions\<close>

text \<open>The symbols a list of handled session events leaves subscribed.\<close>

definition subscribed :: "'j io_settings \<Rightarrow> session_event list \<Rightarrow> string set" where
  "subscribed S evs =
     {s. \<exists>pre ev post. evs = pre @ ev # post \<and> asks_for (is_json S) (is_sizeof_string S) ev s \<and>
        (\<forall>e \<in> set post. \<not> drops (is_json S) (is_sizeof_string S) e s)}"

lemma asks_not_drops: "asks_for J n ev s \<Longrightarrow> \<not> drops J n ev s"
  by (auto simp: asks_for_def drops_def requested_def)

lemma subscribed_Nil [simp]: "subscribed S [] = {}"
  by (simp add: subscribed_def)

lemma subscribed_snoc:
  "subscribed S (evs @ [ev]) =
     (subscribed S evs \<union> {s. asks_for (is_json S) (is_sizeof_string S) ev s}) -
     {s. drops (is_json S) (is_sizeof_string S) ev s}" (is "?L = ?R")
proof (intro set_eqI iffI)
  fix s
  assume "s \<in> ?L"
  then obtain pre e post where split: "evs @ [ev] = pre @ e # post"
      and e: "asks_for (is_json S) (is_sizeof_string S) e s" "\<forall>x \<in> set post. \<not> drops (is_json S) (is_sizeof_string S) x s"
    by (auto simp: subscribed_def)
  show "s \<in> ?R"
  proof (cases post rule: rev_cases)
    case Nil
    then show ?thesis using split e asks_not_drops by auto
  next
    case (snoc ys y)
    then have "evs = pre @ e # ys" "y = ev" using split by simp_all
    then have "s \<in> subscribed S evs" using e snoc by (auto simp: subscribed_def)
    then show ?thesis using e snoc \<open>y = ev\<close> by simp
  qed
next
  fix s
  assume R: "s \<in> ?R"
  show "s \<in> ?L"
  proof (cases "s \<in> subscribed S evs")
    case True
    then obtain pre e post where "evs = pre @ e # post" "asks_for (is_json S) (is_sizeof_string S) e s"
        "\<forall>x \<in> set post. \<not> drops (is_json S) (is_sizeof_string S) x s"
      by (auto simp: subscribed_def)
    then show ?thesis
      using R unfolding subscribed_def by (intro CollectI exI [of _ pre] exI [of _ e] exI [of _ "post @ [ev]"]) auto
  next
    case False
    then show ?thesis using R unfolding subscribed_def by (intro CollectI exI [of _ evs] exI [of _ ev] exI [of _ "[]"]) auto
  qed
qed

definition io_inv :: "'j io_settings \<Rightarrow> io_controller \<Rightarrow> bool" where
  "io_inv S c \<longleftrightarrow> symbols (ic_shared c) = subscribed S (ic_handled c)"

lemma io_net_inv: "io_inv S c \<Longrightarrow> io_net S c ev = Inr c' \<Longrightarrow> io_inv S c'"
proof (cases ev)
  case (Session_event i sent e)
  assume "io_inv S c" "io_net S c ev = Inr c'"
  then show ?thesis
    using Session_event
    by (cases "Session_handle (is_json S) (is_sizeof_string S) i sent e (ic_shared c)")
      (auto simp: io_inv_def subscribed_snoc Session_handle_symbols split: if_splits)
qed (auto simp: io_inv_def io_accept_def Let_def)

lemma io_step_inv: "io_inv S c \<Longrightarrow> io_step S c ev = Inr c' \<Longrightarrow> io_inv S c'"
proof (cases ev)
  case (IO_Timer now drained)
  assume inv: "io_inv S c" and "io_step S c ev = Inr c'"
  then obtain c1 where c1: "run (io_net S) c drained = Inr c1" "c' = remove_zombies now c1"
    using IO_Timer by (auto simp: bind_result_eq_Inr)
  have "io_inv S c1" by (rule run_preserves [OF c1(1)]) (use inv io_net_inv in blast)+
  then show ?thesis by (simp add: c1(2) io_inv_def remove_zombies_def)
next
  case (IO_TopOfBook t buffer)
  assume "io_inv S c" "io_step S c ev = Inr c'"
  then show ?thesis using IO_TopOfBook by (auto simp: io_inv_def io_send_def split: if_splits option.splits)
qed

interpretation io_machine: event_machine "io_step S" "io_inv S" for S
  by unfold_locales (rule io_step_inv)

section \<open>Sessions\<close>

text \<open>The connections accepted during an event.\<close>

definition net_accepts :: "net_event \<Rightarrow> nat" where
  "net_accepts ev = (if ev = Accept then 1 else 0)"

definition io_accepts :: "io_event \<Rightarrow> nat" where
  "io_accepts e = (case e of IO_Timer now drained \<Rightarrow> \<Sum>ev \<leftarrow> drained. net_accepts ev | IO_TopOfBook t b \<Rightarrow> 0)"

definition io_count :: "io_controller \<Rightarrow> nat" where
  "io_count c = unat (ic_next_session_id c)"

text \<open>Session ids are given by the counter, and a session that is gone (or leaves with the
  garbage collection at \<open>due\<close>) does not come back.\<close>

definition io_ids :: "io_controller \<Rightarrow> bool" where
  "io_ids c \<longleftrightarrow> (\<forall>i \<in> ic_sessions c \<union> sessions_to_remove (ic_shared c). i \<le> ic_next_session_id c)"

definition gone :: "u64 \<Rightarrow> io_controller \<Rightarrow> bool" where
  "gone i c \<longleftrightarrow> i \<le> ic_next_session_id c \<and> i \<notin> ic_sessions c"

definition leaving :: "u64 \<Rightarrow> nanoseconds \<Rightarrow> io_controller \<Rightarrow> bool" where
  "leaving i due c \<longleftrightarrow> gone i c \<or>
     i \<le> ic_next_session_id c \<and> i \<in> sessions_to_remove (ic_shared c) \<and> ic_next_garbage_collection c = due"

lemmas io_session_defs = io_ids_def gone_def leaving_def

lemma io_accept_count:
  assumes "io_count c + 1 < 2 ^ 64"
  shows "io_count (io_accept c) = io_count c + 1"
    and "i \<le> ic_next_session_id c \<Longrightarrow> i < ic_next_session_id c + 1"
proof -
  have *: "unat (ic_next_session_id c + 1) = unat (ic_next_session_id c) + 1"
    using assms by (simp add: io_count_def unat_word_ariths)
  then show "io_count (io_accept c) = io_count c + 1" by (simp add: io_count_def io_accept_def Let_def)
  show "i < ic_next_session_id c + 1" if "i \<le> ic_next_session_id c"
    using that * by (simp add: word_le_nat_alt word_less_nat_alt)
qed

text \<open>A property of the controller that accepting and session events keep is kept while the
  context is drained, and then by the timer.\<close>

lemma io_net_keeps:
  assumes "io_net S c ev = Inr c'" "io_count c + net_accepts ev < 2 ^ 64"
  shows "io_count c' = io_count c + net_accepts ev"
    and "io_ids c \<Longrightarrow> io_ids c'" and "gone i c \<Longrightarrow> gone i c'" and "leaving i due c \<Longrightarrow> leaving i due c'"
proof -
  have "io_count c' = io_count c + net_accepts ev \<and> (io_ids c \<longrightarrow> io_ids c') \<and> (gone i c \<longrightarrow> gone i c') \<and>
      (leaving i due c \<longrightarrow> leaving i due c')"
  proof (cases ev)
    case Accept
    then have room: "io_count c + 1 < 2 ^ 64" using assms(2) by (simp add: net_accepts_def)
    have c': "c' = io_accept c" using assms(1) Accept by simp
    have up: "j < ic_next_session_id c + 1" if "j \<le> ic_next_session_id c" for j
      using io_accept_count(2) [OF room that] .
    show ?thesis
      using io_accept_count(1) [OF room] up Accept
      by (auto simp: c' io_session_defs io_accept_def Let_def net_accepts_def dest!: up intro: less_imp_le)
  next
    case (Session_event k sent e)
    then show ?thesis
      using assms
      by (cases "Session_handle (is_json S) (is_sizeof_string S) k sent e (ic_shared c)")
        (auto simp: io_session_defs io_count_def net_accepts_def Session_handle_removals split: if_splits)
  qed (use assms in \<open>auto simp: net_accepts_def\<close>)
  then show "io_count c' = io_count c + net_accepts ev"
    and "io_ids c \<Longrightarrow> io_ids c'" and "gone i c \<Longrightarrow> gone i c'" and "leaving i due c \<Longrightarrow> leaving i due c'"
    by blast+
qed

lemma io_step_keeps:
  assumes "io_step S c ev = Inr c'" "io_count c + io_accepts ev < 2 ^ 64"
  shows "io_count c' = io_count c + io_accepts ev"
    and "io_ids c \<Longrightarrow> io_ids c'" and "gone i c \<Longrightarrow> gone i c'" and "leaving i due c \<Longrightarrow> leaving i due c'"
    and "leaving i due c \<Longrightarrow> ev = IO_Timer now drained \<Longrightarrow> due \<le> now \<Longrightarrow> gone i c'"
proof -
  have "io_count c' = io_count c + io_accepts ev \<and> (io_ids c \<longrightarrow> io_ids c') \<and> (gone i c \<longrightarrow> gone i c') \<and>
      (leaving i due c \<longrightarrow> leaving i due c' \<and> (ev = IO_Timer now drained \<longrightarrow> due \<le> now \<longrightarrow> gone i c'))"
  proof (cases ev)
    case (IO_Timer now' drained')
    then obtain c1 where c1: "run (io_net S) c drained' = Inr c1" and c': "c' = remove_zombies now' c1"
      using assms(1) by (auto simp: bind_result_eq_Inr)
    have room: "io_count c + (\<Sum>ev \<leftarrow> drained'. net_accepts ev) < 2 ^ 64"
      using assms(2) IO_Timer by (simp add: io_accepts_def)
    note kept = run_counted [where cnt = io_count and w = net_accepts and bound = "2 ^ 64", OF c1 _ room]
    have "io_count c1 = io_count c + io_accepts ev"
      using kept [where P = "\<lambda>_. True"] io_net_keeps(1) unfolding IO_Timer io_accepts_def by simp blast
    moreover have "io_ids c \<longrightarrow> io_ids c1" using kept [where P = io_ids] io_net_keeps(1,2) by blast
    moreover have "gone i c \<longrightarrow> gone i c1" using kept [where P = "gone i"] io_net_keeps(1,3) by blast
    moreover have "leaving i due c \<longrightarrow> leaving i due c1" using kept [where P = "leaving i due"] io_net_keeps(1,4) by blast
    ultimately show ?thesis
      using IO_Timer by (auto simp: c' remove_zombies_def io_session_defs io_count_def)
  next
    case (IO_TopOfBook t buffer)
    then show ?thesis
      using assms by (auto simp: io_session_defs io_send_def io_accepts_def io_count_def split: if_splits option.splits)
  qed
  then show "io_count c' = io_count c + io_accepts ev"
    and "io_ids c \<Longrightarrow> io_ids c'" and "gone i c \<Longrightarrow> gone i c'" and "leaving i due c \<Longrightarrow> leaving i due c'"
    and "leaving i due c \<Longrightarrow> ev = IO_Timer now drained \<Longrightarrow> due \<le> now \<Longrightarrow> gone i c'"
    by blast+
qed

lemma io_run_gone:
  assumes "leaving i due c" "run (io_step S) c es = Inr c'" "io_count c + (\<Sum>e \<leftarrow> es. io_accepts e) < 2 ^ 64"
    and "IO_Timer now drained \<in> set es" "due \<le> now"
  shows "gone i c'"
proof -
  obtain pre post where es: "es = pre @ IO_Timer now drained # post" using assms(4) by (meson split_list)
  obtain c1 c2 where c1: "run (io_step S) c pre = Inr c1" and c2: "io_step S c1 (IO_Timer now drained) = Inr c2"
      and c': "run (io_step S) c2 post = Inr c'"
    using assms(2) unfolding es by (auto simp: run_append_Inr bind_result_eq_Inr)
  note room = assms(3) [unfolded es, simplified]
  have l1: "leaving i due c1 \<and> io_count c1 = io_count c + (\<Sum>e \<leftarrow> pre. io_accepts e)"
    by (rule run_counted [where P = "leaving i due" and cnt = io_count and w = io_accepts and bound = "2 ^ 64", OF c1 assms(1)]) (use room io_step_keeps(1,4) in auto)
  have room1: "io_count c1 + io_accepts (IO_Timer now drained) < 2 ^ 64" using l1 room by simp
  have g2: "gone i c2" "io_count c2 = io_count c1 + io_accepts (IO_Timer now drained)"
    using io_step_keeps(5) [OF c2 room1 _ refl assms(5)] io_step_keeps(1) [OF c2 room1] l1 by blast+
  have "gone i c' \<and> io_count c' = io_count c2 + (\<Sum>e \<leftarrow> post. io_accepts e)"
    by (rule run_counted [where P = "gone i" and cnt = io_count and w = io_accepts and bound = "2 ^ 64", OF c' g2(1)]) (use room l1 g2(2) io_step_keeps(1,3) in auto)
  then show ?thesis by simp
qed

text \<open>A session that is there when its disconnect is delivered leaves with the next garbage collection.\<close>

lemma io_net_due: "io_net S c ev = Inr c' \<Longrightarrow> ic_next_garbage_collection c' = ic_next_garbage_collection c"
  by (cases ev) (auto simp: io_accept_def Let_def split: if_splits prod.splits)

lemma io_nets_keep:
  assumes "run (io_net S) c drained = Inr c'" "io_count c + (\<Sum>ev \<leftarrow> drained. net_accepts ev) < 2 ^ 64"
  shows "io_count c' = io_count c + (\<Sum>ev \<leftarrow> drained. net_accepts ev)"
    and "io_ids c \<Longrightarrow> io_ids c'" and "leaving i due c \<Longrightarrow> leaving i due c'"
    and "ic_next_garbage_collection c' = ic_next_garbage_collection c"
proof -
  note kept = run_counted [where cnt = io_count and w = net_accepts and bound = "2 ^ 64", OF assms(1) _ assms(2)]
  show "io_count c' = io_count c + (\<Sum>ev \<leftarrow> drained. net_accepts ev)"
    using kept [where P = "\<lambda>_. True"] io_net_keeps(1) by blast
  show "io_ids c \<Longrightarrow> io_ids c'" using kept [where P = io_ids] io_net_keeps(1,2) by blast
  show "leaving i due c \<Longrightarrow> leaving i due c'" using kept [where P = "leaving i due"] io_net_keeps(1,4) by blast
  show "ic_next_garbage_collection c' = ic_next_garbage_collection c"
    by (rule run_preserves [OF assms(1), where P = "\<lambda>x. ic_next_garbage_collection x = ic_next_garbage_collection c"])
      (simp_all add: io_net_due)
qed

lemma io_disconnect_leaves:
  assumes "io_ids c" "i \<in> ic_sessions c" "io_net S c (Session_event i sent S_Disconnected) = Inr c'"
  shows "leaving i (ic_next_garbage_collection c') c' \<and> io_count c' = io_count c"
proof -
  obtain as sh where sh: "Session_handle (is_json S) (is_sizeof_string S) i sent S_Disconnected (ic_shared c) = (as, sh)"
    by (cases "Session_handle (is_json S) (is_sizeof_string S) i sent S_Disconnected (ic_shared c)")
  then show ?thesis using assms Session_handle_removals [OF sh] by (auto simp: io_session_defs io_count_def)
qed

lemma io_timer_disconnect:
  assumes "io_ids c0" "run (io_net S) c0 d1 = Inr c1" "i \<in> ic_sessions c1"
    and "io_step S c0 (IO_Timer t (d1 @ Session_event i sent S_Disconnected # d2)) = Inr c"
    and "io_count c0 + io_accepts (IO_Timer t (d1 @ Session_event i sent S_Disconnected # d2)) < 2 ^ 64"
  shows "leaving i (ic_next_garbage_collection c0) c" and "ic_next_garbage_collection c0 \<le> t \<Longrightarrow> gone i c"
proof -
  obtain c2 c3 where c2: "io_net S c1 (Session_event i sent S_Disconnected) = Inr c2"
      and c3: "run (io_net S) c2 d2 = Inr c3" "c = remove_zombies t c3"
    using assms(2,4) by (auto simp: run_append bind_result_eq_Inr simp del: io_net.simps)
  have room: "io_count c0 + (\<Sum>ev \<leftarrow> d1. net_accepts ev) < 2 ^ 64"
      "io_count c0 + (\<Sum>ev \<leftarrow> d1. net_accepts ev) + (\<Sum>ev \<leftarrow> d2. net_accepts ev) < 2 ^ 64"
    using assms(5) by (simp_all add: io_accepts_def)
  note one = io_nets_keep [OF assms(2) room(1)]
  have two: "leaving i (ic_next_garbage_collection c0) c2" "io_count c2 = io_count c0 + (\<Sum>ev \<leftarrow> d1. net_accepts ev)"
    using io_disconnect_leaves [OF one(2) [OF assms(1)] assms(3) c2] one(1,4) io_net_due [OF c2] by simp_all
  have "io_count c2 + (\<Sum>ev \<leftarrow> d2. net_accepts ev) < 2 ^ 64" using two(2) room(2) by simp
  note three = io_nets_keep(3) [OF c3(1) this two(1)]
  then show "leaving i (ic_next_garbage_collection c0) c" and "ic_next_garbage_collection c0 \<le> t \<Longrightarrow> gone i c"
    by (auto simp: c3(2) remove_zombies_def io_session_defs)
qed

section \<open>Requests of the rest controller\<close>

definition request_times :: "rest_call list \<Rightarrow> nanoseconds list" where
  "request_times calls = List.map_filter (\<lambda>x. case x of Client_get t p \<Rightarrow> Some t | _ \<Rightarrow> None) calls"

lemma request_times_snoc [simp]:
  "request_times (calls @ [x]) = request_times calls @ (case x of Client_get t p \<Rightarrow> [t] | _ \<Rightarrow> [])"
  by (cases x) (simp_all add: request_times_def List.map_filter_def)

definition rest_inv :: "rest_controller \<Rightarrow> bool" where
  "rest_inv c \<longleftrightarrow> sorted_wrt (\<lambda>t u. t + REQUEST_FREQ < u) (request_times (rest_calls c)) \<and>
     (\<forall>t \<in> set (request_times (rest_calls c)). t + REQUEST_FREQ \<le> rest_next_request_time c)"

lemma rest_on_client_keeps:
  "rest_calls (foldl rest_on_client c evs) = rest_calls c \<and>
   rest_next_request_time (foldl rest_on_client c evs) = rest_next_request_time c"
proof (induction evs arbitrary: c)
  case (Cons ev evs)
  show ?case by (cases ev) (simp_all add: Cons.IH)
qed simp

lemma rest_step_inv: "rest_inv c \<Longrightarrow> rest_step S c ev = Inr c' \<Longrightarrow> rest_inv c'"
proof (cases ev)
  case (R_Timer now drained usable thrown)
  assume "rest_inv c" "rest_step S c ev = Inr c'"
  then show ?thesis
    using R_Timer rest_on_client_keeps [of c drained]
    by (auto simp: rest_inv_def try_request_def Let_def sorted_wrt_append REQUEST_FREQ_def split: if_splits option.splits) fastforce+
qed (auto simp: rest_inv_def)

interpretation rest_machine: event_machine "rest_step S" rest_inv for S
  by unfold_locales (rule rest_step_inv)

section \<open>Properties\<close>

text \<open>
  C30: What is published. In every run of the io-context controller a top of book is handed to
  the sender exactly when the sender offers a buffer and, if symbols are filtered, some session
  handled a valid subscription to its symbol and no session handled a cancellation of it
  since; a message that does not fit the buffer ends the program.
\<close>

theorem IO_publishes_subscribed:
  assumes "run (io_step S) io_controller_new es = Inr c"
  shows "io_step S c (IO_TopOfBook t buffer) =
    (if is_filter_symbols S \<and> \<not> (\<exists>pre ev post. ic_handled c = pre @ ev # post \<and>
          asks_for (is_json S) (is_sizeof_string S) ev (tob_symbol t) \<and>
          (\<forall>e \<in> set post. \<not> drops (is_json S) (is_sizeof_string S) e (tob_symbol t)))
     then Inr c
     else case buffer of None \<Rightarrow> Inr c
       | Some room \<Rightarrow> if room \<le> length (is_render S t) then Inl Fatal
           else Inr (c\<lparr>ic_published := ic_published c @ [is_render S t @ [CHR 0x0A]]\<rparr>))"
proof -
  have "io_inv S io_controller_new" by (simp add: io_inv_def io_controller_new_def)
  from io_machine.run_inv [OF this assms]
  have "symbols (ic_shared c) = subscribed S (ic_handled c)" by (simp add: io_inv_def)
  then have mem: "(\<exists>pre ev post. ic_handled c = pre @ ev # post \<and>
          asks_for (is_json S) (is_sizeof_string S) ev (tob_symbol t) \<and>
          (\<forall>e \<in> set post. \<not> drops (is_json S) (is_sizeof_string S) e (tob_symbol t))) =
      (tob_symbol t \<in> symbols (ic_shared c))" by (simp add: subscribed_def)
  show ?thesis unfolding mem by (simp add: io_send_def less_Suc_eq_le split: option.splits)
qed

definition demo_io_settings :: "string io_settings" where
  "demo_io_settings = \<lparr>is_filter_symbols = True, is_json = toy_json, is_sizeof_string = 32, is_render = tob_symbol\<rparr>"

definition demo_io_events :: "io_event list" where
  "demo_io_events = [IO_Timer 0 [Accept, Session_event 1 True (S_Text ''+BTC'')]]"

definition demo_tob :: top_of_book where
  "demo_tob = \<lparr>tob_exchange = ''X'', tob_symbol = ''BTC'',
     tob_layer = \<lparr>bid_price = NaN, bid_quantity = NaN, ask_price = NaN, ask_quantity = NaN\<rparr>\<rparr>"

lemmas demo_io_eval = demo_io_settings_def demo_io_events_def demo_tob_def io_controller_new_def io_accept_def
  remove_zombies_def Session_reply_def process_request_def toy_json_def validate_symbol_def Let_def

theorem IO_publishes_subscribed_witness:
  "\<exists>c. run (io_step demo_io_settings) io_controller_new demo_io_events = Inr c \<and>
     io_step demo_io_settings c (IO_TopOfBook demo_tob (Some 100)) = Inr (c\<lparr>ic_published := [''BTC'' @ [CHR 0x0A]]\<rparr>)"
proof -
  obtain c where c: "run (io_step demo_io_settings) io_controller_new demo_io_events = Inr c"
      "ic_handled c = [S_Text ''+BTC'']" "ic_published c = []"
    by (simp add: demo_io_eval)
  have asks: "asks_for (is_json demo_io_settings) (is_sizeof_string demo_io_settings) (S_Text ''+BTC'') (tob_symbol demo_tob)"
    by (simp add: asks_for_def requested_def demo_io_eval)
  have "\<exists>pre ev post. ic_handled c = pre @ ev # post \<and>
      asks_for (is_json demo_io_settings) (is_sizeof_string demo_io_settings) ev (tob_symbol demo_tob) \<and>
      (\<forall>e \<in> set post. \<not> drops (is_json demo_io_settings) (is_sizeof_string demo_io_settings) e (tob_symbol demo_tob))"
    by (rule exI [of _ "[]"], rule exI [of _ "S_Text ''+BTC''"], rule exI [of _ "[]"]) (simp add: c(2) asks)
  then show ?thesis
    using IO_publishes_subscribed [OF c(1), of demo_tob "Some 100"] c
    by (intro exI [of _ c]) (simp add: demo_io_settings_def demo_tob_def)
qed

text \<open>
  C31: Disconnected sessions are removed. When a session that is there disconnects (among the network events that a
  timer drains), it is gone after the first timer, that one or a later one, at which the garbage collection is due, and
  for good: no later session gets its id (unless 2 to the 64 connections are accepted).
\<close>

theorem IO_disconnected_removed:
  assumes "run (io_step S) io_controller_new es = Inr c0"
    and "run (io_net S) c0 d1 = Inr c1" "i \<in> ic_sessions c1"
    and "ev = IO_Timer t (d1 @ Session_event i sent S_Disconnected # d2)"
    and "run (io_step S) c0 (ev # fs) = Inr c'"
    and "IO_Timer now drained \<in> set (ev # fs)" "ic_next_garbage_collection c0 \<le> now"
    and "(\<Sum>e \<leftarrow> es @ ev # fs. io_accepts e) < 2 ^ 64"
  shows "i \<notin> ic_sessions c'"
proof -
  have new: "io_ids io_controller_new" "io_count io_controller_new = 0"
    by (simp_all add: io_ids_def io_count_def io_controller_new_def)
  have ids: "io_ids c0 \<and> io_count c0 = io_count io_controller_new + (\<Sum>e \<leftarrow> es. io_accepts e)"
    by (rule run_counted [where P = io_ids and cnt = io_count and w = io_accepts and bound = "2 ^ 64", OF assms(1) new(1)])
      (use assms(8) new(2) io_step_keeps(1,2) in auto)
  obtain c where c: "io_step S c0 ev = Inr c" and c': "run (io_step S) c fs = Inr c'"
    using assms(5) by (auto simp: bind_result_eq_Inr simp del: io_step.simps)
  have room: "io_count c0 + io_accepts ev < 2 ^ 64" using ids assms(8) new(2) by simp
  have count: "io_count c = io_count c0 + io_accepts ev" using io_step_keeps(1) [OF c room] .
  then have rest: "io_count c + (\<Sum>e \<leftarrow> fs. io_accepts e) < 2 ^ 64" using ids assms(8) new(2) by simp
  note leave = io_timer_disconnect [OF conjunct1 [OF ids] assms(2,3) c [unfolded assms(4)] room [unfolded assms(4)]]
  have "gone i c'"
  proof (cases "IO_Timer now drained \<in> set fs")
    case True
    then show ?thesis using io_run_gone [OF leave(1) c' rest _ assms(7)] by simp
  next
    case False
    then have "gone i c" using assms(4,6,7) leave(2) by simp
    then have "gone i c' \<and> io_count c' = io_count c + (\<Sum>e \<leftarrow> fs. io_accepts e)"
      by (rule run_counted [where P = "gone i" and cnt = io_count and w = io_accepts and bound = "2 ^ 64", OF c'])
        (use rest io_step_keeps(1,3) in auto)
    then show ?thesis by simp
  qed
  then show ?thesis by (simp add: gone_def)
qed

theorem IO_disconnected_removed_witness:
  "\<exists>c c'. run (io_step demo_io_settings) io_controller_new demo_io_events = Inr c \<and> 1 \<in> ic_sessions c \<and>
     run (io_step demo_io_settings) c [IO_Timer 1 [Session_event 1 True S_Disconnected], IO_Timer (seconds 2) [Accept]] = Inr c' \<and>
     1 \<notin> ic_sessions c'"
proof -
  obtain c where c: "run (io_step demo_io_settings) io_controller_new demo_io_events = Inr c"
      "1 \<in> ic_sessions c" "ic_next_garbage_collection c \<le> seconds 2"
    by (simp add: demo_io_eval)
  obtain c' where c': "run (io_step demo_io_settings) c [IO_Timer 1 ([] @ Session_event 1 True S_Disconnected # []),
      IO_Timer (seconds 2) [Accept]] = Inr c'"
    using c(2) by (simp add: Let_def)
  have "1 \<notin> ic_sessions c'"
    by (rule IO_disconnected_removed [OF c(1) _ c(2) refl c' _ c(3)])
      (simp_all add: demo_io_events_def io_accepts_def net_accepts_def)
  then show ?thesis using c c' by (intro exI [of _ c] exI [of _ c']) (simp del: run.simps)
qed

text \<open>
  C32: The rest controller never hammers the service: in every run, whatever the order of its
  events and their timestamps, two requests to the service are more than five seconds apart.
\<close>

theorem Rest_requests_spaced:
  assumes "run (rest_step settings) (rest_controller_new settings) es = Inr c"
  shows "sorted_wrt (\<lambda>t u. t + seconds 5 < u) (request_times (rest_calls c))"
proof -
  have "rest_inv (rest_controller_new settings)"
    by (simp add: rest_inv_def rest_controller_new_def request_times_def List.map_filter_simps)
  from rest_machine.run_inv [OF this assms] show ?thesis by (simp add: rest_inv_def REQUEST_FREQ_def)
qed

definition demo_rest :: rest_settings where
  "demo_rest = \<lparr>rs_symbol = ''BTCUSDT'', rs_rest_uri = ''https://api'', rs_rest_ping_path = ''/ping''\<rparr>"

theorem Rest_requests_spaced_witness:
  "\<exists>c. run (rest_step demo_rest) (rest_controller_new demo_rest)
      [R_Start, R_Timer 1 [R_Connected] True None, R_Timer (seconds 3) [] True None,
       R_Timer (seconds 9) [R_Response] True None] = Inr c \<and>
     request_times (rest_calls c) = [1, seconds 9] \<and>
     sorted_wrt (\<lambda>t u. t + seconds 5 < u) (request_times (rest_calls c))"
proof -
  obtain c where c: "run (rest_step demo_rest) (rest_controller_new demo_rest)
      [R_Start, R_Timer 1 [R_Connected] True None, R_Timer (seconds 3) [] True None,
       R_Timer (seconds 9) [R_Response] True None] = Inr c" "request_times (rest_calls c) = [1, seconds 9]"
    by (simp add: rest_controller_new_def try_request_def REQUEST_FREQ_def request_times_def List.map_filter_simps Let_def)
  then show ?thesis using Rest_requests_spaced [OF c(1)] by blast
qed

end
