(* ===== verification/E2.thy ===== *)
theory E2
  imports E3_Instrument
begin

text \<open>
  Example 2 (\<open>example-2/instrument.*\<close>, \<open>example-2/strategy.*\<close>): two instruments, one per
  gateway, each with its own cache and an exponential moving average of the mid price. The
  market by price cache is the parameter \<open>B\<close>.
  Shown: the strategy is exactly two independent instruments, each seeing the messages of its
  source; when the average moves, and that a disconnect clears it.
\<close>

section \<open>The instrument\<close>

definition E2_MAX_DEPTH :: nat where
  "E2_MAX_DEPTH = 2"

record 'b Instrument2 =
  i2_exchange :: string
  i2_symbol :: string
  i2_alpha :: double
  i2_connected :: bool
  i2_download :: bool
  i2_tick_size :: double
  i2_min_trade_vol :: double
  i2_multiplier :: double
  i2_trading_status :: trading_status
  i2_market_data :: bool
  i2_depth :: "layer list"
  i2_market_by_price :: 'b
  i2_mid_price :: double
  i2_avg_price :: double
  i2_ready :: bool

definition Instrument2_new :: "string \<Rightarrow> string \<Rightarrow> double \<Rightarrow> layer \<Rightarrow> 'b \<Rightarrow> 'b Instrument2" where
  "Instrument2_new exchange symbol alpha layer0 b = \<lparr>
     i2_exchange = exchange, i2_symbol = symbol, i2_alpha = alpha, i2_connected = False, i2_download = False,
     i2_tick_size = NaN, i2_min_trade_vol = NaN, i2_multiplier = NaN,
     i2_trading_status = TradingStatus_UNDEFINED, i2_market_data = False,
     i2_depth = replicate E2_MAX_DEPTH layer0, i2_market_by_price = b,
     i2_mid_price = NaN, i2_avg_price = NaN, i2_ready = False\<rparr>"

definition Instrument2_check_ready :: "'m utils_scheme \<Rightarrow> 'b Instrument2 \<Rightarrow> 'b Instrument2" where
  "Instrument2_check_ready U i = i\<lparr>i2_ready :=
     i2_connected i \<and> \<not> i2_download i \<and> is_greater U (i2_tick_size i) (Fin 0) \<and>
     is_greater U (i2_min_trade_vol i) (Fin 0) \<and> is_greater U (i2_multiplier i) (Fin 0) \<and>
     i2_trading_status i = OPEN \<and> i2_market_data i\<rparr>"

definition Instrument2_reset :: "('b, 'u) book_ops \<Rightarrow> 'b Instrument2 \<Rightarrow> 'b Instrument2" where
  "Instrument2_reset B i = i\<lparr>
     i2_connected := False, i2_download := False, i2_tick_size := NaN, i2_min_trade_vol := NaN,
     i2_trading_status := TradingStatus_UNDEFINED, i2_market_data := False,
     i2_market_by_price := book_clear B (i2_market_by_price i),
     i2_mid_price := NaN, i2_avg_price := NaN, i2_ready := False\<rparr>"

text \<open>The loop over the layers: the sums of price times quantity and of quantity.\<close>

definition depth_sums :: "layer list \<Rightarrow> double \<times> double" where
  "depth_sums depth = foldl (\<lambda>(sum_1, sum_2) l.
     (dadd sum_1 (dadd (dmul (bid_price l) (bid_quantity l)) (dmul (ask_price l) (ask_quantity l))),
      dadd sum_2 (dadd (bid_quantity l) (ask_quantity l)))) (Fin 0, Fin 0) depth"

definition weighted_mid :: "layer list \<Rightarrow> double" where
  "weighted_mid depth = (case depth_sums depth of (sum_1, sum_2) \<Rightarrow> ddiv sum_1 sum_2)"

definition average :: "double \<Rightarrow> double \<Rightarrow> double \<Rightarrow> double" where
  "average alpha mid avg =
     (if isnan avg then mid else dadd (dmul alpha mid) (dmul (dsub (Fin 1) alpha) avg))"

definition Instrument2_update_model :: "'m utils_scheme \<Rightarrow> 'b Instrument2 \<Rightarrow> 'b Instrument2 result" where
  "Instrument2_update_model U i =
     (let l = i2_depth i ! 0 in
      if is_zero U (bid_quantity l) \<or> is_zero U (ask_quantity l) then Inr i
      else let spread = dsub (ask_price l) (bid_price l) in
      if is_less_or_equal U spread (Fin 0) then Inl Fatal
      else let mid = weighted_mid (i2_depth i) in
        Inr (i\<lparr>i2_mid_price := mid, i2_avg_price := average (i2_alpha i) mid (i2_avg_price i)\<rparr>))"

definition Instrument2_on_GatewayStatus :: "'m utils_scheme \<Rightarrow> 'b Instrument2 \<Rightarrow> gateway_status \<Rightarrow> 'b Instrument2" where
  "Instrument2_on_GatewayStatus U i g =
     (if gs_account g \<noteq> [] then i
      else let required = {REFERENCE_DATA, MARKET_STATUS, MARKET_BY_PRICE};
               market_data = (has_all U (available g) required \<and> has_none U (unavailable g) required)
        in Instrument2_check_ready U (i\<lparr>i2_market_data := snd (update_bool U (i2_market_data i) market_data)\<rparr>))"

definition Instrument2_on_MarketByPriceUpdate ::
  "bool \<Rightarrow> 'm utils_scheme \<Rightarrow> ('b, 'u) book_ops \<Rightarrow> 'b Instrument2 \<Rightarrow> 'u book_update \<Rightarrow> 'b Instrument2 result" where
  "Instrument2_on_MarketByPriceUpdate dbg U B i u =
     assert_then dbg (i2_exchange i = bu_exchange u)
     (assert_then dbg (i2_symbol i = bu_symbol u)
     (let book = book_apply B (i2_market_by_price i) u;
          (depth, size) = book_extract B book (i2_depth i);
          i1 = i\<lparr>i2_market_by_price := book, i2_depth := depth\<rparr>
      in if size > 0 \<and> i2_ready i1 then Instrument2_update_model U i1 else Inr i1))"

fun Instrument2_handle ::
  "bool \<Rightarrow> 'm utils_scheme \<Rightarrow> ('b, 'u) book_ops \<Rightarrow> 'b Instrument2 \<Rightarrow> 'u message \<Rightarrow> 'b Instrument2 result" where
  "Instrument2_handle dbg U B i Connected =
     (case update_bool U (i2_connected i) True of (changed, c) \<Rightarrow>
        Inr (if changed then Instrument2_check_ready U (i\<lparr>i2_connected := c\<rparr>) else i\<lparr>i2_connected := c\<rparr>))"
| "Instrument2_handle dbg U B i Disconnected =
     (case update_bool U (i2_connected i) False of (changed, c) \<Rightarrow>
        Inr (if changed then Instrument2_reset B (i\<lparr>i2_connected := c\<rparr>) else i\<lparr>i2_connected := c\<rparr>))"
| "Instrument2_handle dbg U B i (DownloadBegin d) =
     (if db_account d \<noteq> [] then Inr i
      else assert_then dbg (\<not> i2_download i) (Inr (i\<lparr>i2_download := True\<rparr>)))"
| "Instrument2_handle dbg U B i (DownloadEnd d) =
     (if de_account d \<noteq> [] then Inr i
      else assert_then dbg (i2_download i) (Inr (Instrument2_check_ready U (i\<lparr>i2_download := False\<rparr>))))"
| "Instrument2_handle dbg U B i (GatewayStatus g) = Inr (Instrument2_on_GatewayStatus U i g)"
| "Instrument2_handle dbg U B i (ReferenceData r) =
     assert_then dbg (i2_exchange i = rd_exchange r)
     (assert_then dbg (i2_symbol i = rd_symbol r)
     (Inr (Instrument2_check_ready U (i\<lparr>
        i2_tick_size := snd (update_double U (i2_tick_size i) (rd_tick_size r)),
        i2_min_trade_vol := snd (update_double U (i2_min_trade_vol i) (rd_min_trade_vol r)),
        i2_multiplier := snd (update_double U (i2_multiplier i) (rd_multiplier r))\<rparr>))))"
| "Instrument2_handle dbg U B i (MarketStatus m) =
     assert_then dbg (i2_exchange i = ms_exchange m)
     (assert_then dbg (i2_symbol i = ms_symbol m)
     (Inr (Instrument2_check_ready U (i\<lparr>
        i2_trading_status := snd (update_trading_status U (i2_trading_status i) (ms_trading_status m))\<rparr>))))"
| "Instrument2_handle dbg U B i (MarketByPriceUpdate u) = Instrument2_on_MarketByPriceUpdate dbg U B i u"
| "Instrument2_handle dbg U B i _ = Inr i"

section \<open>The strategy\<close>

record 'b Strategy2 =
  e2_futures :: "'b Instrument2"
  e2_cash :: "'b Instrument2"

record e2_settings =
  e2_futures_exchange :: string
  e2_futures_symbol :: string
  e2_cash_exchange :: string
  e2_cash_symbol :: string
  e2_alpha :: double

definition Strategy2_new :: "e2_settings \<Rightarrow> layer \<Rightarrow> 'b \<Rightarrow> 'b \<Rightarrow> 'b Strategy2" where
  "Strategy2_new S layer0 b0 b1 = \<lparr>
     e2_futures = Instrument2_new (e2_futures_exchange S) (e2_futures_symbol S) (e2_alpha S) layer0 b0,
     e2_cash = Instrument2_new (e2_cash_exchange S) (e2_cash_symbol S) (e2_alpha S) layer0 b1\<rparr>"

definition Strategy2_dispatch ::
  "bool \<Rightarrow> 'm utils_scheme \<Rightarrow> ('b, 'u) book_ops \<Rightarrow> 'b Strategy2 \<Rightarrow> 'u event \<Rightarrow> 'b Strategy2 result" where
  "Strategy2_dispatch dbg U B s ev =
     (case ev of (message_info, val) \<Rightarrow>
        if source message_info = 0 then
          bind_result (Instrument2_handle dbg U B (e2_futures s) val) (\<lambda>i. Inr (s\<lparr>e2_futures := i\<rparr>))
        else if source message_info = 1 then
          bind_result (Instrument2_handle dbg U B (e2_cash s) val) (\<lambda>i. Inr (s\<lparr>e2_cash := i\<rparr>))
        else assert_then dbg False (Inr s))"

text \<open>The messages the strategy has a handler for; all of them are dispatched.\<close>

fun Strategy2_handles :: "'u message \<Rightarrow> bool" where
  "Strategy2_handles Connected = True"
| "Strategy2_handles Disconnected = True"
| "Strategy2_handles (DownloadBegin d) = True"
| "Strategy2_handles (DownloadEnd d) = True"
| "Strategy2_handles (GatewayStatus g) = True"
| "Strategy2_handles (ReferenceData r) = True"
| "Strategy2_handles (MarketStatus m) = True"
| "Strategy2_handles (MarketByPriceUpdate u) = True"
| "Strategy2_handles _ = False"

definition Strategy2_step ::
  "bool \<Rightarrow> 'm utils_scheme \<Rightarrow> ('b, 'u) book_ops \<Rightarrow> 'b Strategy2 \<Rightarrow> 'u event \<Rightarrow> 'b Strategy2 result" where
  "Strategy2_step dbg U B s ev =
     (if Strategy2_handles (snd ev) then Strategy2_dispatch dbg U B s ev else Inr s)"

section \<open>Two independent instruments\<close>

definition messages_from :: "u8 \<Rightarrow> 'u event list \<Rightarrow> 'u message list" where
  "messages_from k es = map snd (filter (\<lambda>e. source (fst e) = k) es)"

lemma unhandled: "\<not> Strategy2_handles msg \<Longrightarrow> Instrument2_handle dbg U B i msg = Inr i"
  by (cases msg) simp_all

lemma step_futures:
  "source (fst ev) = 0 \<Longrightarrow> Strategy2_step dbg U B s ev =
     bind_result (Instrument2_handle dbg U B (e2_futures s) (snd ev)) (\<lambda>i. Inr (s\<lparr>e2_futures := i\<rparr>))"
  by (cases ev) (auto simp: Strategy2_step_def Strategy2_dispatch_def unhandled)

lemma step_cash:
  "source (fst ev) = 1 \<Longrightarrow> Strategy2_step dbg U B s ev =
     bind_result (Instrument2_handle dbg U B (e2_cash s) (snd ev)) (\<lambda>i. Inr (s\<lparr>e2_cash := i\<rparr>))"
  by (cases ev) (auto simp: Strategy2_step_def Strategy2_dispatch_def unhandled)

lemma step_other:
  "source (fst ev) \<noteq> 0 \<Longrightarrow> source (fst ev) \<noteq> 1 \<Longrightarrow> Strategy2_step False U B s ev = Inr s"
  by (cases ev) (auto simp: Strategy2_step_def Strategy2_dispatch_def)

lemma messages_from_Cons:
  "messages_from k (e # es) = (if source (fst e) = k then snd e # messages_from k es else messages_from k es)"
  by (simp add: messages_from_def)

lemma messages_from_Nil [simp]: "messages_from k [] = []"
  by (simp add: messages_from_def)

lemma step_known:
  "dbg \<longrightarrow> source (fst ev) = 0 \<or> source (fst ev) = 1 \<Longrightarrow>
   source (fst ev) \<noteq> 0 \<Longrightarrow> source (fst ev) \<noteq> 1 \<Longrightarrow> Strategy2_step dbg U B s ev = Inr s"
  by (cases dbg) (simp_all add: step_other)

section \<open>Properties\<close>

text \<open>
  C34: The strategy of example 2 is two independent instruments. On any list of events whose
  sources are the two gateways (in a release build: on any list), the strategy ends normally
  exactly when each instrument alone ends normally on the messages of its own source, and then
  its two instruments are in exactly those states.
\<close>

theorem Strategy2_two_instruments:
  assumes "\<forall>e \<in> set es. dbg \<longrightarrow> source (fst e) = 0 \<or> source (fst e) = 1"
  shows "run (Strategy2_step dbg U B) s es = Inr s' \<longleftrightarrow>
    run (Instrument2_handle dbg U B) (e2_futures s) (messages_from 0 es) = Inr (e2_futures s') \<and>
    run (Instrument2_handle dbg U B) (e2_cash s) (messages_from 1 es) = Inr (e2_cash s')"
  using assms
proof (induction es arbitrary: s)
  case Nil
  show ?case by (cases s, cases s') auto
next
  case (Cons e es)
  then have IH: "\<And>t. run (Strategy2_step dbg U B) t es = Inr s' \<longleftrightarrow>
    run (Instrument2_handle dbg U B) (e2_futures t) (messages_from 0 es) = Inr (e2_futures s') \<and>
    run (Instrument2_handle dbg U B) (e2_cash t) (messages_from 1 es) = Inr (e2_cash s')" by simp
  consider "source (fst e) = 0" | "source (fst e) = 1" | "source (fst e) \<noteq> 0" "source (fst e) \<noteq> 1" by blast
  then show ?case
  proof cases
    case 1
    then show ?thesis
      by (cases "Instrument2_handle dbg U B (e2_futures s) (snd e)") (simp_all add: step_futures messages_from_Cons IH)
  next
    case 2
    then show ?thesis
      by (cases "Instrument2_handle dbg U B (e2_cash s) (snd e)") (simp_all add: step_cash messages_from_Cons IH)
  next
    case 3
    then have "Strategy2_step dbg U B s e = Inr s" using Cons.prems by (intro step_known) auto
    then show ?thesis using 3 by (simp add: messages_from_Cons IH)
  qed
qed

definition e2_layer :: "rat \<Rightarrow> rat \<Rightarrow> layer" where
  "e2_layer b a = \<lparr>bid_price = Fin b, bid_quantity = Fin 1, ask_price = Fin a, ask_quantity = Fin 1\<rparr>"

definition e2_demo :: "layer option Strategy2" where
  "e2_demo = Strategy2_new \<lparr>e2_futures_exchange = ''F'', e2_futures_symbol = ''X'', e2_cash_exchange = ''C'',
     e2_cash_symbol = ''Y'', e2_alpha = Fin (1 / 2)\<rparr> (e2_layer 0 0) None None"

definition e2_info :: "u8 \<Rightarrow> message_info" where
  "e2_info k = \<lparr>source = k, receive_time = 0, origin_create_time = 0\<rparr>"

definition e2_demo_messages :: "string \<Rightarrow> string \<Rightarrow> layer message list" where
  "e2_demo_messages ex sy = [Connected,
     ReferenceData \<lparr>rd_exchange = ex, rd_symbol = sy, rd_tick_size = Fin 1, rd_min_trade_vol = Fin 1, rd_multiplier = Fin 1\<rparr>,
     MarketStatus \<lparr>ms_exchange = ex, ms_symbol = sy, ms_trading_status = OPEN\<rparr>,
     GatewayStatus \<lparr>gs_account = [], available = {REFERENCE_DATA, MARKET_STATUS, MARKET_BY_PRICE}, unavailable = {}\<rparr>,
     MarketByPriceUpdate \<lparr>bu_exchange = ex, bu_symbol = sy, bu_update_type = SNAPSHOT, bu_content = e2_layer 4 6\<rparr>]"

definition e2_demo_events :: "layer event list" where
  "e2_demo_events = map (Pair (e2_info 0)) (e2_demo_messages ''F'' ''X'') @ [(e2_info 1, Connected)]"

lemmas e2_eval = Instrument2_new_def Instrument2_check_ready_def Instrument2_on_GatewayStatus_def
  Instrument2_on_MarketByPriceUpdate_def Instrument2_update_model_def weighted_mid_def depth_sums_def average_def
  exact_utils_def last_book_def e2_layer_def E2_MAX_DEPTH_def dsub_def numeral_2_eq_2 Let_def

lemma e2_demo_futures:
  "\<exists>i. run (Instrument2_handle True exact_utils last_book) (e2_futures e2_demo) (e2_demo_messages ''F'' ''X'') = Inr i \<and>
     i2_ready i \<and> i2_avg_price i = Fin 5"
  by (simp add: e2_demo_def e2_demo_messages_def Strategy2_new_def e2_eval)

theorem Strategy2_two_instruments_witness:
  "\<exists>s'. run (Strategy2_step True exact_utils last_book) e2_demo e2_demo_events = Inr s' \<and>
     i2_avg_price (e2_futures s') = Fin 5 \<and> i2_connected (e2_cash s')"
proof -
  obtain i where i: "run (Instrument2_handle True exact_utils last_book) (e2_futures e2_demo) (e2_demo_messages ''F'' ''X'') = Inr i"
      "i2_avg_price i = Fin 5"
    using e2_demo_futures by auto
  obtain j where j: "run (Instrument2_handle True exact_utils last_book) (e2_cash e2_demo) [Connected] = Inr j" "i2_connected j"
    by (simp add: e2_demo_def Strategy2_new_def e2_eval)
  have src: "\<forall>e \<in> set e2_demo_events. True \<longrightarrow> source (fst e) = 0 \<or> source (fst e) = 1"
    by (auto simp: e2_demo_events_def e2_info_def)
  have msgs: "messages_from 0 e2_demo_events = e2_demo_messages ''F'' ''X''" "messages_from 1 e2_demo_events = [Connected]"
    by (simp_all add: messages_from_def e2_demo_events_def e2_info_def e2_demo_messages_def)
  show ?thesis
    using Strategy2_two_instruments [OF src, of exact_utils last_book e2_demo "\<lparr>e2_futures = i, e2_cash = j\<rparr>"] i j
    by (intro exI [of _ "\<lparr>e2_futures = i, e2_cash = j\<rparr>"]) (simp add: msgs del: run.simps)
qed

definition Instrument2_inv :: "'m utils_scheme \<Rightarrow> 'b Instrument2 \<Rightarrow> bool" where
  "Instrument2_inv U i \<longleftrightarrow>
     (\<not> i2_connected i \<longrightarrow> \<not> i2_ready i \<and> i2_mid_price i = NaN \<and> i2_avg_price i = NaN) \<and>
     (i2_ready i \<longrightarrow> is_greater U (i2_tick_size i) (Fin 0) \<and> is_greater U (i2_min_trade_vol i) (Fin 0) \<and>
        is_greater U (i2_multiplier i) (Fin 0) \<and> i2_trading_status i = OPEN \<and> i2_market_data i)"

lemma update_model_keeps:
  "Instrument2_update_model U i = Inr i' \<Longrightarrow>
     i2_connected i' = i2_connected i \<and> i2_ready i' = i2_ready i \<and> i2_tick_size i' = i2_tick_size i \<and>
     i2_min_trade_vol i' = i2_min_trade_vol i \<and> i2_multiplier i' = i2_multiplier i \<and>
     i2_trading_status i' = i2_trading_status i \<and> i2_market_data i' = i2_market_data i"
  by (auto simp: Instrument2_update_model_def Let_def split: if_splits)

lemma Instrument2_step_inv:
  assumes U: "updates_ok U" and inv: "Instrument2_inv U i" and step: "Instrument2_handle dbg U B i msg = Inr i'"
  shows "Instrument2_inv U i'"
proof (cases msg)
  case (MarketByPriceUpdate u)
  let ?x = "book_extract B (book_apply B (i2_market_by_price i) u) (i2_depth i)"
  let ?i = "i\<lparr>i2_market_by_price := book_apply B (i2_market_by_price i) u, i2_depth := fst ?x\<rparr>"
  have "i' = ?i \<or> i2_ready i \<and> Instrument2_update_model U ?i = Inr i'"
    using step MarketByPriceUpdate
    by (cases ?x) (auto simp: Instrument2_on_MarketByPriceUpdate_def result_Inr Let_def split: if_splits)
  then show ?thesis using inv update_model_keeps [of U ?i i'] by (auto simp: Instrument2_inv_def)
next
  case (GatewayStatus g)
  then show ?thesis
    using step inv by (auto simp: Instrument2_on_GatewayStatus_def Instrument2_inv_def Instrument2_check_ready_def Let_def split: if_splits)
qed (use step inv in \<open>auto simp: Instrument2_inv_def Instrument2_check_ready_def Instrument2_reset_def
    update_bool_ok [OF U] result_Inr split: if_splits\<close>)

text \<open>
  The average of example 2 is fresh and clean. In every session, while an instrument is not
  connected it is not ready and has no average, and it is only ready with positive reference
  data, an open market and all market data available. The average only changes when a
  disconnect clears it or when a book update of a ready instrument leaves a two-sided top of
  book with a positive spread; then it becomes the mid price or moves towards it.
\<close>

theorem Instrument2_average_sound:
  assumes "updates_ok U"
    and "run (Instrument2_handle dbg U B) (Instrument2_new exchange symbol alpha layer0 b) msgs = Inr i"
  shows "(\<not> i2_connected i \<longrightarrow> \<not> i2_ready i \<and> i2_avg_price i = NaN) \<and>
    (i2_ready i \<longrightarrow> is_greater U (i2_tick_size i) (Fin 0) \<and> is_greater U (i2_multiplier i) (Fin 0) \<and>
       i2_trading_status i = OPEN \<and> i2_market_data i) \<and>
    (\<forall>msg i'. Instrument2_handle dbg U B i msg = Inr i' \<longrightarrow> i2_avg_price i' \<noteq> i2_avg_price i \<longrightarrow>
       msg = Disconnected \<and> i2_avg_price i' = NaN \<or>
       (\<exists>u. msg = MarketByPriceUpdate u \<and> i2_ready i \<and>
          \<not> is_zero U (bid_quantity (i2_depth i' ! 0)) \<and> \<not> is_zero U (ask_quantity (i2_depth i' ! 0)) \<and>
          \<not> is_less_or_equal U (dsub (ask_price (i2_depth i' ! 0)) (bid_price (i2_depth i' ! 0))) (Fin 0) \<and>
          i2_avg_price i' = average (i2_alpha i) (weighted_mid (i2_depth i')) (i2_avg_price i)))"
proof (intro conjI allI impI)
  have new: "Instrument2_inv U (Instrument2_new exchange symbol alpha layer0 b)"
    by (simp add: Instrument2_inv_def Instrument2_new_def)
  have inv: "Instrument2_inv U i"
    by (rule run_preserves [where P = "Instrument2_inv U", OF assms(2) new]) (use Instrument2_step_inv [OF assms(1)] in blast)
  show "\<not> i2_ready i" "i2_avg_price i = NaN" if "\<not> i2_connected i"
    using inv that by (simp_all add: Instrument2_inv_def)
  show "is_greater U (i2_tick_size i) (Fin 0)" "is_greater U (i2_multiplier i) (Fin 0)" "i2_trading_status i = OPEN"
    "i2_market_data i" if "i2_ready i" using inv that by (simp_all add: Instrument2_inv_def)
next
  fix msg i'
  assume step: "Instrument2_handle dbg U B i msg = Inr i'" and ne: "i2_avg_price i' \<noteq> i2_avg_price i"
  show "msg = Disconnected \<and> i2_avg_price i' = NaN \<or>
       (\<exists>u. msg = MarketByPriceUpdate u \<and> i2_ready i \<and>
          \<not> is_zero U (bid_quantity (i2_depth i' ! 0)) \<and> \<not> is_zero U (ask_quantity (i2_depth i' ! 0)) \<and>
          \<not> is_less_or_equal U (dsub (ask_price (i2_depth i' ! 0)) (bid_price (i2_depth i' ! 0))) (Fin 0) \<and>
          i2_avg_price i' = average (i2_alpha i) (weighted_mid (i2_depth i')) (i2_avg_price i))"
  proof (cases msg)
    case (MarketByPriceUpdate u)
    then show ?thesis
      using step ne
      by (auto simp: Instrument2_on_MarketByPriceUpdate_def Instrument2_update_model_def result_Inr Let_def
        split: prod.splits if_splits)
  next
    case (GatewayStatus g)
    then show ?thesis
      using step ne by (auto simp: Instrument2_on_GatewayStatus_def Instrument2_check_ready_def Let_def split: if_splits)
  qed (use step ne in \<open>auto simp: Instrument2_check_ready_def Instrument2_reset_def
      update_bool_ok [OF assms(1)] result_Inr split: if_splits\<close>)
qed

theorem Instrument2_average_sound_witness:
  "\<exists>i. run (Instrument2_handle True exact_utils last_book) (Instrument2_new ''F'' ''X'' (Fin (1 / 2)) (e2_layer 0 0) None)
       (e2_demo_messages ''F'' ''X'') = Inr i \<and> i2_avg_price i = Fin 5 \<and> i2_ready i \<and> i2_trading_status i = OPEN"
proof -
  have demo: "e2_futures e2_demo = Instrument2_new ''F'' ''X'' (Fin (1 / 2)) (e2_layer 0 0) None"
    by (simp add: e2_demo_def Strategy2_new_def)
  obtain i where i: "run (Instrument2_handle True exact_utils last_book) (e2_futures e2_demo) (e2_demo_messages ''F'' ''X'') = Inr i"
      "i2_ready i" "i2_avg_price i = Fin 5" using e2_demo_futures by auto
  show ?thesis
    using Instrument2_average_sound [OF exact_utils_updates_ok i(1) [unfolded demo]] i unfolding demo by blast
qed

end
