(* ===== verification/E8.thy ===== *)
theory E8
  imports Roq_API
begin

text \<open>
  Example 8 (\<open>example-8/strategy.*\<close>): a latency probe that sends at most sixteen passive buy
  orders, triggered by top of book or by market by price. The order book cache is the parameter
  \<open>B\<close>, the dispatcher part of the event. The requests are recorded with the time of the
  message that triggered them.
  Shown: the bound on the number of orders, their spacing, their prices and ids; and that the
  download flag is never read.
\<close>

section \<open>The strategy\<close>

definition DELAY_1 :: nanoseconds where
  "DELAY_1 = seconds 30"

definition DELAY_2 :: nanoseconds where
  "DELAY_2 = seconds 100"

record e8_settings =
  e8_set_account :: string
  e8_set_exchange :: string
  e8_set_symbol :: string
  e8_set_top_of_book :: bool
  e8_set_quantity :: double
  e8_set_tick_offset :: int

record 'b Strategy8 =
  e8_account :: string
  e8_exchange :: string
  e8_symbol :: string
  e8_use_top_of_book :: bool
  e8_use_market_by_price :: bool
  e8_quantity :: double
  e8_tick_offset :: int
  e8_downloading :: bool
  e8_order_id :: u64
  e8_tick_size :: double
  e8_market_by_price :: 'b
  e8_buffer :: "layer list"
  e8_next_request :: nanoseconds
  e8_countdown :: u32
  e8_sent :: "(nanoseconds \<times> create_order) list"

definition Strategy8_new :: "e8_settings \<Rightarrow> layer \<Rightarrow> 'b \<Rightarrow> 'b Strategy8" where
  "Strategy8_new S layer0 b = \<lparr>
     e8_account = e8_set_account S, e8_exchange = e8_set_exchange S, e8_symbol = e8_set_symbol S,
     e8_use_top_of_book = e8_set_top_of_book S, e8_use_market_by_price = (\<not> e8_set_top_of_book S),
     e8_quantity = e8_set_quantity S, e8_tick_offset = e8_set_tick_offset S,
     e8_downloading = False, e8_order_id = 0, e8_tick_size = NaN, e8_market_by_price = b,
     e8_buffer = [layer0], e8_next_request = 0, e8_countdown = 16, e8_sent = []\<rparr>"

definition Strategy8_price :: "'b Strategy8 \<Rightarrow> layer \<Rightarrow> double" where
  "Strategy8_price s l = dsub (bid_price l) (dmul (dint (e8_tick_offset s)) (e8_tick_size s))"

definition Strategy8_order :: "'b Strategy8 \<Rightarrow> u64 \<Rightarrow> layer \<Rightarrow> create_order" where
  "Strategy8_order s order_id l = \<lparr>
     co_account = e8_account s, co_order_id = order_id, co_exchange = e8_exchange s, co_symbol = e8_symbol s,
     co_side = BUY, co_max_show_quantity = NaN, co_order_type = LIMIT, co_time_in_force = GTC,
     co_execution_instructions = [], co_quantity = e8_quantity s, co_price = Strategy8_price s l,
     co_stop_price = NaN, co_leverage = NaN, co_routing_id = [], co_strategy_id = 0\<rparr>"

definition Strategy8_create_order ::
  "bool \<Rightarrow> 'z utils_scheme \<Rightarrow> dispatcher \<Rightarrow> message_info \<Rightarrow> layer \<Rightarrow> 'b Strategy8 \<Rightarrow> 'b Strategy8 result" where
  "Strategy8_create_order dbg U D info l s =
     (if e8_countdown s = 0 then Inr s
      else if e8_next_request s \<noteq> 0 \<and> receive_time info < e8_next_request s then Inr s
      else if e8_next_request s = 0 then Inr (s\<lparr>e8_next_request := receive_time info + DELAY_1\<rparr>)
      else if compare U (e8_tick_size s) (Fin 0) = Equal then Inr s
      else let order_id = e8_order_id s + 1; c = Strategy8_order s order_id l in
        case D (CreateOrder c) 0 of
          Some x \<Rightarrow> Inl (Raised x)
        | None \<Rightarrow>
            assert_then dbg (e8_countdown s > 0)
              (Inr (s\<lparr>e8_order_id := order_id, e8_countdown := e8_countdown s - 1,
                 e8_next_request := receive_time info + DELAY_2, e8_sent := e8_sent s @ [(receive_time info, c)]\<rparr>)))"

fun Strategy8_step ::
  "bool \<Rightarrow> 'z utils_scheme \<Rightarrow> ('b, 'u) book_ops \<Rightarrow> 'b Strategy8 \<Rightarrow> 'u client_event \<Rightarrow> 'b Strategy8 result" where
  "Strategy8_step dbg U B s (D, info, DownloadBegin d) =
     Inr (if e8_account s = db_account d then s\<lparr>e8_downloading := True\<rparr> else s)"
| "Strategy8_step dbg U B s (D, info, DownloadEnd d) =
     Inr (if e8_account s = de_account d
          then s\<lparr>e8_order_id := max (e8_order_id s) (de_max_order_id d), e8_downloading := False\<rparr> else s)"
| "Strategy8_step dbg U B s (D, info, ReferenceData r) = Inr (s\<lparr>e8_tick_size := rd_tick_size r\<rparr>)"
| "Strategy8_step dbg U B s (D, info, TopOfBook t) =
     (if \<not> e8_use_top_of_book s then Inr s else Strategy8_create_order dbg U D info (tob_layer t) s)"
| "Strategy8_step dbg U B s (D, info, MarketByPriceUpdate u) =
     (if \<not> e8_use_market_by_price s then Inr s
      else let book = book_apply B (e8_market_by_price s) u; s1 = s\<lparr>e8_market_by_price := book\<rparr> in
      if bu_update_type u \<noteq> INCREMENTAL then Inr s1
      else let (buffer, size) = book_extract B book (e8_buffer s1); s2 = s1\<lparr>e8_buffer := buffer\<rparr> in
      if size = 0 then Inr s2 else Strategy8_create_order dbg U D info (buffer ! 0) s2)"
| "Strategy8_step dbg U B s (D, info, _) = Inr s"

section \<open>Invariant\<close>

text \<open>
  The countdown and the number of orders add up to sixteen, the orders are at least
  \<open>DELAY_2\<close> apart, and the next request is not due before that.
\<close>

definition Strategy8_inv :: "'b Strategy8 \<Rightarrow> bool" where
  "Strategy8_inv s \<longleftrightarrow>
     unat (e8_countdown s) + length (e8_sent s) = 16 \<and>
     sorted_wrt (\<lambda>a b. fst a + DELAY_2 \<le> fst b) (e8_sent s) \<and>
     (\<forall>a \<in> set (e8_sent s). fst a + DELAY_2 \<le> e8_next_request s) \<and>
     (e8_next_request s = 0 \<longrightarrow> e8_sent s = [])"

text \<open>What a trigger can do: nothing, start the warm-up, or send one order.\<close>

lemma Strategy8_create_order_cases:
  assumes "Strategy8_create_order dbg U D info l s = Inr s'"
  obtains (idle) "s' = s"
    | (warmup) "e8_next_request s = 0" "s' = s\<lparr>e8_next_request := receive_time info + DELAY_1\<rparr>"
    | (order) "e8_countdown s \<noteq> 0" "e8_next_request s \<noteq> 0" "e8_next_request s \<le> receive_time info"
      "compare U (e8_tick_size s) (Fin 0) \<noteq> Equal"
      "s' = s\<lparr>e8_order_id := e8_order_id s + 1, e8_countdown := e8_countdown s - 1,
          e8_next_request := receive_time info + DELAY_2,
          e8_sent := e8_sent s @ [(receive_time info, Strategy8_order s (e8_order_id s + 1) l)]\<rparr>"
proof -
  let ?idle = "e8_countdown s = 0 \<or> e8_next_request s \<noteq> 0 \<and>
    (receive_time info < e8_next_request s \<or> compare U (e8_tick_size s) (Fin 0) = Equal)"
  show thesis
  proof (cases ?idle)
    case True
    then have "s' = s" using assms by (auto simp: Strategy8_create_order_def split: if_splits)
    then show thesis by (rule idle)
  next
    case act: False
    show thesis
    proof (cases "e8_next_request s = 0")
      case True
      then have "s' = s\<lparr>e8_next_request := receive_time info + DELAY_1\<rparr>"
        using assms act by (simp add: Strategy8_create_order_def)
      then show thesis using True by (rule warmup [rotated])
    next
      case False
      then have "s' = s\<lparr>e8_order_id := e8_order_id s + 1, e8_countdown := e8_countdown s - 1,
          e8_next_request := receive_time info + DELAY_2,
          e8_sent := e8_sent s @ [(receive_time info, Strategy8_order s (e8_order_id s + 1) l)]\<rparr>"
        using assms act
        by (simp add: Strategy8_create_order_def Let_def assert_then_def word_gt_0 split: option.splits if_splits)
      then show thesis using act False by (intro order) auto
    qed
  qed
qed

lemma Strategy8_create_order_inv:
  assumes "Strategy8_inv s" "Strategy8_create_order dbg U D info l s = Inr s'" "0 \<le> receive_time info"
  shows "Strategy8_inv s'"
  using assms(2)
proof (cases rule: Strategy8_create_order_cases)
  case idle
  then show ?thesis using assms(1) by simp
next
  case warmup
  then show ?thesis using assms(1,3) by (auto simp: Strategy8_inv_def DELAY_1_def)
next
  case order
  then have "unat (e8_countdown s - 1) = unat (e8_countdown s) - 1" "0 < unat (e8_countdown s)"
    by (simp_all add: unat_minus_one unat_gt_0)
  then show ?thesis
    using assms(1,3) order
    by (fastforce simp: Strategy8_inv_def sorted_wrt_append DELAY_2_def)
qed

text \<open>Every step is a trigger on an unchanged schedule, or leaves orders and schedule alone.\<close>

lemma Strategy8_step_cases:
  assumes "Strategy8_step dbg U B s (D, info, msg) = Inr s'"
  obtains (quiet) "e8_sent s' = e8_sent s" "e8_next_request s' = e8_next_request s" "e8_countdown s' = e8_countdown s"
      "e8_order_id s \<le> e8_order_id s'"
    | (trigger) l t where "Strategy8_create_order dbg U D info l t = Inr s'" "e8_sent t = e8_sent s"
      "e8_next_request t = e8_next_request s" "e8_countdown t = e8_countdown s" "e8_order_id t = e8_order_id s"
proof (cases msg)
  case (TopOfBook b)
  then show thesis using assms that by (auto split: if_splits)
next
  case (MarketByPriceUpdate u)
  then show thesis
    using assms that by (auto simp: Let_def split: if_splits prod.splits)
qed (use assms that in \<open>auto split: if_splits\<close>)

lemma Strategy8_step_inv:
  assumes "Strategy8_inv s" "Strategy8_step dbg U B s (D, info, msg) = Inr s'" "0 \<le> receive_time info"
  shows "Strategy8_inv s'"
  using assms(2)
proof (cases rule: Strategy8_step_cases)
  case quiet
  then show ?thesis using assms(1) by (simp add: Strategy8_inv_def)
next
  case (trigger l t)
  have "Strategy8_inv t" using trigger assms(1) by (simp add: Strategy8_inv_def)
  then show ?thesis using trigger(1) assms(3) by (rule Strategy8_create_order_inv)
qed

interpretation e8_orders: order_id_source "Strategy8_step dbg U B" e8_order_id
  "\<lambda>s. map (co_order_id \<circ> snd) (e8_sent s)" "\<lambda>s. e8_order_id s \<noteq> - 1" for dbg U B
proof unfold_locales
  fix s ev s'
  assume step: "Strategy8_step dbg U B s ev = Inr s'" and room: "e8_order_id s \<noteq> - 1"
  obtain D info msg where ev: "ev = (D, info, msg)" by (metis surj_pair)
  have up: "e8_order_id s < e8_order_id s + 1" using room by (rule word_less_plus_one)
  show "\<exists>ids. map (co_order_id \<circ> snd) (e8_sent s') = map (co_order_id \<circ> snd) (e8_sent s) @ ids \<and>
      sorted_wrt (<) ids \<and> (\<forall>i \<in> set ids. e8_order_id s < i \<and> i \<le> e8_order_id s') \<and> e8_order_id s \<le> e8_order_id s'"
    using step [unfolded ev]
  proof (cases rule: Strategy8_step_cases)
    case quiet
    then show ?thesis by (intro exI [of _ "[]"]) simp
  next
    case (trigger l t)
    from trigger(1) show ?thesis
    proof (cases rule: Strategy8_create_order_cases)
      case order
      then show ?thesis using trigger up
        by (intro exI [of _ "[e8_order_id s + 1]"]) (simp add: Strategy8_order_def less_imp_le)
    qed (use trigger in \<open>auto intro!: exI [of _ "[]"]\<close>)
  qed
qed

section \<open>Properties\<close>

text \<open>
  C35: Example 8 is a bounded probe. In every session (with receive times that are not negative)
  it sends at most sixteen orders, any two of them at least 100 seconds apart by the messages
  that triggered them, and as long as the id counter is not exhausted their ids are strictly increasing.
\<close>

theorem Strategy8_orders_bounded:
  assumes "run (Strategy8_step dbg U B) (Strategy8_new S layer0 b) es = Inr s"
    and "\<forall>e \<in> set es. 0 \<le> receive_time (fst (snd e))"
    and "\<forall>t \<in> set (states (Strategy8_step dbg U B) (Strategy8_new S layer0 b) es). e8_order_id t \<noteq> - 1"
  shows "length (e8_sent s) \<le> 16 \<and>
    sorted_wrt (\<lambda>a b. fst a + seconds 100 \<le> fst b) (e8_sent s) \<and>
    sorted_wrt (<) (map (co_order_id \<circ> snd) (e8_sent s))"
proof (intro conjI)
  have new: "Strategy8_inv (Strategy8_new S layer0 b)" "e8_sent (Strategy8_new S layer0 b) = []"
    by (simp_all add: Strategy8_inv_def Strategy8_new_def)
  have "Strategy8_inv s"
  proof (rule run_preserves [where P = Strategy8_inv, OF assms(1) new(1)])
    fix t e t'
    assume e: "e \<in> set es" and t: "Strategy8_inv t" "Strategy8_step dbg U B t e = Inr t'"
    obtain D info msg where "e = (D, info, msg)" by (metis surj_pair)
    then show "Strategy8_inv t'" using assms(2) e t Strategy8_step_inv [of t dbg U B D info msg t'] by auto
  qed
  then show "length (e8_sent s) \<le> 16" "sorted_wrt (\<lambda>a b. fst a + seconds 100 \<le> fst b) (e8_sent s)"
    by (simp_all add: Strategy8_inv_def DELAY_2_def)
  show "sorted_wrt (<) (map (co_order_id \<circ> snd) (e8_sent s))"
    using e8_orders.run_sorted [OF _ assms(1,3)] new(2) by simp
qed

definition e8_demo_settings :: e8_settings where
  "e8_demo_settings = \<lparr>e8_set_account = ''A1'', e8_set_exchange = ''deribit'', e8_set_symbol = ''X'',
     e8_set_top_of_book = True, e8_set_quantity = Fin 1, e8_set_tick_offset = 2\<rparr>"

definition e8_demo_layer :: layer where
  "e8_demo_layer = \<lparr>bid_price = Fin 10, bid_quantity = Fin 1, ask_price = Fin 11, ask_quantity = Fin 1\<rparr>"

definition e8_demo_event :: "nanoseconds \<Rightarrow> layer message \<Rightarrow> layer client_event" where
  "e8_demo_event t msg = (accept_all, \<lparr>source = 0, receive_time = t, origin_create_time = t\<rparr>, msg)"

definition e8_demo_events :: "layer client_event list" where
  "e8_demo_events =
     [e8_demo_event 1 (DownloadBegin \<lparr>db_account = ''A1''\<rparr>),
      e8_demo_event 2 (ReferenceData \<lparr>rd_exchange = ''deribit'', rd_symbol = ''X'', rd_tick_size = Fin 1,
        rd_min_trade_vol = Fin 1, rd_multiplier = Fin 1\<rparr>)] @
     map (\<lambda>t. e8_demo_event (seconds t) (TopOfBook \<lparr>tob_exchange = ''deribit'', tob_symbol = ''X'', tob_layer = e8_demo_layer\<rparr>))
       [1, 2, 31, 130, 131]"

lemmas e8_eval = e8_demo_settings_def e8_demo_layer_def e8_demo_event_def e8_demo_events_def Strategy8_new_def
  Strategy8_create_order_def Strategy8_order_def Strategy8_price_def DELAY_1_def DELAY_2_def accept_all_def
  exact_utils_def dsub_def dint_def Let_def

theorem Strategy8_orders_bounded_witness:
  "\<exists>s. run (Strategy8_step True exact_utils last_book) (Strategy8_new e8_demo_settings e8_demo_layer None) e8_demo_events = Inr s \<and>
     map fst (e8_sent s) = [seconds 31, seconds 131] \<and> map (co_price \<circ> snd) (e8_sent s) = [Fin 8, Fin 8] \<and>
     sorted_wrt (\<lambda>a b. fst a + seconds 100 \<le> fst b) (e8_sent s)"
proof -
  obtain s where s: "run (Strategy8_step True exact_utils last_book) (Strategy8_new e8_demo_settings e8_demo_layer None) e8_demo_events = Inr s"
      "map fst (e8_sent s) = [seconds 31, seconds 131]" "map (co_price \<circ> snd) (e8_sent s) = [Fin 8, Fin 8]"
    by (simp add: e8_eval)
  have "\<forall>t \<in> set (states (Strategy8_step True exact_utils last_book) (Strategy8_new e8_demo_settings e8_demo_layer None) e8_demo_events).
      e8_order_id t \<noteq> - 1"
    by (simp add: e8_eval)
  moreover have "\<forall>e \<in> set e8_demo_events. 0 \<le> receive_time (fst (snd e))" by (simp add: e8_eval)
  ultimately have "sorted_wrt (\<lambda>a b. fst a + seconds 100 \<le> fst b) (e8_sent s)"
    using Strategy8_orders_bounded [OF s(1)] by blast
  with s show ?thesis by (intro exI [of _ s] conjI)
qed

text \<open>
  The download flag has no reader: its value changes nothing but itself, so orders are sent
  during a download.
\<close>

lemma Strategy8_download_flag_unused:
  "Strategy8_step dbg U B (s\<lparr>e8_downloading := x\<rparr>) (D, info, TopOfBook t) =
     bind_result (Strategy8_step dbg U B s (D, info, TopOfBook t)) (\<lambda>s'. Inr (s'\<lparr>e8_downloading := x\<rparr>))"
  by (simp add: Strategy8_create_order_def Strategy8_order_def Strategy8_price_def Let_def assert_then_def
      split: option.splits)

end
