(* ===== verification/Depth.thy ===== *)
theory Depth
  imports Roq_API
begin

text \<open>
  The depth sample (\<open>depth/strategy.*\<close>): it maintains a full order book and a book of limited
  depth that is fed with the updates \<open>create_depth_update\<close> derives, and checks after every
  update that both show the same layers. The books of roq-market are parameters.
  Shown: an update ends normally exactly when the two books then show the same layers and the limited book keeps
  its depth, and is fatal otherwise; the counters are exact.
\<close>

section \<open>Parameters\<close>

text \<open>
  The content of an update: the levels of both sides, the depth and the checksum, and the fields
  that are copied (\<open>mc_info\<close>: stream, times, sequence number, precisions).
\<close>

record ('l, 'x) mbp_content =
  mc_levels :: 'l
  mc_max_depth :: nat
  mc_checksum :: nat
  mc_info :: 'x

type_synonym ('l, 'x) mbp_update = "('l, 'x) mbp_content book_update"

text \<open>
  \<open>cache::MarketByPrice\<close>. \<open>create_depth_update\<close> writes the levels of an update limited to a depth
  into a buffer; \<open>extract\<close> fills a vector of layers.
\<close>

record ('b, 'l, 'x) mbp_ops =
  mbp_apply :: "'b \<Rightarrow> ('l, 'x) mbp_update \<Rightarrow> 'b"
  mbp_reference :: "'b \<Rightarrow> reference_data \<Rightarrow> 'b"
  mbp_clear :: "'b \<Rightarrow> 'b"
  mbp_extract :: "'b \<Rightarrow> layer list \<Rightarrow> layer list"
  mbp_max_depth :: "'b \<Rightarrow> nat"
  mbp_create_depth_update :: "'b \<Rightarrow> ('l, 'x) mbp_update \<Rightarrow> nat \<Rightarrow> 'l \<Rightarrow> 'l"

section \<open>The strategy\<close>

record ('b, 'l) DepthStrategy =
  dp_full :: 'b
  dp_depth :: 'b
  dp_levels :: 'l
  dp_lhs :: "layer list"
  dp_rhs :: "layer list"
  dp_issues :: nat
  dp_choice :: nat
  dp_inversion :: nat

definition Depth_new :: "nat \<Rightarrow> layer \<Rightarrow> 'l \<Rightarrow> 'b \<Rightarrow> ('b, 'l) DepthStrategy" where
  "Depth_new depth layer0 l0 b = \<lparr>dp_full = b, dp_depth = b, dp_levels = l0, dp_lhs = replicate depth layer0,
     dp_rhs = replicate depth layer0, dp_issues = 0, dp_choice = 0, dp_inversion = 0\<rparr>"

definition same_layer :: "'z utils_scheme \<Rightarrow> layer \<Rightarrow> layer \<Rightarrow> bool" where
  "same_layer U l r \<longleftrightarrow>
     compare U (bid_price l) (bid_price r) = Equal \<and> compare U (bid_quantity l) (bid_quantity r) = Equal \<and>
     compare U (ask_price l) (ask_price r) = Equal \<and> compare U (ask_quantity l) (ask_quantity r) = Equal"

text \<open>The loop of \<open>is_same\<close> from index \<open>i\<close>; a position outside \<open>rhs\<close> is undefined.\<close>

function is_same_loop :: "'z utils_scheme \<Rightarrow> layer list \<Rightarrow> layer list \<Rightarrow> nat \<Rightarrow> bool \<Rightarrow> bool result" where
  "is_same_loop U lhs rhs i result =
     (if i < length lhs \<and> result then
        if i < length rhs then is_same_loop U lhs rhs (i + 1) (same_layer U (lhs ! i) (rhs ! i))
        else Inl Undefined_Behaviour
      else Inr result)"
  by pat_completeness auto
termination by (relation "measure (\<lambda>(U, lhs, rhs, i, result). length lhs - i)") auto

definition is_same :: "bool \<Rightarrow> 'z utils_scheme \<Rightarrow> layer list \<Rightarrow> layer list \<Rightarrow> bool result" where
  "is_same dbg U lhs rhs =
     assert_then dbg (length lhs = length rhs) (is_same_loop U lhs rhs 0 True)"

definition Depth_on_MarketByPriceUpdate ::
  "bool \<Rightarrow> 'z utils_scheme \<Rightarrow> ('b, 'l, 'x) mbp_ops \<Rightarrow> nat \<Rightarrow> ('l, 'x) mbp_update \<Rightarrow> ('b, 'l) DepthStrategy \<Rightarrow>
    ('b, 'l) DepthStrategy result" where
  "Depth_on_MarketByPriceUpdate dbg U B depth u s =
     (let levels = mbp_create_depth_update B (dp_full s) u depth (dp_levels s);
          depth_update = u\<lparr>bu_content := (bu_content u)\<lparr>mc_levels := levels, mc_max_depth := depth, mc_checksum := 0\<rparr>\<rparr>;
          s1 = s\<lparr>dp_levels := levels, dp_depth := mbp_apply B (dp_depth s) depth_update,
            dp_full := mbp_apply B (dp_full s) u\<rparr>;
          s2 = s1\<lparr>dp_lhs := mbp_extract B (dp_full s1) (dp_lhs s1), dp_rhs := mbp_extract B (dp_depth s1) (dp_rhs s1)\<rparr>
      in bind_result (is_same dbg U (dp_lhs s2) (dp_rhs s2)) (\<lambda>same.
         if \<not> same then Inl Fatal
         else if dp_lhs s2 = [] then Inl Undefined_Behaviour
         else
           let tmp = compare U (bid_price (dp_lhs s2 ! 0)) (ask_price (dp_lhs s2 ! 0));
               s3 = (if tmp = Equal then s2\<lparr>dp_choice := dp_choice s2 + 1\<rparr> else s2);
               s4 = (if tmp = Greater then s3\<lparr>dp_inversion := dp_inversion s3 + 1\<rparr> else s3)
           in if mbp_max_depth B (dp_depth s4) > depth then Inl Fatal else Inr s4))"

fun Depth_step ::
  "bool \<Rightarrow> 'z utils_scheme \<Rightarrow> ('b, 'l, 'x) mbp_ops \<Rightarrow> nat \<Rightarrow> ('b, 'l) DepthStrategy \<Rightarrow> ('l, 'x) mbp_content message \<Rightarrow>
    ('b, 'l) DepthStrategy result" where
  "Depth_step dbg U B depth s Disconnected =
     Inr (s\<lparr>dp_full := mbp_clear B (dp_full s), dp_depth := mbp_clear B (dp_depth s)\<rparr>)"
| "Depth_step dbg U B depth s (ReferenceData r) =
     Inr (s\<lparr>dp_full := mbp_reference B (dp_full s) r, dp_depth := mbp_reference B (dp_depth s) r\<rparr>)"
| "Depth_step dbg U B depth s (MarketByPriceUpdate u) = Depth_on_MarketByPriceUpdate dbg U B depth u s"
| "Depth_step dbg U B depth s _ = Inr s"

section \<open>What the comparison means\<close>

lemma is_same_loop_spec:
  assumes "length lhs = length rhs"
  shows "is_same_loop U lhs rhs i True = Inr (\<forall>j. i \<le> j \<and> j < length lhs \<longrightarrow> same_layer U (lhs ! j) (rhs ! j))"
proof (induction "length lhs - i" arbitrary: i)
  case 0
  then show ?case by (subst is_same_loop.simps) auto
next
  case (Suc n)
  then have i: "i < length lhs" "i < length rhs" using assms by auto
  have split: "(\<forall>j. i \<le> j \<and> j < length lhs \<longrightarrow> P j) \<longleftrightarrow> P i \<and> (\<forall>j. i + 1 \<le> j \<and> j < length lhs \<longrightarrow> P j)" for P
    using i(1) by (auto simp: Suc_le_eq) (metis le_neq_implies_less)
  show ?case
  proof (cases "same_layer U (lhs ! i) (rhs ! i)")
    case True
    have "is_same_loop U lhs rhs (i + 1) True =
        Inr (\<forall>j. i + 1 \<le> j \<and> j < length lhs \<longrightarrow> same_layer U (lhs ! j) (rhs ! j))"
      using Suc.hyps by (intro Suc.hyps(1)) simp
    then show ?thesis unfolding split
      using True i by (subst is_same_loop.simps) (simp del: is_same_loop.simps)
  next
    case False
    have "is_same_loop U lhs rhs (i + 1) False = Inr False" by (subst is_same_loop.simps) simp
    then show ?thesis unfolding split
      using False i by (subst is_same_loop.simps) (simp del: is_same_loop.simps)
  qed
qed

text \<open>What it is for two books to show the same: as many layers, which agree in all four fields.\<close>

definition layers_agree :: "'z utils_scheme \<Rightarrow> layer list \<Rightarrow> layer list \<Rightarrow> bool" where
  "layers_agree U lhs rhs \<longleftrightarrow> length lhs = length rhs \<and> (\<forall>i < length lhs.
     compare U (bid_price (lhs ! i)) (bid_price (rhs ! i)) = Equal \<and>
     compare U (bid_quantity (lhs ! i)) (bid_quantity (rhs ! i)) = Equal \<and>
     compare U (ask_price (lhs ! i)) (ask_price (rhs ! i)) = Equal \<and>
     compare U (ask_quantity (lhs ! i)) (ask_quantity (rhs ! i)) = Equal)"

lemma is_same_spec:
  "length lhs = length rhs \<Longrightarrow> is_same dbg U lhs rhs = Inr (layers_agree U lhs rhs)"
  by (simp add: is_same_def is_same_loop_spec layers_agree_def same_layer_def del: is_same_loop.simps)

section \<open>A session\<close>

text \<open>
  What the two books should be: the full book sees the messages of the gateway and nothing else; the limited book
  sees, for each update, the one that the full book derives for the depth before it applies the update itself. The
  third component is the buffer of the derived levels.
\<close>

definition limited_update :: "nat \<Rightarrow> 'l \<Rightarrow> ('l, 'x) mbp_update \<Rightarrow> ('l, 'x) mbp_update" where
  "limited_update depth levels u =
     u\<lparr>bu_content := (bu_content u)\<lparr>mc_levels := levels, mc_max_depth := depth, mc_checksum := 0\<rparr>\<rparr>"

fun books_step :: "('b, 'l, 'x) mbp_ops \<Rightarrow> nat \<Rightarrow> 'b \<times> 'b \<times> 'l \<Rightarrow> ('l, 'x) mbp_content message \<Rightarrow> 'b \<times> 'b \<times> 'l" where
  "books_step B depth (full, limited, l) Disconnected = (mbp_clear B full, mbp_clear B limited, l)"
| "books_step B depth (full, limited, l) (ReferenceData r) = (mbp_reference B full r, mbp_reference B limited r, l)"
| "books_step B depth (full, limited, l) (MarketByPriceUpdate u) =
     (let l' = mbp_create_depth_update B full u depth l
      in (mbp_apply B full u, mbp_apply B limited (limited_update depth l' u), l'))"
| "books_step B depth (full, limited, l) _ = (full, limited, l)"

text \<open>\<open>extract\<close> fills the vector it is given.\<close>

definition extract_fills :: "('b, 'l, 'x) mbp_ops \<Rightarrow> bool" where
  "extract_fills B \<longleftrightarrow> (\<forall>b xs. length (mbp_extract B b xs) = length xs)"

definition Depth_inv :: "nat \<Rightarrow> 'b \<times> 'b \<times> 'l \<Rightarrow> ('b, 'l) DepthStrategy \<Rightarrow> bool" where
  "Depth_inv depth books s \<longleftrightarrow> books = (dp_full s, dp_depth s, dp_levels s) \<and>
     length (dp_lhs s) = depth \<and> length (dp_rhs s) = depth \<and> dp_issues s = 0"

text \<open>One update, in both builds.\<close>

lemma Depth_update_exact:
  assumes "extract_fills B" "0 < depth" "Depth_inv depth books s"
    and "books_step B depth books (MarketByPriceUpdate u) = (full, limited, l)"
    and "lhs = mbp_extract B full (dp_lhs s)" "rhs = mbp_extract B limited (dp_rhs s)"
  shows "Depth_on_MarketByPriceUpdate dbg U B depth u s =
    (if layers_agree U lhs rhs \<and> mbp_max_depth B limited \<le> depth
     then Inr (s\<lparr>dp_full := full, dp_depth := limited, dp_levels := l, dp_lhs := lhs, dp_rhs := rhs,
       dp_choice := dp_choice s + (if compare U (bid_price (lhs ! 0)) (ask_price (lhs ! 0)) = Equal then 1 else 0),
       dp_inversion := dp_inversion s + (if compare U (bid_price (lhs ! 0)) (ask_price (lhs ! 0)) = Greater then 1 else 0)\<rparr>)
     else Inl Fatal)"
proof -
  have "length lhs = depth" "length rhs = depth"
    using assms(1,3) by (simp_all add: assms(5,6) extract_fills_def Depth_inv_def)
  then have len: "length lhs = length rhs" "lhs \<noteq> []" using assms(2) by auto
  have books: "l = mbp_create_depth_update B (dp_full s) u depth (dp_levels s)" "full = mbp_apply B (dp_full s) u"
      "limited = mbp_apply B (dp_depth s) (u\<lparr>bu_content := (bu_content u)\<lparr>mc_levels := l, mc_max_depth := depth, mc_checksum := 0\<rparr>\<rparr>)"
    using assms(3,4) by (auto simp: Depth_inv_def Let_def limited_update_def)
  show ?thesis using is_same_spec [OF len(1), of dbg U] len(2)
    by (auto simp: Depth_on_MarketByPriceUpdate_def Let_def books(1) [symmetric] books(2) [symmetric] books(3) [symmetric]
        assms(5) [symmetric] assms(6) [symmetric])
qed

lemma Depth_step_inv:
  assumes "extract_fills B" "0 < depth" "Depth_inv depth books s" "Depth_step dbg U B depth s m = Inr s'"
  shows "Depth_inv depth (books_step B depth books m) s'"
proof (cases "\<exists>u. m = MarketByPriceUpdate u")
  case True
  then obtain u where u: "m = MarketByPriceUpdate u" by blast
  obtain full limited l where step: "books_step B depth books (MarketByPriceUpdate u) = (full, limited, l)"
    by (cases "books_step B depth books (MarketByPriceUpdate u)")
  show ?thesis using Depth_update_exact [OF assms(1-3) step refl refl, of dbg U] assms u step
    by (auto simp: Depth_inv_def extract_fills_def split: if_splits)
next
  case False
  then show ?thesis using assms(3,4) by (cases m) (auto simp: Depth_inv_def)
qed

lemma Depth_run_inv:
  assumes "extract_fills B" "0 < depth"
  shows "Depth_inv depth books s \<Longrightarrow> run (Depth_step dbg U B depth) s es = Inr s' \<Longrightarrow>
    Depth_inv depth (foldl (books_step B depth) books es) s'"
proof (induction es arbitrary: books s)
  case (Cons e es)
  then obtain t where t: "Depth_step dbg U B depth s e = Inr t" "run (Depth_step dbg U B depth) t es = Inr s'"
    by (auto simp: bind_result_eq_Inr)
  show ?case using Cons.IH [OF Depth_step_inv [OF assms Cons.prems(1) t(1)] t(2)] by simp
qed simp

text \<open>
  C37: The depth sample checks what it says, in a debug build and in a release build. After every session that
  ended normally both books are the ones they should be: the full one has seen the messages, the limited one the
  updates that the full one derives for the depth before it applies them. The next update then ends normally if and only
  if the two books show the same layers afterwards (all four fields of every layer) and the limited one is not deeper
  than the depth, and is fatal otherwise. No issue is ever counted in a session that goes on, and a choice or an
  inversion is counted exactly when the best bid equals or exceeds the best ask.
\<close>

theorem Depth_books_agree:
  assumes "extract_fills B" "0 < depth"
    and "run (Depth_step dbg U B depth) (Depth_new depth layer0 l0 b) es = Inr s"
    and "foldl (books_step B depth) (b, b, l0) (es @ [MarketByPriceUpdate u]) = (full, limited, l)"
    and "lhs = mbp_extract B full (dp_lhs s)" "rhs = mbp_extract B limited (dp_rhs s)"
  shows "foldl (books_step B depth) (b, b, l0) es = (dp_full s, dp_depth s, dp_levels s) \<and> dp_issues s = 0 \<and>
    (if layers_agree U lhs rhs \<and> mbp_max_depth B limited \<le> depth
     then \<exists>s'. Depth_step dbg U B depth s (MarketByPriceUpdate u) = Inr s' \<and> dp_full s' = full \<and> dp_depth s' = limited \<and>
       dp_issues s' = 0 \<and>
       dp_choice s' = dp_choice s + (if compare U (bid_price (lhs ! 0)) (ask_price (lhs ! 0)) = Equal then 1 else 0) \<and>
       dp_inversion s' = dp_inversion s + (if compare U (bid_price (lhs ! 0)) (ask_price (lhs ! 0)) = Greater then 1 else 0)
     else Depth_step dbg U B depth s (MarketByPriceUpdate u) = Inl Fatal)"
proof -
  have "Depth_inv depth (b, b, l0) (Depth_new depth layer0 l0 b)" by (simp add: Depth_inv_def Depth_new_def)
  from Depth_run_inv [OF assms(1,2) this assms(3)]
  have inv: "Depth_inv depth (foldl (books_step B depth) (b, b, l0) es) s" .
  have next_books: "books_step B depth (foldl (books_step B depth) (b, b, l0) es) (MarketByPriceUpdate u) = (full, limited, l)"
    using assms(4) by simp
  show ?thesis using Depth_update_exact [OF assms(1,2) inv next_books assms(5,6), of dbg U] inv by (auto simp: Depth_inv_def)
qed

text \<open>A book that keeps the layers of its last update, and a session with two updates.\<close>

definition demo_mbp :: "(layer list, layer list, unit) mbp_ops" where
  "demo_mbp = \<lparr>mbp_apply = (\<lambda>b u. mc_levels (bu_content u)), mbp_reference = (\<lambda>b r. b), mbp_clear = (\<lambda>b. []),
     mbp_extract = (\<lambda>b xs. take (length xs) b @ drop (length b) xs), mbp_max_depth = length,
     mbp_create_depth_update = (\<lambda>b u n buf. take n (mc_levels (bu_content u)))\<rparr>"

definition demo_level :: "rat \<Rightarrow> rat \<Rightarrow> layer" where
  "demo_level p q = \<lparr>bid_price = Fin p, bid_quantity = Fin 1, ask_price = Fin q, ask_quantity = Fin 1\<rparr>"

definition demo_mbp_update :: "layer list \<Rightarrow> (layer list, unit) mbp_update" where
  "demo_mbp_update ls = \<lparr>bu_exchange = ''deribit'', bu_symbol = ''X'', bu_update_type = SNAPSHOT,
     bu_content = \<lparr>mc_levels = ls, mc_max_depth = 0, mc_checksum = 0, mc_info = ()\<rparr>\<rparr>"

lemmas depth_eval = demo_mbp_def demo_level_def demo_mbp_update_def Depth_new_def Depth_on_MarketByPriceUpdate_def
  is_same_def same_layer_def exact_utils_def Let_def

text \<open>A limited book that agrees after two updates, and one that does not (it was derived with the wrong depth).\<close>

definition demo_mbp_wrong :: "(layer list, layer list, unit) mbp_ops" where
  "demo_mbp_wrong = demo_mbp\<lparr>mbp_create_depth_update := (\<lambda>b u n buf. drop n (mc_levels (bu_content u)))\<rparr>"

lemma demo_extract_fills: "extract_fills demo_mbp" "extract_fills demo_mbp_wrong"
  by (auto simp: extract_fills_def demo_mbp_def demo_mbp_wrong_def)

theorem Depth_books_agree_witness:
  "\<exists>s s'. run (Depth_step True exact_utils demo_mbp 1) (Depth_new 1 (demo_level 0 0) [] [])
       [MarketByPriceUpdate (demo_mbp_update [demo_level 9 8, demo_level 7 10])] = Inr s \<and>
     Depth_step True exact_utils demo_mbp 1 s (MarketByPriceUpdate (demo_mbp_update [demo_level 8 8, demo_level 7 9])) = Inr s' \<and>
     dp_choice s' = 1 \<and> dp_inversion s' = 1 \<and> dp_issues s' = 0 \<and>
     Depth_step False exact_utils demo_mbp_wrong 1 (Depth_new 1 (demo_level 0 0) [] [])
       (MarketByPriceUpdate (demo_mbp_update [demo_level 9 8, demo_level 7 10])) = Inl Fatal"
proof -
  let ?u = "demo_mbp_update [demo_level 9 8, demo_level 7 10]" and ?w = "demo_mbp_update [demo_level 8 8, demo_level 7 9]"
  let ?s0 = "Depth_new 1 (demo_level 0 0) [] [] :: (layer list, layer list) DepthStrategy"
  have start: "run (Depth_step False exact_utils demo_mbp_wrong 1) ?s0 [] = Inr ?s0" by simp
  obtain s where s: "run (Depth_step True exact_utils demo_mbp 1) (Depth_new 1 (demo_level 0 0) [] []) [MarketByPriceUpdate ?u] = Inr s"
      "dp_choice s = 0" "dp_inversion s = 1" "length (dp_lhs s) = 1" "length (dp_rhs s) = 1"
    by (simp add: depth_eval)
  have books: "foldl (books_step demo_mbp 1) ([], [], []) ([MarketByPriceUpdate ?u] @ [MarketByPriceUpdate ?w]) =
      ([demo_level 8 8, demo_level 7 9], [demo_level 8 8], [demo_level 8 8])"
    by (simp add: demo_mbp_def demo_mbp_update_def limited_update_def Let_def)
  note one = Depth_books_agree [OF demo_extract_fills(1) zero_less_one s(1) books refl refl]
  have "foldl (books_step demo_mbp_wrong 1) ([], [], []) ([] @ [MarketByPriceUpdate ?u]) =
      ([demo_level 9 8, demo_level 7 10], [demo_level 7 10], [demo_level 7 10])"
    by (simp add: demo_mbp_wrong_def demo_mbp_def demo_mbp_update_def limited_update_def Let_def)
  note two = Depth_books_agree [OF demo_extract_fills(2) zero_less_one start this refl refl]
  have "\<not> layers_agree exact_utils (mbp_extract demo_mbp_wrong [demo_level 9 8, demo_level 7 10] (dp_lhs ?s0))
      (mbp_extract demo_mbp_wrong [demo_level 7 10] (dp_rhs ?s0))"
    by (simp add: Depth_new_def layers_agree_def demo_mbp_wrong_def demo_mbp_def demo_level_def exact_utils_def)
  with two have "Depth_step False exact_utils demo_mbp_wrong 1 ?s0 (MarketByPriceUpdate ?u) = Inl Fatal"
    by (simp only: if_False simp_thms)
  moreover obtain s' where "Depth_step True exact_utils demo_mbp 1 s (MarketByPriceUpdate ?w) = Inr s'"
      "dp_choice s' = 1" "dp_inversion s' = 1" "dp_issues s' = 0"
    using one s(2-5)
    by (auto simp: layers_agree_def demo_mbp_def demo_level_def exact_utils_def simp del: Depth_step.simps)
  ultimately show ?thesis using s(1) by blast
qed

end
