(* ===== verification/Producer.thy ===== *)
theory Producer
  imports Roq_API
begin

text \<open>
  Example 5 (\<open>example-5/producer.*\<close>, \<open>strategy.*\<close>): a thread that enqueues a message for the
  strategy until it is told to stop. Two threads share the flag \<open>terminating_\<close>: the main thread
  handles \<open>Start\<close> and \<open>Stop\<close> (which waits for the other thread), the producer runs its loop. Their
  interleavings are the step relation \<open>producer_step\<close>. Shown: \<open>Stop\<close> returns after at most three
  steps of the producer, during which it enqueues at most one message, and none afterwards.
\<close>

section \<open>State\<close>

text \<open>Where the producer is in its loop, and whether the main thread waits in \<open>join\<close>.\<close>

datatype producer_pc = P_None | P_Check | P_Enqueue | P_Sleep | P_Done
datatype main_pc = M_Idle | M_Joining

text \<open>\<open>prd_thread\<close>: the pointer to the thread is set; \<open>prd_joinable\<close>: and it was not joined yet.\<close>

record Producer =
  prd_thread :: bool
  prd_joinable :: bool
  prd_terminating :: bool
  prd_pc :: producer_pc
  prd_main :: main_pc
  prd_queue :: "string list"

definition Producer_new :: Producer where
  "Producer_new = \<lparr>prd_thread = False, prd_joinable = False, prd_terminating = False, prd_pc = P_None,
     prd_main = M_Idle, prd_queue = []\<rparr>"

section \<open>Operations\<close>

text \<open>
  Replacing a thread that was not joined ends the process, and joining one twice is an exception;
  both can only happen in a release build, where the assertion is not there.
\<close>

definition Producer_on_Start :: "bool \<Rightarrow> Producer \<Rightarrow> Producer result" where
  "Producer_on_Start dbg s =
     assert_then dbg (\<not> prd_thread s \<and> \<not> prd_terminating s)
       (if prd_joinable s then Inl Fatal
        else Inr (s\<lparr>prd_thread := True, prd_joinable := True, prd_pc := P_Check\<rparr>))"

definition Producer_on_Stop :: "bool \<Rightarrow> Producer \<Rightarrow> Producer result" where
  "Producer_on_Stop dbg s =
     assert_then dbg (prd_thread s \<and> \<not> prd_terminating s)
       (if \<not> prd_thread s then Inl Undefined_Behaviour
        else if \<not> prd_joinable s then Inl (Raised RuntimeError)
        else Inr (s\<lparr>prd_terminating := True, prd_main := M_Joining\<rparr>))"

text \<open>\<open>join\<close> returns when the producer is done.\<close>

definition Producer_join :: "Producer \<Rightarrow> Producer option" where
  "Producer_join s =
     (if prd_main s = M_Joining \<and> prd_pc s = P_Done then Some (s\<lparr>prd_main := M_Idle, prd_joinable := False\<rparr>) else None)"

text \<open>The message, with its trailing null, and one step of the loop.\<close>

definition HELLO :: string where
  "HELLO = ''hello world'' @ [CHR 0x00]"

definition Producer_run :: "Producer \<Rightarrow> Producer option" where
  "Producer_run s =
     (case prd_pc s of
        P_Check \<Rightarrow> Some (s\<lparr>prd_pc := if prd_terminating s then P_Done else P_Enqueue\<rparr>)
      | P_Enqueue \<Rightarrow> Some (s\<lparr>prd_queue := prd_queue s @ [HELLO], prd_pc := P_Sleep\<rparr>)
      | P_Sleep \<Rightarrow> Some (s\<lparr>prd_pc := P_Check\<rparr>)
      | _ \<Rightarrow> None)"

inductive producer_step :: "bool \<Rightarrow> Producer \<Rightarrow> Producer \<Rightarrow> bool" for dbg where
  start: "prd_main s = M_Idle \<Longrightarrow> Producer_on_Start dbg s = Inr s' \<Longrightarrow> producer_step dbg s s'"
| stop: "prd_main s = M_Idle \<Longrightarrow> Producer_on_Stop dbg s = Inr s' \<Longrightarrow> producer_step dbg s s'"
| join: "Producer_join s = Some s' \<Longrightarrow> producer_step dbg s s'"
| thread: "Producer_run s = Some s' \<Longrightarrow> producer_step dbg s s'"

inductive_cases producer_stepE: "producer_step dbg s s'"

text \<open>The steps of the producer alone.\<close>

definition thread_step :: "Producer \<Rightarrow> Producer \<Rightarrow> bool" where
  "thread_step s t \<longleftrightarrow> Producer_run s = Some t"

section \<open>Invariant\<close>

definition Producer_inv :: "Producer \<Rightarrow> bool" where
  "Producer_inv s \<longleftrightarrow>
     prd_thread s = (prd_pc s \<noteq> P_None) \<and> (\<not> prd_joinable s \<longrightarrow> prd_pc s = P_None \<or> prd_pc s = P_Done) \<and>
     (prd_pc s = P_Done \<longrightarrow> prd_terminating s) \<and>
     (prd_main s = M_Joining \<longrightarrow> prd_terminating s \<and> prd_joinable s \<and> prd_thread s) \<and>
     (\<forall>m \<in> set (prd_queue s). m = HELLO)"

text \<open>What holds after a \<open>Stop\<close> has returned: nothing is enqueued any more.\<close>

definition Producer_quiet :: "Producer \<Rightarrow> bool" where
  "Producer_quiet s \<longleftrightarrow> prd_terminating s \<and> (prd_pc s = P_Check \<or> prd_pc s = P_Done)"

lemma Producer_inv_new: "Producer_inv Producer_new"
  by (simp add: Producer_inv_def Producer_new_def)

lemma producer_step_inv:
  assumes "producer_step dbg s s'" "Producer_inv s"
  shows "Producer_inv s'"
  using assms(1)
proof (rule producer_stepE)
  assume "prd_main s = M_Idle" "Producer_on_Start dbg s = Inr s'"
  then show ?thesis using assms(2)
    by (auto simp: Producer_on_Start_def Producer_inv_def result_Inr split: if_splits)
next
  assume "prd_main s = M_Idle" "Producer_on_Stop dbg s = Inr s'"
  then show ?thesis using assms(2)
    by (auto simp: Producer_on_Stop_def Producer_inv_def result_Inr split: if_splits)
next
  assume "Producer_join s = Some s'"
  then show ?thesis using assms(2) by (auto simp: Producer_join_def Producer_inv_def split: if_splits)
next
  assume "Producer_run s = Some s'"
  then show ?thesis using assms(2) by (auto simp: Producer_run_def Producer_inv_def split: producer_pc.splits if_splits)
qed

lemma producer_reachable_inv: "(producer_step dbg)\<^sup>*\<^sup>* Producer_new s \<Longrightarrow> Producer_inv s"
  by (induction rule: rtranclp_induct) (auto intro: Producer_inv_new producer_step_inv)

lemma producer_step_quiet:
  assumes "producer_step dbg s s'" "Producer_quiet s"
  shows "Producer_quiet s' \<and> prd_queue s' = prd_queue s"
  using assms(1)
proof (rule producer_stepE)
  assume "prd_main s = M_Idle" "Producer_on_Start dbg s = Inr s'"
  then show ?thesis using assms(2)
    by (auto simp: Producer_on_Start_def Producer_quiet_def result_Inr split: if_splits)
next
  assume "prd_main s = M_Idle" "Producer_on_Stop dbg s = Inr s'"
  then show ?thesis using assms(2)
    by (auto simp: Producer_on_Stop_def Producer_quiet_def result_Inr split: if_splits)
next
  assume "Producer_join s = Some s'"
  then show ?thesis using assms(2) by (auto simp: Producer_join_def Producer_quiet_def split: if_splits)
next
  assume "Producer_run s = Some s'"
  then show ?thesis using assms(2) by (auto simp: Producer_run_def Producer_quiet_def split: producer_pc.splits if_splits)
qed

lemma producer_quiet_forever:
  assumes "(producer_step dbg)\<^sup>*\<^sup>* s t" "Producer_quiet s"
  shows "Producer_quiet t \<and> prd_queue t = prd_queue s"
  using assms by (induction rule: rtranclp_induct) (auto dest: producer_step_quiet)

section \<open>The producer ends\<close>

text \<open>How many steps are left once the flag is set, and how many messages they enqueue.\<close>

fun producer_rank :: "producer_pc \<Rightarrow> nat" where
  "producer_rank P_Enqueue = 3"
| "producer_rank P_Sleep = 2"
| "producer_rank P_Check = 1"
| "producer_rank P_Done = 0"
| "producer_rank P_None = 0"

lemma thread_steps_rank:
  assumes "(thread_step ^^ n) s t" "prd_terminating s"
  shows "producer_rank (prd_pc s) = n + producer_rank (prd_pc t) \<and>
    length (prd_queue t) \<le> length (prd_queue s) + (if prd_pc s = P_Enqueue then 1 else 0) \<and> prd_terminating t \<and>
    prd_main t = prd_main s"
  using assms
proof (induction n arbitrary: s)
  case (Suc n)
  obtain u where u: "thread_step s u" "(thread_step ^^ n) u t" using Suc.prems(1) by (rule relpowp_Suc_E2) blast
  have "prd_terminating u" "prd_main u = prd_main s" "producer_rank (prd_pc s) = Suc (producer_rank (prd_pc u))"
      "length (prd_queue u) + (if prd_pc u = P_Enqueue then 1 else 0) \<le>
        length (prd_queue s) + (if prd_pc s = P_Enqueue then 1 else 0)"
    using u(1) Suc.prems(2) by (auto simp: thread_step_def Producer_run_def split: producer_pc.splits if_splits)
  then show ?case using Suc.IH [OF u(2)] by auto
qed simp

lemma thread_reaches_done:
  assumes "prd_terminating s" "prd_pc s \<noteq> P_None"
  shows "\<exists>t. (thread_step ^^ producer_rank (prd_pc s)) s t \<and> prd_pc t = P_Done"
  using assms
proof (induction "producer_rank (prd_pc s)" arbitrary: s)
  case 0
  then show ?case by (cases "prd_pc s") simp_all
next
  case (Suc n)
  obtain u where u: "thread_step s u" "prd_terminating u" "prd_pc u \<noteq> P_None" "n = producer_rank (prd_pc u)"
    using Suc.hyps(2) Suc.prems by (cases "prd_pc s") (simp_all add: thread_step_def Producer_run_def)
  obtain t where t: "(thread_step ^^ n) u t" "prd_pc t = P_Done" using Suc.hyps(1) [OF u(4,2,3)] u(4) by auto
  have "(thread_step ^^ Suc n) s t" using relpowp_Suc_I2 [OF u(1) t(1)] .
  then show ?case using t(2) Suc.hyps(2) by auto
qed

section \<open>Properties\<close>

text \<open>
  C38: \<open>Stop\<close> returns, in every interleaving. Once the main thread waits, the producer makes at
  most three more steps and enqueues at most one more message; whenever it can make no step, the
  wait is over; and it gets there. After that no message is enqueued, whatever happens. Every
  message that is enqueued is the greeting.
\<close>

theorem Producer_stop_returns:
  assumes "(producer_step dbg)\<^sup>*\<^sup>* Producer_new s" "prd_main s = M_Joining"
  shows "(\<forall>n t. (thread_step ^^ n) s t \<longrightarrow> n \<le> 3 \<and> length (prd_queue t) \<le> length (prd_queue s) + 1) \<and>
    (\<forall>n t. (thread_step ^^ n) s t \<longrightarrow> Producer_run t = None \<longrightarrow> Producer_join t \<noteq> None) \<and>
    (\<exists>n t u. n \<le> 3 \<and> (thread_step ^^ n) s t \<and> Producer_join t = Some u) \<and>
    (\<forall>n t u w. (thread_step ^^ n) s t \<longrightarrow> Producer_join t = Some u \<longrightarrow> (producer_step dbg)\<^sup>*\<^sup>* u w \<longrightarrow>
      prd_queue w = prd_queue u) \<and>
    (\<forall>m \<in> set (prd_queue s). m = HELLO)"
proof (intro conjI allI impI)
  note inv = producer_reachable_inv [OF assms(1), unfolded Producer_inv_def]
  have fin: "prd_terminating s" "prd_pc s \<noteq> P_None" using inv assms(2) by auto
  have le3: "producer_rank p \<le> 3" for p by (cases p) simp_all
  have bounded: "n \<le> 3 \<and> length (prd_queue t) \<le> length (prd_queue s) + 1" if "(thread_step ^^ n) s t"
    for n t using thread_steps_rank [OF that fin(1)] le3 [of "prd_pc s"] by (auto split: if_splits)
  show "n \<le> 3" "length (prd_queue t) \<le> length (prd_queue s) + 1" if "(thread_step ^^ n) s t" for n t
    using bounded [OF that] by simp_all
  have joining: "prd_main t = M_Joining" "prd_pc t \<noteq> P_None" "prd_terminating t" if t: "(thread_step ^^ n) s t" for n t
  proof -
    have "(producer_step dbg)\<^sup>*\<^sup>* s t"
      using relpowp_imp_rtranclp [OF t] by (rule rtranclp_mono [THEN predicate2D, rotated])
        (auto simp: thread_step_def intro: producer_step.thread)
    then have "Producer_inv t" using producer_reachable_inv rtranclp_trans [OF assms(1)] by blast
    then show "prd_main t = M_Joining" "prd_pc t \<noteq> P_None" "prd_terminating t"
      using thread_steps_rank [OF t fin(1)] assms(2) by (auto simp: Producer_inv_def)
  qed
  show "Producer_join t \<noteq> None" if "(thread_step ^^ n) s t" "Producer_run t = None" for n t
    using joining [OF that(1)] that(2) by (cases "prd_pc t") (simp_all add: Producer_join_def Producer_run_def)
  obtain r where r: "(thread_step ^^ producer_rank (prd_pc s)) s r" "prd_pc r = P_Done"
    using thread_reaches_done [OF fin] by blast
  then have "Producer_join r = Some (r\<lparr>prd_main := M_Idle, prd_joinable := False\<rparr>)"
    using joining(1) [OF r(1)] by (simp add: Producer_join_def)
  with r(1) le3 [of "prd_pc s"] show "\<exists>n t u. n \<le> 3 \<and> (thread_step ^^ n) s t \<and> Producer_join t = Some u"
    by (intro exI conjI)
  show "prd_queue w = prd_queue u"
    if "(thread_step ^^ n) s t" "Producer_join t = Some u" "(producer_step dbg)\<^sup>*\<^sup>* u w" for n t u w
  proof -
    have "Producer_quiet u"
      using joining(3) [OF that(1)] that(2) by (auto simp: Producer_join_def Producer_quiet_def split: if_splits)
    then show ?thesis using producer_quiet_forever [OF that(3)] by simp
  qed
  show "\<forall>m \<in> set (prd_queue s). m = HELLO" using inv by blast
qed

text \<open>\<open>Stop\<close> arrives just before the producer enqueues its first message.\<close>

definition producer_demo :: Producer where
  "producer_demo = \<lparr>prd_thread = True, prd_joinable = True, prd_terminating = True, prd_pc = P_Enqueue,
     prd_main = M_Joining, prd_queue = []\<rparr>"

lemma producer_demo_reachable: "(producer_step True)\<^sup>*\<^sup>* Producer_new producer_demo"
proof -
  let ?a = "Producer_new\<lparr>prd_thread := True, prd_joinable := True, prd_pc := P_Check\<rparr>"
  let ?b = "?a\<lparr>prd_pc := P_Enqueue\<rparr>"
  have "producer_step True Producer_new ?a"
    by (rule producer_step.start) (simp_all add: Producer_new_def Producer_on_Start_def)
  moreover have "producer_step True ?a ?b"
    by (rule producer_step.thread) (simp add: Producer_new_def Producer_run_def)
  moreover have "producer_step True ?b producer_demo"
    by (rule producer_step.stop) (simp_all add: Producer_new_def Producer_on_Stop_def producer_demo_def)
  ultimately show ?thesis by (meson converse_rtranclp_into_rtranclp rtranclp.rtrancl_refl)
qed

theorem Producer_stop_returns_witness:
  "prd_main producer_demo = M_Joining \<and>
     (\<exists>n t u. n \<le> 3 \<and> (thread_step ^^ n) producer_demo t \<and> Producer_join t = Some u)"
  using Producer_stop_returns [OF producer_demo_reachable] by (simp add: producer_demo_def)

text \<open>The assertions of both handlers hold when the client library sends one \<open>Start\<close> and then one
  \<open>Stop\<close>; a second \<open>Start\<close> fails the assertion in a debug build.\<close>

lemma Producer_start_twice:
  assumes "(producer_step True)\<^sup>*\<^sup>* Producer_new s" "prd_thread s"
  shows "Producer_on_Start True s = Inl Assertion_Failed"
  using assms(2) by (simp add: Producer_on_Start_def assert_then_def)

end
