(* ===== verification/Publishers.thy ===== *)
theory Publishers
  imports Roq_API
begin

text \<open>
  The small clients that hand data on: \<open>republish/strategy.*\<close> (a datagram for every top of book),
  \<open>python/strategy.*\<close> (a Python function on a timer), \<open>example-9/strategy.*\<close> (bars of a time
  series) and \<open>metrics/strategy.*\<close> (counters). The results of the socket calls, the formatting of a
  number, the Python function, the time series cache and the histogram are parameters.
  Shown: when a datagram is sent and what the socket calls leave open, the spacing of the calls
  into Python, which updates reach the time series, and what the counter counts.
\<close>

section \<open>Republish\<close>

text \<open>What the calls of \<open>socket\<close>, \<open>bind\<close> and the two \<open>fcntl\<close> return; \<open>log::system_error\<close> throws.
  The first component are the descriptors that are open afterwards.\<close>

record socket_calls =
  sk_socket :: int
  sk_bind :: int
  sk_getfl :: int
  sk_setfl :: int

definition create_socket :: "socket_calls \<Rightarrow> int set \<times> int result" where
  "create_socket k =
     (if sk_socket k < 0 then ({}, Inl (Raised RuntimeError))
      else if sk_bind k < 0 \<or> sk_getfl k < 0 \<or> sk_setfl k < 0 then ({sk_socket k}, Inl (Raised RuntimeError))
      else ({sk_socket k}, Inr (sk_socket k)))"

definition close_socket :: "int \<Rightarrow> int set \<Rightarrow> int set" where
  "close_socket fd open_fds = (if fd > 0 then open_fds - {fd} else open_fds)"

definition socket_sendto :: "(string \<Rightarrow> int) \<Rightarrow> string \<Rightarrow> unit result" where
  "socket_sendto sendto message = (if sendto message < 0 then Inl (Raised RuntimeError) else Inr ())"

definition republish_message :: "(double \<Rightarrow> string) \<Rightarrow> top_of_book \<Rightarrow> string" where
  "republish_message fmt t =
     (let l = tob_layer t in
      ''[\"'' @ tob_symbol t @ ''\",'' @ fmt (bid_price l) @ '','' @ fmt (bid_quantity l) @ '','' @
      fmt (ask_price l) @ '','' @ fmt (ask_quantity l) @ '']'')"

text \<open>The datagrams sent so far are the state.\<close>

fun Republish_step ::
  "(double \<Rightarrow> string) \<Rightarrow> string list \<Rightarrow> (string \<Rightarrow> int) \<times> 'u message \<Rightarrow> string list result" where
  "Republish_step fmt sent (sendto, TopOfBook t) =
     bind_result (socket_sendto sendto (republish_message fmt t)) (\<lambda>_. Inr (sent @ [republish_message fmt t]))"
| "Republish_step fmt sent (sendto, _) = Inr sent"

section \<open>Python\<close>

definition PYTHON_TIMER_FREQUENCY :: nanoseconds where
  "PYTHON_TIMER_FREQUENCY = seconds 2"

text \<open>The calls of the Python function with their times; what it returns or raises is only logged.\<close>

record Python =
  py_next_timer :: nanoseconds
  py_layer :: layer
  py_calls :: "(nanoseconds \<times> double \<times> double) list"

fun Python_step :: "Python \<Rightarrow> 'u message \<Rightarrow> Python" where
  "Python_step s (Timer now) =
     (if now < py_next_timer s then s
      else s\<lparr>py_next_timer := now + PYTHON_TIMER_FREQUENCY,
             py_calls := py_calls s @ [(now, bid_price (py_layer s), ask_price (py_layer s))]\<rparr>)"
| "Python_step s (TopOfBook t) = s\<lparr>py_layer := tob_layer t\<rparr>"
| "Python_step s _ = s"

definition Python_new :: "layer \<Rightarrow> Python" where
  "Python_new l = \<lparr>py_next_timer = 0, py_layer = l, py_calls = []\<rparr>"

section \<open>Time series\<close>

datatype data_source = TOP_OF_BOOK | MARKET_BY_PRICE | TRADE_SUMMARY | OTHER_SOURCE
datatype origin = GATEWAY | OTHER_ORIGIN

record 'x time_series_update =
  ts_data_source :: data_source
  ts_interval :: nat
  ts_origin :: origin
  ts_update_type :: update_type
  ts_content :: 'x

text \<open>The cache says whether it has changed; \<open>process\<close> prints the history with the update type.\<close>

definition Strategy9_on_TimeSeriesUpdate ::
  "('s \<Rightarrow> 'x time_series_update \<Rightarrow> bool \<times> 's) \<Rightarrow> 'x time_series_update \<Rightarrow> 's \<times> ('s \<times> update_type) list \<Rightarrow>
    's \<times> ('s \<times> update_type) list" where
  "Strategy9_on_TimeSeriesUpdate cache u s =
     (if ts_data_source u \<noteq> TRADE_SUMMARY \<or> ts_interval u \<noteq> 60 \<or> ts_origin u \<noteq> GATEWAY then s
      else let (changed, ts) = cache (fst s) u in
        (ts, snd s @ (if changed then [(ts, ts_update_type u)] else [])))"

section \<open>Metrics\<close>

text \<open>The counter and the histogram of the library are parameters.\<close>

datatype metrics_event = M_Disconnected | M_ExternalLatency nanoseconds | M_Other

fun Metrics_step :: "('c \<Rightarrow> 'c) \<Rightarrow> ('h \<Rightarrow> nanoseconds \<Rightarrow> 'h) \<Rightarrow> 'c \<times> 'h \<Rightarrow> metrics_event \<Rightarrow> 'c \<times> 'h" where
  "Metrics_step increment update s M_Disconnected = (increment (fst s), snd s)"
| "Metrics_step increment update s (M_ExternalLatency latency) = (fst s, update (snd s) latency)"
| "Metrics_step increment update s M_Other = s"

section \<open>Lemmas\<close>

text \<open>
  A failed constructor leaves the descriptor open: no destructor is run for it. A socket with the
  descriptor 0 is never closed.
\<close>

lemma republish_socket_leaks:
  "sk_socket k \<ge> 0 \<Longrightarrow> sk_bind k < 0 \<Longrightarrow> create_socket k = ({sk_socket k}, Inl (Raised RuntimeError))"
  "create_socket k = (fds, Inr fd) \<Longrightarrow> close_socket fd fds = (if fd = 0 then {0} else {})"
  by (auto simp: create_socket_def close_socket_def split: if_splits)

text \<open>Every top of book is sent, in order, as long as the socket takes it.\<close>

definition republished :: "(double \<Rightarrow> string) \<Rightarrow> 'u message list \<Rightarrow> string list" where
  "republished fmt ms = [republish_message fmt t. TopOfBook t \<leftarrow> ms]"

lemma Republish_sends_all:
  assumes "run (Republish_step fmt) sent es = Inr sent'"
  shows "sent' = sent @ republished fmt (map snd es)"
  using assms
proof (induction es arbitrary: sent)
  case (Cons e es)
  then obtain t where t: "Republish_step fmt sent e = Inr t" "run (Republish_step fmt) t es = Inr sent'"
    by (auto simp: bind_result_eq_Inr)
  have "t = sent @ republished fmt [snd e]"
    using t(1) by (cases "(fmt, sent, e)" rule: Republish_step.cases) (auto simp: republished_def bind_result_eq_Inr)
  moreover have "republished fmt (map snd (e # es)) = republished fmt [snd e] @ republished fmt (map snd es)"
    by (simp add: republished_def)
  ultimately show ?case using Cons.IH [OF t(2)] by simp
qed (simp add: republished_def)

text \<open>Two calls into Python are at least two seconds apart.\<close>

lemma Python_step_spaced:
  assumes "sorted_wrt (\<lambda>a b. fst a + PYTHON_TIMER_FREQUENCY \<le> fst b) (py_calls s)"
    "\<forall>a \<in> set (py_calls s). fst a + PYTHON_TIMER_FREQUENCY \<le> py_next_timer s"
  shows "sorted_wrt (\<lambda>a b. fst a + PYTHON_TIMER_FREQUENCY \<le> fst b) (py_calls (Python_step s m)) \<and>
    (\<forall>a \<in> set (py_calls (Python_step s m)). fst a + PYTHON_TIMER_FREQUENCY \<le> py_next_timer (Python_step s m))"
proof -
  have "0 < PYTHON_TIMER_FREQUENCY" by (simp add: PYTHON_TIMER_FREQUENCY_def)
  then show ?thesis using assms by (cases m) (auto simp: sorted_wrt_append)
qed

lemma Python_calls_spaced:
  "sorted_wrt (\<lambda>a b. fst a + PYTHON_TIMER_FREQUENCY \<le> fst b) (py_calls (foldl Python_step (Python_new l) ms)) \<and>
   (\<forall>a \<in> set (py_calls (foldl Python_step (Python_new l) ms)).
      fst a + PYTHON_TIMER_FREQUENCY \<le> py_next_timer (foldl Python_step (Python_new l) ms))"
proof (induction ms rule: rev_induct)
  case (snoc m ms)
  then show ?case using Python_step_spaced [of "foldl Python_step (Python_new l) ms" m] by simp
qed (simp add: Python_new_def)

text \<open>The counter is incremented for every disconnect, the histogram updated for every latency.\<close>

definition latencies :: "metrics_event list \<Rightarrow> nanoseconds list" where
  "latencies es = [l. M_ExternalLatency l \<leftarrow> es]"

lemma Metrics_counts:
  "foldl (Metrics_step increment update) (c, h) es =
     ((increment ^^ length (filter (\<lambda>e. e = M_Disconnected) es)) c, foldl update h (latencies es))"
proof (induction es arbitrary: c h)
  case (Cons e es)
  then show ?case by (cases e) (simp_all add: latencies_def funpow_swap1)
qed (simp add: latencies_def)

end
