(* ===== verification/Applications.thy ===== *)
theory Applications
  imports Algo_Safe E3_Strategy Maker_Props Polling S1_Controller Web_Controllers E2 E8 Depth Producer Loggers Publishers
begin

text \<open>
  The entry points: \<open>Application::main\<close> of every \<open>application.cpp\<close> (of \<open>main.cpp\<close> for the minimal and
  the maker sample; the import, event log and vwap samples have theirs with their processors). Each
  checks the number of command line arguments, creates the configuration and the client, and hands
  both to the client library. Settings come from generated code, so they are arguments. The library is
  the parameter \<open>L\<close>: what the sources see of it is the sequence of events it delivers, which may depend
  on what the configuration announces and on the connections (the arguments).
  Shown: the algo prototype as a whole, from its arguments and its configuration file to the end of
  a session, and which arguments each program refuses.
\<close>

type_synonym 'e library = "config_item list \<Rightarrow> string list \<Rightarrow> 'e list"

text \<open>\<open>client::Trader{settings, config, params}.dispatch<Strategy>(...)\<close> (and \<open>client::Bridge\<close>): the client
  is constructed, then it is handed the events one after the other.\<close>

definition trader_dispatch :: "'e library \<Rightarrow> config_item list \<Rightarrow> string list \<Rightarrow> 's result \<Rightarrow> ('s \<Rightarrow> 'e \<Rightarrow> 's result) \<Rightarrow> 's result" where
  "trader_dispatch L config params new step = bind_result new (\<lambda>s. run step s (L config params))"

section \<open>Clients of one or more gateways\<close>

definition example_1_main ::
  "'v log_event library \<Rightarrow> nat \<Rightarrow> string \<Rightarrow> string \<Rightarrow> string \<Rightarrow> string \<Rightarrow> string list \<Rightarrow> 'v log_line list result" where
  "example_1_main L verbosity deribit_exchange deribit_symbols coinbase_pro_exchange coinbase_pro_symbols params =
     (if params = [] then Inl Fatal
      else trader_dispatch L (Config_example_1 deribit_exchange deribit_symbols coinbase_pro_exchange coinbase_pro_symbols) params
        (Inr []) (\<lambda>out e. Inr (log_step Example1_handlers verbosity out e)))"

definition example_2_main ::
  "bool \<Rightarrow> 'm utils_scheme \<Rightarrow> ('b, 'u) book_ops \<Rightarrow> 'u event library \<Rightarrow> e2_settings \<Rightarrow> layer \<Rightarrow> 'b \<Rightarrow> 'b \<Rightarrow> string list \<Rightarrow> 'b Strategy2 result" where
  "example_2_main dbg U B L S layer0 b0 b1 params =
     (if params = [] then Inl Fatal else if length params \<noteq> 2 then Inl Fatal
      else trader_dispatch L (Config_example_2 (e2_futures_exchange S) (e2_futures_symbol S) (e2_cash_exchange S) (e2_cash_symbol S)) params
        (Inr (Strategy2_new S layer0 b0 b1)) (Strategy2_step dbg U B))"

definition example_3_main ::
  "bool \<Rightarrow> 'm utils_scheme \<Rightarrow> ('b, 'u) book_ops \<Rightarrow> ('o, 'u) book_ops \<Rightarrow> 'u client_event library \<Rightarrow> 'a e3_settings_scheme \<Rightarrow>
     string \<Rightarrow> layer \<Rightarrow> 'b \<Rightarrow> 'o \<Rightarrow> string list \<Rightarrow> ('b, 'o) Strategy3 result" where
  "example_3_main dbg U B M L settings currencies layer0 b o' params =
     (if params = [] then Inl Fatal
      else trader_dispatch L (Config_example_3 (st_account settings) (st_exchange settings) (st_symbol settings) currencies) params
        (Inr (Strategy3_new settings layer0 b o')) (Strategy3_step dbg U B M settings))"

definition example_4_main :: "'v log_event library \<Rightarrow> nat \<Rightarrow> string \<Rightarrow> string \<Rightarrow> string list \<Rightarrow> 'v log_line list result" where
  "example_4_main L verbosity exchange syms params =
     (if params = [] then Inl Fatal
      else trader_dispatch L (Config_example_4 exchange syms) params
        (Inr []) (\<lambda>out e. Inr (log_step Example4_handlers verbosity out e)))"

text \<open>
  Example 5: the strategy forwards \<open>Start\<close> and \<open>Stop\<close> to its producer and prints the other events it
  handles. A session is an interleaving with the thread of the producer (one step of its loop, or
  the return of \<open>join\<close>, each only where it is possible); the main thread takes no event while it waits.
\<close>

datatype 'v e5_event = E5_Event "'v log_event" | E5_Thread | E5_Join

fun Example5_step :: "bool \<Rightarrow> nat \<Rightarrow> Producer \<times> 'v log_line list \<Rightarrow> 'v e5_event \<Rightarrow> (Producer \<times> 'v log_line list) result" where
  "Example5_step dbg verbosity (p, out) (E5_Event e) =
     (if prd_main p \<noteq> M_Idle then Inr (p, out)
      else if le_type e = EV_Start then bind_result (Producer_on_Start dbg p) (\<lambda>p'. Inr (p', out))
      else if le_type e = EV_Stop then bind_result (Producer_on_Stop dbg p) (\<lambda>p'. Inr (p', out))
      else Inr (p, log_step Example5_handlers verbosity out e))"
| "Example5_step dbg verbosity (p, out) E5_Thread = Inr (case Producer_run p of None \<Rightarrow> p | Some p' \<Rightarrow> p', out)"
| "Example5_step dbg verbosity (p, out) E5_Join = Inr (case Producer_join p of None \<Rightarrow> p | Some p' \<Rightarrow> p', out)"

definition example_5_main ::
  "bool \<Rightarrow> 'v e5_event library \<Rightarrow> nat \<Rightarrow> string \<Rightarrow> string \<Rightarrow> string \<Rightarrow> string \<Rightarrow> string list \<Rightarrow> (Producer \<times> 'v log_line list) result" where
  "example_5_main dbg L verbosity deribit_exchange deribit_symbols coinbase_pro_exchange coinbase_pro_symbols params =
     (if params = [] then Inl Fatal
      else trader_dispatch L (Config_example_5 deribit_exchange deribit_symbols coinbase_pro_exchange coinbase_pro_symbols) params
        (Inr (Producer_new, [])) (Example5_step dbg verbosity))"

text \<open>Such a session is a run of the step relation of the two threads, so what holds of all its runs holds here.\<close>

lemma Example5_step_producer:
  assumes "Example5_step dbg verbosity s e = Inr s'"
  shows "fst s' = fst s \<or> producer_step dbg (fst s) (fst s')"
proof (cases e)
  case (E5_Event l)
  then show ?thesis using assms
    by (cases s) (auto simp: result_Inr split: if_splits intro: producer_step.start producer_step.stop)
next
  case E5_Thread
  then show ?thesis using assms by (cases s) (auto split: option.splits intro: producer_step.thread)
next
  case E5_Join
  then show ?thesis using assms by (cases s) (auto split: option.splits intro: producer_step.join)
qed

lemma Example5_run_producer:
  assumes "run (Example5_step dbg verbosity) s es = Inr s'"
  shows "(producer_step dbg)\<^sup>*\<^sup>* (fst s) (fst s')"
  using assms
proof (induction es arbitrary: s)
  case (Cons e es)
  then obtain t where t: "Example5_step dbg verbosity s e = Inr t" "run (Example5_step dbg verbosity) t es = Inr s'"
    by (auto simp: bind_result_eq_Inr)
  then show ?case using Example5_step_producer [OF t(1)] Cons.IH [OF t(2)]
    by (auto intro: converse_rtranclp_into_rtranclp)
qed simp

lemma Example5_main_inv:
  assumes "example_5_main dbg L verbosity a b c d params = Inr s"
  shows "Producer_inv (fst s)"
proof -
  have "run (Example5_step dbg verbosity) (Producer_new, []) (L (Config_example_5 a b c d) params) = Inr s"
    using assms by (simp add: example_5_main_def trader_dispatch_def split: if_splits)
  from Example5_run_producer [OF this] show ?thesis using producer_reachable_inv by simp
qed

definition example_6_main ::
  "'u event library \<Rightarrow> string \<Rightarrow> string \<Rightarrow> string \<Rightarrow> string \<Rightarrow> string \<Rightarrow> string \<Rightarrow> string list \<Rightarrow> nanoseconds result" where
  "example_6_main L account exchange_1 symbol_1 exchange_2 symbol_2 currencies params =
     (if length params \<noteq> 2 then Inl Fatal
      else trader_dispatch L (Config_example_6 account exchange_1 symbol_1 exchange_2 symbol_2 currencies) params (Inr 0) Strategy6_step)"

definition example_7_main :: "e7_event library \<Rightarrow> e7_settings \<Rightarrow> string \<Rightarrow> string \<Rightarrow> double list \<Rightarrow> string list \<Rightarrow> Strategy7 result" where
  "example_7_main L S exchange symbol garbage params =
     (if params = [] then Inl Fatal else if length params < 1 then Inl Fatal
      else trader_dispatch L (Config_example_7 exchange symbol) params (Inr (Strategy7_new garbage)) (Strategy7_step S))"

definition example_8_main ::
  "bool \<Rightarrow> 'z utils_scheme \<Rightarrow> ('b, 'u) book_ops \<Rightarrow> 'u client_event library \<Rightarrow> e8_settings \<Rightarrow> layer \<Rightarrow> 'b \<Rightarrow> string list \<Rightarrow> 'b Strategy8 result" where
  "example_8_main dbg U B L S layer0 b params =
     (if params = [] then Inl Fatal
      else trader_dispatch L (Config_example_8 (e8_set_account S) (e8_set_exchange S) (e8_set_symbol S)) params
        (Inr (Strategy8_new S layer0 b)) (Strategy8_step dbg U B))"

definition example_9_main ::
  "('s \<Rightarrow> 'x time_series_update \<Rightarrow> bool \<times> 's) \<Rightarrow> 'x time_series_update library \<Rightarrow> string \<Rightarrow> string \<Rightarrow> 's \<Rightarrow> string list \<Rightarrow>
     ('s \<times> ('s \<times> update_type) list) result" where
  "example_9_main cache L exchange symbol ts params =
     (if length params \<noteq> 1 then Inl Fatal
      else trader_dispatch L (Config_example_9 exchange symbol) params (Inr (ts, []))
        (\<lambda>s u. Inr (Strategy9_on_TimeSeriesUpdate cache u s)))"

definition depth_main ::
  "bool \<Rightarrow> 'z utils_scheme \<Rightarrow> ('b, 'l, 'x) mbp_ops \<Rightarrow> ('l, 'x) mbp_content message library \<Rightarrow> string \<Rightarrow> string \<Rightarrow> nat \<Rightarrow>
     layer \<Rightarrow> 'l \<Rightarrow> 'b \<Rightarrow> string list \<Rightarrow> ('b, 'l) DepthStrategy result" where
  "depth_main dbg U B L exchange symbol depth layer0 l0 b params =
     (if params = [] then Inl Fatal
      else trader_dispatch L (Config_depth exchange symbol) params (Inr (Depth_new depth layer0 l0 b)) (Depth_step dbg U B depth))"

definition metrics_main ::
  "('c \<Rightarrow> 'c) \<Rightarrow> ('h \<Rightarrow> nanoseconds \<Rightarrow> 'h) \<Rightarrow> metrics_event library \<Rightarrow> string \<Rightarrow> 'c \<Rightarrow> 'h \<Rightarrow> string list \<Rightarrow> ('c \<times> 'h) result" where
  "metrics_main increment update L syms counter histogram params =
     (if params = [] then Inl Fatal
      else trader_dispatch L (Config_metrics syms) params (Inr (counter, histogram))
        (\<lambda>s e. Inr (Metrics_step increment update s e)))"

definition python_main :: "'u message library \<Rightarrow> string \<Rightarrow> string \<Rightarrow> layer \<Rightarrow> string list \<Rightarrow> Python result" where
  "python_main L exchange syms l params =
     (if params = [] then Inl Fatal
      else trader_dispatch L (Config_python exchange syms) params (Inr (Python_new l)) (\<lambda>s e. Inr (Python_step s e)))"

text \<open>The republish sample opens its socket in the constructor of the strategy.\<close>

definition republish_main ::
  "(double \<Rightarrow> string) \<Rightarrow> ((string \<Rightarrow> int) \<times> 'u message) library \<Rightarrow> socket_calls \<Rightarrow> string \<Rightarrow> string \<Rightarrow> string list \<Rightarrow> string list result" where
  "republish_main fmt L k exchange symbol params =
     (if params = [] then Inl Fatal
      else trader_dispatch L (Config_republish exchange symbol) params
        (bind_result (snd (create_socket k)) (\<lambda>fd. Inr [])) (Republish_step fmt))"

definition minimal_main :: "'u client_event library \<Rightarrow> string list \<Rightarrow> Minimal result" where
  "minimal_main L params =
     (if params = [] then Inl Fatal else trader_dispatch L Config_minimal params (Inr Minimal_new) Minimal_step)"

definition maker_main :: "bool \<Rightarrow> 'm maker_utils_scheme \<Rightarrow> 'u client_event library \<Rightarrow> string list \<Rightarrow> Maker result" where
  "maker_main dbg U L params =
     (if params = [] then Inl Fatal else trader_dispatch L Config_maker params (Inr Maker_new) (Maker_step dbg U))"

section \<open>Bridges and own dispatch loops\<close>

definition bridge_main :: "event_type library \<Rightarrow> string \<Rightarrow> string \<Rightarrow> string \<Rightarrow> string \<Rightarrow> string list \<Rightarrow> unit result" where
  "bridge_main L account exchange symbol currencies params =
     (if params = [] then Inl Fatal else if length params \<noteq> 1 then Inl Fatal
      else trader_dispatch L (Config_bridge account exchange symbol currencies) params
        (Inr ()) (\<lambda>s e. Inr (Bridge_sample_handle s e)))"

definition io_context_main :: "io_event library \<Rightarrow> 'j io_settings \<Rightarrow> string \<Rightarrow> string \<Rightarrow> string list \<Rightarrow> io_controller result" where
  "io_context_main L S exchange symbol params =
     (if params = [] then Inl Fatal
      else trader_dispatch L (Config_io_context exchange symbol) params (Inr io_controller_new) (io_step S))"

definition rest_main :: "rest_event library \<Rightarrow> rest_settings \<Rightarrow> string \<Rightarrow> string list \<Rightarrow> rest_controller result" where
  "rest_main L S exchange params =
     (if params = [] then Inl Fatal
      else trader_dispatch L (Config_rest exchange (rs_symbol S)) params (Inr (rest_controller_new S)) (rest_step S))"

text \<open>The polling sample and strategy 1 have their own loop: the library delivers what one call of
  the poller may return, in rounds.\<close>

definition polling_main ::
  "bool \<Rightarrow> 'm utils_scheme \<Rightarrow> 'u poll_round library \<Rightarrow> polling_settings \<Rightarrow> string list \<Rightarrow> (bool \<times> Polling) result" where
  "polling_main dbg U L settings params =
     (if params = [] then Inl Fatal
      else Polling_dispatch dbg U settings Polling_new
        (L (Config_polling (ps_account settings) (ps_exchange settings) (ps_symbol settings)) params))"

definition strategy_1_main ::
  "u8 \<Rightarrow> ('b \<Rightarrow> 'u event \<Rightarrow> 'b result) \<Rightarrow> 'u s1_round library \<Rightarrow> string \<Rightarrow> string \<Rightarrow> string \<Rightarrow> 'b \<Rightarrow> string list \<Rightarrow>
     (bool \<times> 'b S1_Controller) result" where
  "strategy_1_main self B L account exchange symbol b params =
     (if params = [] then Inl Fatal
      else S1_dispatch self B (S1_Controller_new b) (L (Config_strategy_1 account exchange symbol) params))"

text \<open>The algo prototype: the number of gateways of the bridge is the number of arguments.\<close>

definition algo_proto_main ::
  "bool \<Rightarrow> 'z utils_scheme \<Rightarrow> ('g, 'm, 'u) algo_cache \<Rightarrow> (u32 \<Rightarrow> string) \<Rightarrow> 'g \<Rightarrow> 'u client_event library \<Rightarrow>
     proto_settings \<Rightarrow> toml \<Rightarrow> string list \<Rightarrow> ('g, 'm) Bridge result" where
  "algo_proto_main dbg U C encode gateway L settings doc params =
     (if params = [] then Inl Fatal else if length params \<noteq> 1 then Inl Fatal
      else bind_result (Config_new (pp_account settings) doc) (\<lambda>config.
        trader_dispatch L (Config_algo_proto config) params
          (Bridge_new dbg U C encode (replicate (length params) gateway) settings config) (Bridge_step dbg U C)))"

section \<open>Properties\<close>

text \<open>Which numbers of arguments the programs refuse, before they create anything.\<close>

lemma mains_need_arguments:
  "example_1_main L1 v a1 b1 c1 d1 [] = Inl Fatal" "example_4_main L1 v a1 b1 [] = Inl Fatal"
  "minimal_main L2 [] = Inl Fatal" "maker_main dbg MU L2 [] = Inl Fatal"
  "length params \<noteq> 2 \<Longrightarrow> example_2_main dbg U B L3 S2 layer0 b0 b0' params = Inl Fatal"
  "length params \<noteq> 2 \<Longrightarrow> example_6_main L4 a1 b1 c1 d1 e1 f1 params = Inl Fatal"
  "length params \<noteq> 1 \<Longrightarrow> algo_proto_main dbg U C encode gateway L5 settings doc params = Inl Fatal"
  "length params \<noteq> 1 \<Longrightarrow> bridge_main L6 a1 b1 c1 d1 params = Inl Fatal"
  by (simp_all add: example_1_main_def example_2_main_def example_4_main_def example_6_main_def minimal_main_def maker_main_def
      algo_proto_main_def bridge_main_def)

text \<open>
  C24: The algo prototype never fails by itself. Take a configuration file that parses and whose
  strategies have at least two instruments, the name of a spread strategy of it without zero weights,
  an order side that is one, and one gateway. Then the program starts, and if the client library
  only delivers events of the one gateway and of the markets that the configuration announced to it
  (and names the routing id of the strategy), the only way the program can end early is an
  exception of the dispatcher: no \<open>log::fatal\<close>, no failed assertion and no undefined behaviour is
  reached, in either build. (As long as the order id counter has not reached its maximum.)
\<close>

theorem Proto_main_safe:
  fixes C :: "('g, 'm, 'u) algo_cache"
  assumes "Config_new (pp_account settings) doc = Inr config"
    and "map_of (pc_strategies config) (pp_strategy settings) = Some strategy" "ac_type strategy = ''spread''"
    and "\<forall>i \<in> set (ac_instruments strategy). compare U (ai_weight i) (Fin 0) \<noteq> Equal"
    and "\<forall>x \<in> set (pc_strategies config). 2 \<le> length (ac_instruments (snd x))"
    and "side_cast (pp_side settings) \<noteq> Side_UNDEFINED" "encode 1 \<noteq> []"
    and "\<forall>e \<in> set (L (Config_algo_proto config) [arg]). legal_event (announced config) 1 (encode 1) e"
    and "\<forall>b. Bridge_new dbg U C encode [gateway] settings config = Inr b \<longrightarrow>
      (\<forall>t \<in> set (states (Bridge_step dbg U C) b (L (Config_algo_proto config) [arg])). br_max_order_id (br_core t) \<noteq> - 1)"
  shows "\<exists>b. Bridge_new dbg U C encode [gateway] settings config = Inr b \<and>
    ((\<exists>b'. algo_proto_main dbg U C encode gateway L settings doc [arg] = Inr b') \<or>
     (\<exists>x. algo_proto_main dbg U C encode gateway L settings doc [arg] = Inl (Raised x)))"
proof -
  obtain b where b: "Bridge_new dbg U C encode [gateway] settings config = Inr b"
    using Bridge_new_total [OF assms(1-4), of dbg C encode "[gateway]"] by blast
  have main: "algo_proto_main dbg U C encode gateway L settings doc [arg] =
      run (Bridge_step dbg U C) b (L (Config_algo_proto config) [arg])"
    using assms(1) b by (simp add: algo_proto_main_def trader_dispatch_def)
  show ?thesis
    using Bridge_session_safe [OF assms(1) b assms(5-7)] assms(8,9) b unfolding main by simp
qed

theorem Proto_main_safe_witness:
  "\<exists>b b' x. proto_demo_new = Inr b \<and>
     (algo_proto_main True exact_utils demo_cache (\<lambda>i. ''id'') () (\<lambda>config params. proto_demo_events) proto_demo_settings
        proto_demo_doc [''socket''] = Inr b' \<or>
      algo_proto_main True exact_utils demo_cache (\<lambda>i. ''id'') () (\<lambda>config params. proto_demo_events) proto_demo_settings
        proto_demo_doc [''socket''] = Inl (Raised x))"
proof -
  have parsed: "Config_new (pp_account proto_demo_settings) proto_demo_doc = Inr proto_demo_config"
    using proto_demo_parsed by (simp add: proto_demo_settings_def)
  obtain strategy where strategy: "map_of (pc_strategies proto_demo_config) (pp_strategy proto_demo_settings) = Some strategy"
      "ac_type strategy = ''spread''" "\<forall>i \<in> set (ac_instruments strategy). compare exact_utils (ai_weight i) (Fin 0) \<noteq> Equal"
    by (simp add: proto_demo_config_def proto_demo_settings_def exact_utils_def)
  have shape: "\<forall>x \<in> set (pc_strategies proto_demo_config). 2 \<le> length (ac_instruments (snd x))"
    "side_cast (pp_side proto_demo_settings) \<noteq> Side_UNDEFINED"
    by (simp_all add: proto_demo_config_def proto_demo_settings_def side_cast_def)
  have legal: "\<forall>e \<in> set proto_demo_events. legal_event (announced proto_demo_config) 1 ''id'' e"
    by (simp add: proto_demo_events_def proto_depth_def announced_def Config_algo_proto_def proto_demo_config_def)
  have room: "\<forall>b. Bridge_new True exact_utils demo_cache (\<lambda>i. ''id'') [()] proto_demo_settings proto_demo_config = Inr b \<longrightarrow>
      (\<forall>t \<in> set (states (Bridge_step True exact_utils demo_cache) b proto_demo_events). br_max_order_id (br_core t) \<noteq> - 1)"
    by (simp add: proto_eval)
  show ?thesis
    using Proto_main_safe [where encode = "\<lambda>i. ''id''" and L = "\<lambda>config params. proto_demo_events" and arg = "''socket''"
        and gateway = "()" and C = demo_cache and dbg = True, OF parsed strategy shape _ legal room]
    by (auto simp: proto_demo_new_def)
qed

end
