(* ===== verification/Gateway.thy ===== *)
theory Gateway
  imports Applications
begin

text \<open>
  The protocol of a gateway, as the client library documents it, and the two clients that rely on
  it: the instruments of examples 2 and 3 assert that the download of the market begins and ends in
  turn, that market data is for the instrument they were created with, and that an order update has a
  side. Shown: for every session that follows the protocol the assertions hold, also the one of the
  signal model, so the programs can only end early by a crossed book or an exception of the dispatcher.
\<close>

section \<open>The protocol\<close>

record gateway_view =
  gv_connected :: bool
  gv_downloading :: bool

definition gateway_start :: gateway_view where
  "gateway_start = \<lparr>gv_connected = False, gv_downloading = False\<rparr>"

text \<open>
  A connection is made and lost in turn. While it is there, the download of the market (the one without
  an account) begins and ends in turn, and is over when the connection is lost. Market data is for the
  instrument that was subscribed to, positions are of the account, orders have a side.
\<close>

fun gateway_step :: "string \<Rightarrow> string \<Rightarrow> string \<Rightarrow> gateway_view \<Rightarrow> 'u message \<Rightarrow> gateway_view option" where
  "gateway_step account exchange symbol g Connected =
     (if gv_connected g then None else Some (g\<lparr>gv_connected := True\<rparr>))"
| "gateway_step account exchange symbol g Disconnected = (if gv_connected g then Some gateway_start else None)"
| "gateway_step account exchange symbol g (DownloadBegin d) =
     (if db_account d \<noteq> [] then Some g
      else if gv_connected g \<and> \<not> gv_downloading g then Some (g\<lparr>gv_downloading := True\<rparr>) else None)"
| "gateway_step account exchange symbol g (DownloadEnd d) =
     (if de_account d \<noteq> [] then Some g
      else if gv_downloading g then Some (g\<lparr>gv_downloading := False\<rparr>) else None)"
| "gateway_step account exchange symbol g (ReferenceData r) =
     (if rd_exchange r = exchange \<and> rd_symbol r = symbol then Some g else None)"
| "gateway_step account exchange symbol g (MarketStatus m) =
     (if ms_exchange m = exchange \<and> ms_symbol m = symbol then Some g else None)"
| "gateway_step account exchange symbol g (MarketByPriceUpdate u) =
     (if bu_exchange u = exchange \<and> bu_symbol u = symbol then Some g else None)"
| "gateway_step account exchange symbol g (MarketByOrderUpdate u) =
     (if bu_exchange u = exchange \<and> bu_symbol u = symbol then Some g else None)"
| "gateway_step account exchange symbol g (OrderUpdate u) = (if ou_side u \<noteq> Side_UNDEFINED then Some g else None)"
| "gateway_step account exchange symbol g (PositionUpdate p) = (if pu_account p = account then Some g else None)"
| "gateway_step account exchange symbol g _ = Some g"

fun internal :: "failure \<Rightarrow> bool" where
  "internal Assertion_Failed = True"
| "internal Undefined_Behaviour = True"
| "internal _ = False"

section \<open>Example 3\<close>

definition Instrument_follows :: "'a e3_settings_scheme \<Rightarrow> gateway_view \<Rightarrow> ('b, 'o) Instrument \<Rightarrow> bool" where
  "Instrument_follows settings g i \<longleftrightarrow>
     i3_connected i = gv_connected g \<and> i3_download i = gv_downloading g \<and>
     i3_exchange i = st_exchange settings \<and> i3_symbol i = st_symbol settings \<and> i3_account i = st_account settings \<and>
     i3_allow_price_inversion i = st_allow_price_inversion settings"

text \<open>A crossed book is fatal unless the settings allow it.\<close>

definition e3_bad :: "'a e3_settings_scheme \<Rightarrow> failure \<Rightarrow> bool" where
  "e3_bad settings f \<longleftrightarrow> internal f \<or> f = Fatal \<and> st_allow_price_inversion settings"

lemma Instrument_check_ready_follows [simp]:
  "Instrument_follows settings g (Instrument_check_ready U i) = Instrument_follows settings g i"
  by (simp add: Instrument_check_ready_def Instrument_follows_def)

lemma Instrument_validate_good:
  "i3_allow_price_inversion i = st_allow_price_inversion settings \<Longrightarrow>
     result_all (\<lambda>_. True) (\<lambda>f. \<not> e3_bad settings f) (Instrument_validate U i)"
  by (simp add: Instrument_validate_def e3_bad_def Let_def)

lemma Instrument_handle_follows:
  assumes U: "updates_ok U" and inv: "Instrument_follows settings g i"
    and proto: "gateway_step (st_account settings) (st_exchange settings) (st_symbol settings) g msg = Some g'"
  shows "result_all (Instrument_follows settings g') (\<lambda>f. \<not> e3_bad settings f) (Instrument_handle dbg U B M i msg)"
proof (cases msg)
  case (MarketByPriceUpdate u)
  then show ?thesis using inv proto
    by (auto simp: machine_defs Let_def Instrument_follows_def split: if_splits
        intro!: result_all_assert result_all_bind [OF Instrument_validate_good])
next
  case (OrderUpdate u)
  then show ?thesis using inv proto
    by (cases "ou_side u") (auto simp: machine_defs Let_def Instrument_follows_def)
qed (use inv proto in \<open>auto simp: machine_defs update_bool_ok [OF U] Let_def Instrument_follows_def Instrument_check_ready_def
      Instrument_reset_def gateway_start_def split: if_splits intro!: result_all_assert\<close>)

fun e3_protocol :: "'a e3_settings_scheme \<Rightarrow> gateway_view \<Rightarrow> 'u client_event \<Rightarrow> gateway_view option" where
  "e3_protocol settings g (D, info, msg) =
     (if source info = 0 then gateway_step (st_account settings) (st_exchange settings) (st_symbol settings) g msg else Some g)"

definition Strategy3_follows :: "'m utils_scheme \<Rightarrow> 'a e3_settings_scheme \<Rightarrow> gateway_view \<Rightarrow> ('b, 'o) Strategy3 \<Rightarrow> bool" where
  "Strategy3_follows U settings g s \<longleftrightarrow> updates_ok U \<and> Instrument_follows settings g (s3_instrument s) \<and> Model_exclusive (s3_model s)"

lemma Strategy3_follows_frame [simp]:
  "Strategy3_follows U settings g (s\<lparr>s3_max_order_id := n\<rparr>) = Strategy3_follows U settings g s"
  "Strategy3_follows U settings g (s\<lparr>s3_next_sample := t\<rparr>) = Strategy3_follows U settings g s"
  "Strategy3_follows U settings g (s\<lparr>s3_working_order_id := n, s3_working_side := sd\<rparr>) = Strategy3_follows U settings g s"
  by (simp_all add: Strategy3_follows_def)

lemma Strategy3_dispatch_follows:
  assumes "Strategy3_follows U settings g s" "e3_protocol settings g (D, info, msg) = Some g'"
  shows "result_all (Strategy3_follows U settings g') (\<lambda>f. \<not> e3_bad settings f) (Strategy3_dispatch dbg U B M info s msg)"
proof (cases "source info = 0")
  case True
  have "result_all (Instrument_follows settings g') (\<lambda>f. \<not> e3_bad settings f) (Instrument_handle dbg U B M (s3_instrument s) msg)"
    using assms True by (intro Instrument_handle_follows) (simp_all add: Strategy3_follows_def)
  then show ?thesis using assms(1) True
    by (auto simp: Strategy3_dispatch_def Strategy3_follows_def elim: result_all_bind)
next
  case False
  then show ?thesis using assms by (simp add: Strategy3_dispatch_def)
qed

lemma Strategy3_send_good: "result_all (\<lambda>s'. s3_instrument s' = s3_instrument s \<and> s3_model s' = s3_model s) (\<lambda>f. \<not> e3_bad settings f) (Strategy3_send D r src s)"
  by (simp add: Strategy3_send_def e3_bad_def split: option.split)

lemma try_trade_follows:
  assumes "sd \<noteq> Side_UNDEFINED" "Strategy3_follows U settings g s"
  shows "result_all (Strategy3_follows U settings g) (\<lambda>f. \<not> e3_bad settings f) (Strategy3_try_trade dbg U settings D s sd price)"
proof -
  have keep: "result_all (Strategy3_follows U settings g) (\<lambda>f. \<not> e3_bad settings f) (Strategy3_send D r 0 t)"
    if "Strategy3_follows U settings g t" for r t
    by (rule result_all_mono [OF Strategy3_send_good]) (use that in \<open>simp add: Strategy3_follows_def\<close>)
  obtain ok where "Instrument_can_trade dbg U (s3_instrument s) sd = Inr ok"
    using assms(1) by (cases sd) (simp_all add: Instrument_can_trade_def)
  then show ?thesis using assms(2) keep
    by (auto simp: Strategy3_try_trade_def Let_def intro!: result_all_bind [OF keep])
qed

lemma on_Timer_follows:
  assumes "Strategy3_follows U settings g s"
  shows "result_all (Strategy3_follows U settings g) (\<lambda>f. \<not> e3_bad settings f) (Strategy3_on_Timer dbg U settings D s now)"
proof -
  obtain sd m where m: "Model_update dbg U (s3_model s) (i3_depth (s3_instrument s)) = Inr (sd, m)" "Model_exclusive m"
    using Model_update_total [of "s3_model s" dbg U "i3_depth (s3_instrument s)"] assms by (auto simp: Strategy3_follows_def)
  have s1: "Strategy3_follows U settings g (s\<lparr>s3_model := m\<rparr>)" "Strategy3_follows U settings g (s\<lparr>s3_model := Model_reset (s3_model s)\<rparr>)"
    using assms m(2) by (simp_all add: Strategy3_follows_def)
  have trade: "result_all (Strategy3_follows U settings g) (\<lambda>f. \<not> e3_bad settings f) (Strategy3_try_trade dbg U settings D (s\<lparr>s3_model := m\<rparr>) sd price)"
    if "sd \<noteq> Side_UNDEFINED" for price
    using try_trade_follows [OF that s1(1)] .
  have upd: "result_all (Strategy3_follows U settings g) (\<lambda>f. \<not> e3_bad settings f) (Strategy3_update_model dbg U settings D s)"
    using m(1) s1 trade by (cases sd) (simp_all add: Strategy3_update_model_def Let_def)
  have "result_all (Strategy3_follows U settings g) (\<lambda>f. \<not> e3_bad settings f)
      (if s3_next_sample s \<noteq> 0 then Strategy3_update_model dbg U settings D s else Inr s)"
    using upd assms by simp
  then show ?thesis unfolding Strategy3_on_Timer_def using assms
    by (auto elim!: result_all_bind)
qed

lemma Strategy3_step_follows:
  assumes "Strategy3_follows U settings g s" "e3_protocol settings g e = Some g'"
  shows "result_all (Strategy3_follows U settings g') (\<lambda>f. \<not> e3_bad settings f) (Strategy3_step dbg U B M settings s e)"
proof -
  obtain D info msg where e: "e = (D, info, msg)" by (cases e)
  note d = Strategy3_dispatch_follows [OF assms(1) assms(2) [unfolded e], of dbg B M]
  show ?thesis unfolding e
  proof (cases msg)
    case (Timer now)
    then show "result_all (Strategy3_follows U settings g') (\<lambda>f. \<not> e3_bad settings f) (Strategy3_step dbg U B M settings s (D, info, msg))"
      using on_Timer_follows [OF assms(1)] assms(2) e by (auto split: if_splits)
  qed (use d assms e in \<open>auto split: if_splits elim!: result_all_bind\<close>)
qed

interpretation e3_gateway: protocol_machine "Strategy3_step dbg U B M settings" "e3_protocol settings"
  "Strategy3_follows U settings" "e3_bad settings" for dbg U B M settings
  by unfold_locales (rule Strategy3_step_follows)

text \<open>A book with both sides whose best prices leave no spread; \<open>utils\<close> compares.\<close>

definition layer_crossed :: "'m utils_scheme \<Rightarrow> layer \<Rightarrow> bool" where
  "layer_crossed U l \<longleftrightarrow> \<not> is_less_or_equal U (bid_quantity l) (Fin 0) \<and> \<not> is_less_or_equal U (ask_quantity l) (Fin 0) \<and>
     is_less_or_equal U (dsub (ask_price l) (bid_price l)) (Fin 0)"

text \<open>The best layer an instrument has after an update of the book.\<close>

definition best_after :: "('b, 'u) book_ops \<Rightarrow> ('b, 'o) Instrument \<Rightarrow> 'u book_update \<Rightarrow> layer" where
  "best_after B i u = fst (book_extract B (book_apply B (i3_market_by_price i) u) (i3_depth i)) ! 0"

lemma Instrument_market_by_price_fatal:
  assumes "i3_exchange i = bu_exchange u" "i3_symbol i = bu_symbol u"
  shows "Instrument_on_MarketByPriceUpdate dbg U B i u = Inl Fatal \<longleftrightarrow>
    \<not> i3_allow_price_inversion i \<and> layer_crossed U (best_after B i u)"
  using assms
  by (auto simp: Instrument_on_MarketByPriceUpdate_def Instrument_validate_def layer_crossed_def best_after_def Let_def)

lemma Instrument_other_not_fatal:
  "\<forall>u. msg \<noteq> MarketByPriceUpdate u \<Longrightarrow> Instrument_handle dbg U B M i msg \<noteq> Inl Fatal"
  by (cases msg) (auto simp: machine_defs Let_def assert_then_def split: side.splits)

lemma on_Timer_not_fatal: "Strategy3_on_Timer dbg U settings D s now \<noteq> Inl Fatal"
proof -
  have "Strategy3_try_trade dbg U settings D t sd price \<noteq> Inl Fatal" for t sd price
    by (auto simp: Strategy3_try_trade_def Strategy3_send_def Instrument_can_trade_def assert_then_def Let_def bind_result_eq_Inl
        split: side.splits if_splits option.splits)
  moreover have "Model_update dbg U m depth \<noteq> Inl Fatal" for m depth
    by (auto simp: Model_update_def assert_then_def Let_def split: prod.splits)
  ultimately show ?thesis
    by (auto simp: Strategy3_on_Timer_def Strategy3_update_model_def Let_def bind_result_eq_Inl split: if_splits side.splits)
qed

text \<open>The only fatal error is the one on a crossed book.\<close>

lemma Strategy3_step_fatal:
  assumes "Strategy3_follows U settings g s" "e3_protocol settings g (D, info, msg) = Some g'"
  shows "Strategy3_step dbg U B M settings s (D, info, msg) = Inl Fatal \<longleftrightarrow>
    \<not> st_allow_price_inversion settings \<and> source info = 0 \<and>
    (\<exists>u. msg = MarketByPriceUpdate u \<and> layer_crossed U (best_after B (s3_instrument s) u))"
proof -
  have i: "Instrument_follows settings g (s3_instrument s)" using assms(1) by (simp add: Strategy3_follows_def)
  have d: "Strategy3_dispatch dbg U B M info s msg \<noteq> Inl Fatal" if "\<forall>u. msg \<noteq> MarketByPriceUpdate u"
    using Instrument_other_not_fatal [OF that, of dbg U B M "s3_instrument s"] by (auto simp: Strategy3_dispatch_def bind_result_eq_Inl)
  show ?thesis
  proof (cases msg)
    case (MarketByPriceUpdate u)
    show ?thesis
    proof (cases "source info = 0")
      case True
      then have "i3_exchange (s3_instrument s) = bu_exchange u" "i3_symbol (s3_instrument s) = bu_symbol u"
        using assms(2) i MarketByPriceUpdate by (auto simp: Instrument_follows_def split: if_splits)
      from Instrument_market_by_price_fatal [OF this, of dbg U B] show ?thesis
        using i MarketByPriceUpdate True by (auto simp: Strategy3_dispatch_def bind_result_eq_Inl Instrument_follows_def)
    qed (simp add: MarketByPriceUpdate Strategy3_dispatch_def)
  next
    case (Timer now)
    then show ?thesis using on_Timer_not_fatal [of dbg U settings D s now] by simp
  qed (use d in \<open>auto simp: bind_result_eq_Inl\<close>)
qed

lemma Strategy3_run_fatal:
  assumes start: "Strategy3_follows U settings g0 s0" and acc: "accepts (e3_protocol settings) g0 es = Some g"
  shows "run (Strategy3_step dbg U B M settings) s0 es = Inl Fatal \<longleftrightarrow> \<not> st_allow_price_inversion settings \<and>
    (\<exists>pre D info u post s. es = pre @ (D, info, MarketByPriceUpdate u) # post \<and> source info = 0 \<and>
       run (Strategy3_step dbg U B M settings) s0 pre = Inr s \<and> layer_crossed U (best_after B (s3_instrument s) u))"
proof -
  let ?step = "Strategy3_step dbg U B M settings"
  have fatal: "?step s (D, info, msg) = Inl Fatal \<longleftrightarrow> \<not> st_allow_price_inversion settings \<and> source info = 0 \<and>
      (\<exists>u. msg = MarketByPriceUpdate u \<and> layer_crossed U (best_after B (s3_instrument s) u))"
    if split: "es = pre @ (D, info, msg) # post" "run ?step s0 pre = Inr s" for pre D info msg post s
  proof -
    obtain h h' where h: "accepts (e3_protocol settings) g0 pre = Some h" "e3_protocol settings h (D, info, msg) = Some h'"
      using acc split(1) by (auto simp: accepts_append bind_eq_Some_conv simp del: e3_protocol.simps)
    have "Strategy3_follows U settings h s" using e3_gateway.run_sim [OF start h(1), of dbg B M] split(2) by simp
    from Strategy3_step_fatal [OF this h(2)] show ?thesis .
  qed
  show ?thesis
  proof
    assume "run ?step s0 es = Inl Fatal"
    then obtain pre D info msg post s where "es = pre @ (D, info, msg) # post" "run ?step s0 pre = Inr s"
        "?step s (D, info, msg) = Inl Fatal"
      unfolding run_eq_Inl by auto
    then show "\<not> st_allow_price_inversion settings \<and>
        (\<exists>pre D info u post s. es = pre @ (D, info, MarketByPriceUpdate u) # post \<and> source info = 0 \<and>
           run ?step s0 pre = Inr s \<and> layer_crossed U (best_after B (s3_instrument s) u))"
      using fatal by blast
  next
    assume "\<not> st_allow_price_inversion settings \<and>
        (\<exists>pre D info u post s. es = pre @ (D, info, MarketByPriceUpdate u) # post \<and> source info = 0 \<and>
           run ?step s0 pre = Inr s \<and> layer_crossed U (best_after B (s3_instrument s) u))"
    then obtain pre D info u post s where "es = pre @ (D, info, MarketByPriceUpdate u) # post" "run ?step s0 pre = Inr s"
        "?step s (D, info, MarketByPriceUpdate u) = Inl Fatal"
      using fatal by blast
    then show "run ?step s0 es = Inl Fatal" unfolding run_eq_Inl by blast
  qed
qed

section \<open>Example 2\<close>

definition Instrument2_follows :: "string \<Rightarrow> string \<Rightarrow> gateway_view \<Rightarrow> 'b Instrument2 \<Rightarrow> bool" where
  "Instrument2_follows exchange symbol g i \<longleftrightarrow>
     i2_connected i = gv_connected g \<and> i2_download i = gv_downloading g \<and> i2_exchange i = exchange \<and> i2_symbol i = symbol"

lemma Instrument2_update_model_good:
  "Instrument2_follows exchange symbol g i \<Longrightarrow>
     result_all (Instrument2_follows exchange symbol g) (\<lambda>f. \<not> internal f) (Instrument2_update_model U i)"
  by (simp add: Instrument2_update_model_def Instrument2_follows_def Let_def)

lemma Instrument2_handle_follows:
  assumes U: "updates_ok U" and inv: "Instrument2_follows exchange symbol g i"
    and proto: "gateway_step account exchange symbol g msg = Some g'"
  shows "result_all (Instrument2_follows exchange symbol g') (\<lambda>f. \<not> internal f) (Instrument2_handle dbg U B i msg)"
proof (cases msg)
  case (MarketByPriceUpdate u)
  then show ?thesis using inv proto
    by (auto simp: Instrument2_on_MarketByPriceUpdate_def Let_def split: if_splits prod.splits
        intro!: result_all_assert Instrument2_update_model_good) (simp_all add: Instrument2_follows_def)
qed (use inv proto in \<open>auto simp: Instrument2_on_GatewayStatus_def update_bool_ok [OF U] Let_def Instrument2_follows_def
      Instrument2_check_ready_def Instrument2_reset_def gateway_start_def split: if_splits intro!: result_all_assert\<close>)

text \<open>Two gateways: source 0 has the futures, source 1 the cash instrument.\<close>

fun e2_protocol :: "e2_settings \<Rightarrow> gateway_view \<times> gateway_view \<Rightarrow> 'u event \<Rightarrow> (gateway_view \<times> gateway_view) option" where
  "e2_protocol S (g0, g1) (info, msg) =
     (if source info = 0 then map_option (\<lambda>g. (g, g1)) (gateway_step [] (e2_futures_exchange S) (e2_futures_symbol S) g0 msg)
      else if source info = 1 then map_option (Pair g0) (gateway_step [] (e2_cash_exchange S) (e2_cash_symbol S) g1 msg)
      else None)"

definition Strategy2_follows :: "'m utils_scheme \<Rightarrow> e2_settings \<Rightarrow> gateway_view \<times> gateway_view \<Rightarrow> 'b Strategy2 \<Rightarrow> bool" where
  "Strategy2_follows U S g s \<longleftrightarrow> updates_ok U \<and>
     Instrument2_follows (e2_futures_exchange S) (e2_futures_symbol S) (fst g) (e2_futures s) \<and>
     Instrument2_follows (e2_cash_exchange S) (e2_cash_symbol S) (snd g) (e2_cash s)"

lemma gateway_step_unhandled: "\<not> Strategy2_handles msg \<Longrightarrow> gateway_step account exchange symbol g msg = Some g' \<Longrightarrow> g' = g"
  by (cases msg) (auto split: if_splits)

lemma Strategy2_step_follows:
  assumes inv: "Strategy2_follows U S g s" and proto: "e2_protocol S g e = Some g'"
  shows "result_all (Strategy2_follows U S g') (\<lambda>f. \<not> internal f) (Strategy2_step dbg U B s e)"
proof -
  obtain g0 g1 info msg where g: "g = (g0, g1)" and e: "e = (info, msg)" by (cases g; cases e)
  have U: "updates_ok U" using inv by (simp add: Strategy2_follows_def)
  show ?thesis
  proof (cases "source info = 0")
    case True
    then obtain h where h: "gateway_step [] (e2_futures_exchange S) (e2_futures_symbol S) g0 msg = Some h" "g' = (h, g1)"
      using proto g e by auto
    have "result_all (Instrument2_follows (e2_futures_exchange S) (e2_futures_symbol S) h) (\<lambda>f. \<not> internal f)
        (Instrument2_handle dbg U B (e2_futures s) msg)"
      by (rule Instrument2_handle_follows [OF U _ h(1)]) (use inv g in \<open>simp add: Strategy2_follows_def\<close>)
    then show ?thesis using inv g e h True gateway_step_unhandled [OF _ h(1)]
      by (auto simp: Strategy2_step_def Strategy2_dispatch_def Strategy2_follows_def elim!: result_all_bind)
  next
    case False
    then obtain h where h: "source info = 1" "gateway_step [] (e2_cash_exchange S) (e2_cash_symbol S) g1 msg = Some h" "g' = (g0, h)"
      using proto g e by (auto split: if_splits)
    have "result_all (Instrument2_follows (e2_cash_exchange S) (e2_cash_symbol S) h) (\<lambda>f. \<not> internal f)
        (Instrument2_handle dbg U B (e2_cash s) msg)"
      by (rule Instrument2_handle_follows [OF U _ h(2)]) (use inv g in \<open>simp add: Strategy2_follows_def\<close>)
    then show ?thesis using inv g e h gateway_step_unhandled [OF _ h(2)]
      by (auto simp: Strategy2_step_def Strategy2_dispatch_def Strategy2_follows_def elim!: result_all_bind)
  qed
qed

interpretation e2_gateways: protocol_machine "Strategy2_step dbg U B" "e2_protocol S" "Strategy2_follows U S" internal
  for dbg U B S
  by unfold_locales (rule Strategy2_step_follows)

section \<open>Properties\<close>

text \<open>
  C6: Example 3 only fails in the ways it means to. Given connections and a session that follows
  the protocol of the gateway (for the instrument and the account of the settings), no assertion
  fails and no undefined behaviour is reached: the program ends with the session, by an exception of
  the dispatcher, or by \<open>log::fatal\<close>. It ends by \<open>log::fatal\<close> if and only if the settings do not
  allow price inversion and an update of the market by price, handled before anything else has ended
  the program, leaves quantity on both sides of the best layer and no spread between its prices.
\<close>

theorem Example3_main_errors:
  assumes "updates_ok U" "params \<noteq> []"
    and "es = L (Config_example_3 (st_account settings) (st_exchange settings) (st_symbol settings) currencies) params"
    and "accepts (e3_protocol settings) gateway_start es = Some g"
  shows "((\<exists>s. example_3_main dbg U B M L settings currencies layer0 b o' params = Inr s) \<or>
      (\<exists>x. example_3_main dbg U B M L settings currencies layer0 b o' params = Inl (Raised x)) \<or>
      example_3_main dbg U B M L settings currencies layer0 b o' params = Inl Fatal) \<and>
    (example_3_main dbg U B M L settings currencies layer0 b o' params = Inl Fatal \<longleftrightarrow>
      \<not> st_allow_price_inversion settings \<and>
      (\<exists>pre D info u post s. es = pre @ (D, info, MarketByPriceUpdate u) # post \<and> source info = 0 \<and>
         run (Strategy3_step dbg U B M settings) (Strategy3_new settings layer0 b o') pre = Inr s \<and>
         layer_crossed U (best_after B (s3_instrument s) u)))"
proof -
  let ?step = "Strategy3_step dbg U B M settings" and ?s = "Strategy3_new settings layer0 b o'"
  have start: "Strategy3_follows U settings gateway_start ?s"
    using assms(1) by (simp add: Strategy3_follows_def Strategy3_new_def Instrument_follows_def Instrument_new_def gateway_start_def)
  have "result_all (Strategy3_follows U settings g) (\<lambda>f. \<not> e3_bad settings f) (run ?step ?s es)"
    by (rule e3_gateway.run_sim [OF start assms(4)])
  then have ends: "(\<exists>s. run ?step ?s es = Inr s) \<or> (\<exists>x. run ?step ?s es = Inl (Raised x)) \<or> run ?step ?s es = Inl Fatal"
    by (auto simp: result_all_def e3_bad_def split: sum.splits elim: internal.elims)
  moreover note Strategy3_run_fatal [OF start assms(4), of dbg B M]
  moreover have "example_3_main dbg U B M L settings currencies layer0 b o' params = run ?step ?s es"
    using assms(2,3) by (simp add: example_3_main_def trader_dispatch_def)
  ultimately show ?thesis using ends by simp
qed

text \<open>A session with a crossed book: the best bid is above the best ask.\<close>

definition demo_crossed :: "layer client_event list" where
  "demo_crossed = demo_session_start @ [(accept_all, demo_info, demo_depth 50 48)]"

lemma demo_crossed_accepted: "\<exists>g. accepts (e3_protocol demo_settings) gateway_start demo_crossed = Some g"
  by (simp add: demo_session_start_def demo_startup_def demo_info_def demo_depth_def demo_crossed_def demo_settings_def
      demo_reference_data_def gateway_start_def)

lemma demo_crossed_last:
  "\<exists>s. run (Strategy3_step True exact_utils last_book last_book demo_settings) (Strategy3_new demo_settings demo_layer None None)
      demo_session_start = Inr s \<and>
    (\<forall>u. demo_depth 50 48 = MarketByPriceUpdate u \<longrightarrow> layer_crossed exact_utils (best_after last_book (s3_instrument s) u))"
  by (simp add: demo_eval layer_crossed_def best_after_def)

theorem Example3_main_errors_witness:
  "example_3_main True exact_utils last_book last_book (\<lambda>config params. demo_crossed) demo_settings ''.*''
     demo_layer None None [''socket''] = Inl Fatal"
proof -
  obtain g where g: "accepts (e3_protocol demo_settings) gateway_start demo_crossed = Some g" using demo_crossed_accepted by blast
  obtain s where s: "run (Strategy3_step True exact_utils last_book last_book demo_settings)
      (Strategy3_new demo_settings demo_layer None None) demo_session_start = Inr s"
      "\<forall>u. demo_depth 50 48 = MarketByPriceUpdate u \<longrightarrow> layer_crossed exact_utils (best_after last_book (s3_instrument s) u)"
    using demo_crossed_last by blast
  obtain u where u: "demo_depth 50 48 = MarketByPriceUpdate u" by (simp add: demo_depth_def)
  have "demo_crossed = demo_session_start @ (accept_all, demo_info, MarketByPriceUpdate u) # []" "source demo_info = 0"
      "\<not> st_allow_price_inversion demo_settings"
    by (simp_all add: demo_crossed_def u [symmetric] demo_info_def demo_settings_def)
  then show ?thesis
    using Example3_main_errors [OF exact_utils_updates_ok, where params = "[''socket'']" and settings = demo_settings and
        L = "\<lambda>config params. demo_crossed" and es = demo_crossed and dbg = True and B = last_book and M = last_book and
        currencies = "''.*''" and ?layer0.0 = demo_layer and b = None and o' = None and g = g] g s u
    by blast
qed

text \<open>The same for example 2, with its two gateways: a crossed book is the only way to end early.\<close>

theorem Example2_main_errors:
  assumes "updates_ok U" "length params = 2"
    and "accepts (e2_protocol S) (gateway_start, gateway_start)
      (L (Config_example_2 (e2_futures_exchange S) (e2_futures_symbol S) (e2_cash_exchange S) (e2_cash_symbol S)) params) = Some g"
  shows "(\<exists>s. example_2_main dbg U B L S layer0 b0 b1 params = Inr s) \<or>
    example_2_main dbg U B L S layer0 b0 b1 params = Inl Fatal \<or>
    (\<exists>x. example_2_main dbg U B L S layer0 b0 b1 params = Inl (Raised x))"
proof -
  let ?es = "L (Config_example_2 (e2_futures_exchange S) (e2_futures_symbol S) (e2_cash_exchange S) (e2_cash_symbol S)) params"
  have "Strategy2_follows U S (gateway_start, gateway_start) (Strategy2_new S layer0 b0 b1)"
    using assms(1) by (simp add: Strategy2_follows_def Strategy2_new_def Instrument2_follows_def Instrument2_new_def gateway_start_def)
  then have "result_all (Strategy2_follows U S g) (\<lambda>f. \<not> internal f) (run (Strategy2_step dbg U B) (Strategy2_new S layer0 b0 b1) ?es)"
    by (rule e2_gateways.run_sim [OF _ assms(3)])
  moreover have "example_2_main dbg U B L S layer0 b0 b1 params = run (Strategy2_step dbg U B) (Strategy2_new S layer0 b0 b1) ?es"
    using assms(2) by (auto simp: example_2_main_def trader_dispatch_def)
  moreover have "f = Fatal \<or> (\<exists>x. f = Raised x)" if "\<not> internal f" for f using that by (cases f) auto
  ultimately show ?thesis
    by (cases "run (Strategy2_step dbg U B) (Strategy2_new S layer0 b0 b1) ?es") auto
qed

end
