(* ===== verification/Order_Protocol.thy ===== *)
theory Order_Protocol
  imports Roq_API
begin

text \<open>
  What a gateway promises a client about its orders, as the client library documents it: an
  acknowledgement answers a request that was sent, an update is about an order with a side. The view of
  the gateway is computed from the traffic alone, the requests the client sent and the messages it was
  given. The contract of a client under such an environment is the locale \<open>watched_machine\<close>.
\<close>

section \<open>Contract: a machine whose environment answers its requests\<close>

text \<open>
  The environment sees the events it delivers and the requests they cause. \<open>ok v e\<close> says that it may
  deliver \<open>e\<close>, \<open>obs v e rs\<close> is its view after \<open>e\<close> has caused the requests \<open>rs\<close>. A session is legal when
  every event of it may be delivered; its last view is then \<open>Some\<close>.
\<close>

primrec watch ::
  "('s \<Rightarrow> 'e \<Rightarrow> 's result) \<Rightarrow> ('s \<Rightarrow> 'r list) \<Rightarrow> ('v \<Rightarrow> 'e \<Rightarrow> bool) \<Rightarrow> ('v \<Rightarrow> 'e \<Rightarrow> 'r list \<Rightarrow> 'v) \<Rightarrow>
     'v \<Rightarrow> 's \<Rightarrow> 'e list \<Rightarrow> 'v option" where
  "watch step sent ok obs v s [] = Some v"
| "watch step sent ok obs v s (e # es) =
     (if ok v e then
        case step s e of
          Inl f \<Rightarrow> Some v
        | Inr s' \<Rightarrow> watch step sent ok obs (obs v e (drop (length (sent s)) (sent s'))) s' es
      else None)"

locale watched_machine =
  fixes step :: "'s \<Rightarrow> 'e \<Rightarrow> 's result"
    and sent :: "'s \<Rightarrow> 'r list"
    and ok :: "'v \<Rightarrow> 'e \<Rightarrow> bool"
    and obs :: "'v \<Rightarrow> 'e \<Rightarrow> 'r list \<Rightarrow> 'v"
    and inv :: "'v \<Rightarrow> 's \<Rightarrow> bool"
    and room :: "'s \<Rightarrow> bool"
    and bad :: "failure \<Rightarrow> bool"
  assumes step_watched: "inv v s \<Longrightarrow> room s \<Longrightarrow> ok v e \<Longrightarrow>
    result_all (\<lambda>s'. inv (obs v e (drop (length (sent s)) (sent s'))) s') (\<lambda>f. \<not> bad f) (step s e)"
begin

lemma run_watched:
  "inv v s \<Longrightarrow> \<forall>t \<in> set (states step s es). room t \<Longrightarrow> watch step sent ok obs v s es = Some v' \<Longrightarrow>
     result_all (inv v') (\<lambda>f. \<not> bad f) (run step s es)"
proof (induction es arbitrary: v s)
  case (Cons e es)
  have ok: "ok v e" using Cons.prems(3) by (simp split: if_splits)
  have now: "result_all (\<lambda>s'. inv (obs v e (drop (length (sent s)) (sent s'))) s') (\<lambda>f. \<not> bad f) (step s e)"
    using step_watched [OF Cons.prems(1) _ ok] Cons.prems(2) by simp
  show ?case
  proof (cases "step s e")
    case (Inl f)
    then show ?thesis using now by simp
  next
    case (Inr t)
    then show ?thesis using Cons.IH [of "obs v e (drop (length (sent s)) (sent t))" t] Cons.prems(2,3) now ok by simp
  qed
qed simp

end

section \<open>Orders as the gateway sees them\<close>

text \<open>
  The side every order was created with, the orders that may still be worked at the exchange, the
  requests without a final answer (oldest first), and whether the instrument has been described.
\<close>

record order_view =
  ov_side :: "u64 \<rightharpoonup> side"
  ov_live :: "u64 list"
  ov_pending :: "(u64 \<times> request_type) list"
  ov_reference :: bool

definition order_view_start :: order_view where
  "order_view_start = \<lparr>ov_side = Map.empty, ov_live = [], ov_pending = [], ov_reference = False\<rparr>"

fun view_request :: "order_view \<Rightarrow> request \<Rightarrow> order_view" where
  "view_request v (CreateOrder c) = v\<lparr>ov_side := (ov_side v)(co_order_id c \<mapsto> co_side c),
     ov_live := ov_live v @ [co_order_id c], ov_pending := ov_pending v @ [(co_order_id c, CREATE_ORDER)]\<rparr>"
| "view_request v (ModifyOrder m) = v\<lparr>ov_pending := ov_pending v @ [(mo_order_id m, MODIFY_ORDER)]\<rparr>"
| "view_request v (CancelOrder c) = v\<lparr>ov_pending := ov_pending v @ [(ca_order_id c, CANCEL_ORDER)]\<rparr>"
| "view_request v (CancelAllOrders c) = v"

text \<open>An order is gone when it was refused, when its cancellation is confirmed (a cancellation that is
  too late is for an order that is complete), or when an update says that it is complete.\<close>

definition ack_ends_order :: "'m utils_scheme \<Rightarrow> order_ack \<Rightarrow> bool" where
  "ack_ends_order U a \<longleftrightarrow>
     (if has_request_failed U (oa_request_status a)
      then oa_request_type a = CREATE_ORDER \<or> oa_request_type a = CANCEL_ORDER \<and> oa_error a = TOO_LATE_TO_MODIFY_OR_CANCEL
      else oa_request_type a = CANCEL_ORDER)"

fun view_message :: "'m utils_scheme \<Rightarrow> order_view \<Rightarrow> 'u message \<Rightarrow> order_view" where
  "view_message U v (OrderAck a) =
     (if has_request_completed U (oa_request_status a)
      then v\<lparr>ov_pending := remove1 (oa_order_id a, oa_request_type a) (ov_pending v),
             ov_live := (if ack_ends_order U a then removeAll (oa_order_id a) (ov_live v) else ov_live v)\<rparr>
      else v)"
| "view_message U v (OrderUpdate u) =
     (if is_order_complete U (ou_order_status u) then v\<lparr>ov_live := removeAll (ou_order_id u) (ov_live v)\<rparr> else v)"
| "view_message U v (ReferenceData r) = v\<lparr>ov_reference := True\<rparr>"
| "view_message U v _ = v"

fun tick_ok :: "double \<Rightarrow> bool" where
  "tick_ok (Fin x) = (0 < x \<and> x \<le> 2 ^ 1000)"
| "tick_ok _ = False"

text \<open>
  An acknowledgement has the side of its order, and a final one answers a pending request. An update
  has a side, the one of the order when the client created it, and orders are numbered from 1. The
  instrument is described, with a positive tick size far from overflow, before its prices are sent.
\<close>

fun gateway_allows :: "'m utils_scheme \<Rightarrow> order_view \<Rightarrow> 'u message \<Rightarrow> bool" where
  "gateway_allows U v (OrderAck a) =
     (ov_side v (oa_order_id a) = Some (oa_side a) \<and>
      (has_request_completed U (oa_request_status a) \<longrightarrow> (oa_order_id a, oa_request_type a) \<in> set (ov_pending v)))"
| "gateway_allows U v (OrderUpdate u) =
     (ou_side u \<noteq> Side_UNDEFINED \<and> ou_order_id u \<noteq> 0 \<and>
      (ov_side v (ou_order_id u) = None \<or> ov_side v (ou_order_id u) = Some (ou_side u)))"
| "gateway_allows U v (ReferenceData r) = tick_ok (rd_tick_size r)"
| "gateway_allows U v (TopOfBook t) = ov_reference v"
| "gateway_allows U v _ = True"

text \<open>Two more things a client may need: no request is refused (a cancellation may be too late), and an
  order does not become complete while a request about it has no answer yet.\<close>

fun not_refused :: "'m utils_scheme \<Rightarrow> 'u message \<Rightarrow> bool" where
  "not_refused U (OrderAck a) =
     (has_request_failed U (oa_request_status a) \<longrightarrow> oa_error a = TOO_LATE_TO_MODIFY_OR_CANCEL)"
| "not_refused U _ = True"

fun no_race :: "'m utils_scheme \<Rightarrow> order_view \<Rightarrow> 'u message \<Rightarrow> bool" where
  "no_race U v (OrderUpdate u) =
     (is_order_complete U (ou_order_status u) \<longrightarrow> ou_order_id u \<notin> fst ` set (ov_pending v))"
| "no_race U v _ = True"

definition orderly :: "'m utils_scheme \<Rightarrow> order_view \<Rightarrow> 'u client_event \<Rightarrow> bool" where
  "orderly U v e = (case e of (D, info, msg) \<Rightarrow> gateway_allows U v msg \<and> not_refused U msg \<and> no_race U v msg)"

definition view_step :: "'m utils_scheme \<Rightarrow> order_view \<Rightarrow> 'u client_event \<Rightarrow> request list \<Rightarrow> order_view" where
  "view_step U v e rs = (case e of (D, info, msg) \<Rightarrow> foldl view_request (view_message U v msg) rs)"

text \<open>The requests without an answer and the orders that may be worked, of one side.\<close>

definition side_pending :: "order_view \<Rightarrow> side \<Rightarrow> (u64 \<times> request_type) list" where
  "side_pending v sd = filter (\<lambda>(i, t). ov_side v i = Some sd) (ov_pending v)"

definition side_live :: "order_view \<Rightarrow> side \<Rightarrow> u64 list" where
  "side_live v sd = filter (\<lambda>i. ov_side v i = Some sd) (ov_live v)"

text \<open>Every order of the view is known, with an id up to \<open>n\<close>.\<close>

definition view_below :: "u64 \<Rightarrow> order_view \<Rightarrow> bool" where
  "view_below n v \<longleftrightarrow> (\<forall>i \<in> dom (ov_side v). i \<le> n) \<and> set (ov_live v) \<subseteq> dom (ov_side v) \<and>
     fst ` set (ov_pending v) \<subseteq> dom (ov_side v)"

definition view_sides :: "order_view \<Rightarrow> bool" where
  "view_sides v \<longleftrightarrow> ran (ov_side v) \<subseteq> {BUY, SELL}"

section \<open>How a view changes\<close>

lemma side_cong:
  "\<forall>i \<in> fst ` set (ov_pending v). ov_side w i = ov_side v i \<Longrightarrow> ov_pending w = ov_pending v \<Longrightarrow>
     side_pending w sd = side_pending v sd"
  "\<forall>i \<in> set (ov_live v). ov_side w i = ov_side v i \<Longrightarrow> ov_live w = ov_live v \<Longrightarrow> side_live w sd = side_live v sd"
  by (auto simp: side_pending_def side_live_def intro!: filter_cong)

lemma view_create:
  assumes "view_below n v" "n < co_order_id c"
  shows "side_pending (view_request v (CreateOrder c)) sd =
      side_pending v sd @ (if co_side c = sd then [(co_order_id c, CREATE_ORDER)] else [])"
    and "side_live (view_request v (CreateOrder c)) sd =
      side_live v sd @ (if co_side c = sd then [co_order_id c] else [])"
    and "view_below (co_order_id c) (view_request v (CreateOrder c))"
    and "ov_side v \<subseteq>\<^sub>m ov_side (view_request v (CreateOrder c))"
proof -
  have new: "co_order_id c \<notin> dom (ov_side v)" using assms by (force simp: view_below_def)
  then have "i \<noteq> co_order_id c" if "i \<in> set (ov_live v) \<or> i \<in> fst ` set (ov_pending v)" for i
    using assms(1) that by (auto simp: view_below_def)
  then show "side_pending (view_request v (CreateOrder c)) sd =
      side_pending v sd @ (if co_side c = sd then [(co_order_id c, CREATE_ORDER)] else [])"
    and "side_live (view_request v (CreateOrder c)) sd = side_live v sd @ (if co_side c = sd then [co_order_id c] else [])"
    by (force simp: side_pending_def side_live_def intro!: filter_cong)+
  have le: "i \<le> co_order_id c" if "ov_side v i = Some y" for i y
    using assms that by (auto simp: view_below_def dest!: bspec [of _ _ i])
  show "view_below (co_order_id c) (view_request v (CreateOrder c))"
    using assms(1) le by (auto simp: view_below_def)
  show "ov_side v \<subseteq>\<^sub>m ov_side (view_request v (CreateOrder c))"
    using new by (auto simp: map_le_def)
qed

lemma view_cancel:
  assumes "ov_side v (ca_order_id c) = Some sd'"
  shows "side_pending (view_request v (CancelOrder c)) sd =
      side_pending v sd @ (if sd' = sd then [(ca_order_id c, CANCEL_ORDER)] else [])"
    and "side_live (view_request v (CancelOrder c)) sd = side_live v sd"
    and "view_below n v \<Longrightarrow> view_below n (view_request v (CancelOrder c))"
  using assms by (auto simp: side_pending_def side_live_def view_below_def)

lemma view_ack:
  assumes "ov_side v (oa_order_id a) = Some sd'" "has_request_completed U (oa_request_status a)"
  shows "side_pending (view_message U v (OrderAck a)) sd =
      (if sd' = sd then remove1 (oa_order_id a, oa_request_type a) (side_pending v sd) else side_pending v sd)"
    and "side_live (view_message U v (OrderAck a)) sd =
      (if ack_ends_order U a then removeAll (oa_order_id a) (side_live v sd) else side_live v sd)"
  using assms
  by (auto simp: side_pending_def side_live_def filter_remove1 remove1_idem removeAll_filter_not_eq conj_commute)

lemma view_update:
  "side_pending (view_message U v (OrderUpdate u)) sd = side_pending v sd"
  "is_order_complete U (ou_order_status u) \<Longrightarrow>
     side_live (view_message U v (OrderUpdate u)) sd = removeAll (ou_order_id u) (side_live v sd)"
  by (auto simp: side_pending_def side_live_def removeAll_filter_not_eq conj_commute)

lemma view_message_below:
  "view_below n v \<Longrightarrow> view_below n (view_message U v msg)" "ov_side (view_message U v msg) = ov_side v"
proof -
  have "\<exists>sd. ov_side v i = Some sd" if "view_below n v" "(i, t) \<in> set (remove1 x (ov_pending v))" for i t x
    using that set_remove1_subset [of x "ov_pending v"] by (force simp: view_below_def)
  then show "view_below n (view_message U v msg)" if "view_below n v"
    using that by (cases msg) (auto simp: view_below_def)
  show "ov_side (view_message U v msg) = ov_side v" by (cases msg) auto
qed

lemma side_set:
  "i \<in> set (side_live v sd) \<longleftrightarrow> i \<in> set (ov_live v) \<and> ov_side v i = Some sd"
  "(i, t) \<in> set (side_pending v sd) \<longleftrightarrow> (i, t) \<in> set (ov_pending v) \<and> ov_side v i = Some sd"
  by (auto simp: side_live_def side_pending_def)

end
