(* ===== verification/Maker_Exchange.thy ===== *)
theory Maker_Exchange
  imports Applications Order_Protocol
begin

text \<open>
  The market maker together with the gateway it trades through. Shown: while the gateway answers its
  requests in an orderly way the program has no fatal error, and each side has at most one
  order at the exchange; and what goes wrong when an order is filled while a request about it has no
  answer yet.
\<close>

section \<open>A quote and the view the gateway has of its side\<close>

text \<open>The rounding of a number is a number.\<close>

definition round_away_number :: "'m maker_utils_scheme \<Rightarrow> bool" where
  "round_away_number U \<longleftrightarrow> (\<forall>sd p t. \<not> isnan p \<and> tick_ok t \<longrightarrow> \<not> isnan (round_away U sd p t))"

fun quote_pending :: "quote_state \<Rightarrow> u64 \<Rightarrow> (u64 \<times> request_type) list" where
  "quote_pending Quote_CREATE i = [(i, CREATE_ORDER)]"
| "quote_pending Quote_CANCEL i = [(i, CANCEL_ORDER)]"
| "quote_pending _ i = []"

text \<open>
  The requests of a side without an answer are those the state of its quote says, and its only order
  at the exchange is the one of the quote (whose id is forgotten on a disconnect).
\<close>

definition quote_matches :: "order_view \<Rightarrow> side \<Rightarrow> Quote \<Rightarrow> bool" where
  "quote_matches v sd q \<longleftrightarrow> mq_state q \<noteq> Quote_MODIFY \<and> (mq_update_order q \<longrightarrow> \<not> isnan (mq_target_price q)) \<and>
     (mq_order_id q \<noteq> 0 \<longrightarrow> ov_side v (mq_order_id q) = Some sd) \<and>
     (\<exists>i. (mq_order_id q = 0 \<or> mq_order_id q = i) \<and> side_pending v sd = quote_pending (mq_state q) i \<and>
        (side_live v sd = [] \<or> side_live v sd = [i] \<and> mq_state q \<noteq> Quote_UNDEFINED))"

definition same_side :: "order_view \<Rightarrow> order_view \<Rightarrow> side \<Rightarrow> bool" where
  "same_side v w sd \<longleftrightarrow> ov_side v \<subseteq>\<^sub>m ov_side w \<and> side_pending w sd = side_pending v sd \<and> side_live w sd = side_live v sd"

lemma same_side_refl [simp]: "same_side v v sd"
  by (simp add: same_side_def)

lemma quote_matches_same:
  "quote_matches v sd q \<Longrightarrow> same_side v w sd \<Longrightarrow> quote_matches w sd q"
  by (auto simp: quote_matches_def same_side_def map_le_def dom_def)

text \<open>What a timer does to a quote, its requests as the gateway sees them.\<close>

definition quote_timer_ok :: "order_view \<Rightarrow> maker_shared \<Rightarrow> Quote \<Rightarrow> maker_shared \<times> Quote \<Rightarrow> bool" where
  "quote_timer_ok v sh q st' \<longleftrightarrow> (case st' of (sh', q') \<Rightarrow> \<exists>new. mk_sent sh' = mk_sent sh @ new \<and>
     (let w = foldl view_request v (map (\<lambda>(t, r, src). r) new) in
      quote_matches w (mq_side q) q' \<and> view_below (mk_max_order_id sh') w \<and> view_sides w \<and>
      ov_reference w = ov_reference v \<and>
      (\<forall>sd. sd \<noteq> mq_side q \<longrightarrow> same_side v w sd)))"

lemma quote_timer_good:
  assumes U: "maker_updates_ok U" and q: "quote_matches v (mq_side q) q" "Quote_inv q" "mq_side q \<in> {BUY, SELL}"
    and v: "view_below (mk_max_order_id sh) v" "view_sides v" "mk_max_order_id sh < mk_max_order_id sh + 1"
  shows "result_all (quote_timer_ok v sh q) (\<lambda>f. \<exists>x. f = Raised x) (Quote_on_Timer dbg U D now (sh, q))"
proof (cases "Quote_on_Timer dbg U D now (sh, q)")
  case (Inl f)
  have "f \<noteq> Fatal \<and> f \<noteq> Undefined_Behaviour"
    using Inl q by (auto simp: Quote_on_Timer_def machine_defs Let_def assert_then_def bind_result_eq_Inl quote_matches_def
        split: quote_state.splits if_splits sum.splits option.splits)
  then show ?thesis using Quote_timer_safe [OF U Inl q(2) v(3)] Inl by (cases f) simp_all
next
  case (Inr st')
  obtain sh' q' where st': "st' = (sh', q')" by (cases st')
  consider "quote_idle (sh, q) st'" | "quote_creates now (sh, q) st'" | "quote_cancels now (sh, q) st'"
    using Quote_on_Timer_cases [OF U Inr] by blast
  then have "quote_timer_ok v sh q st'"
  proof cases
    case 1
    then show ?thesis using q v by (auto simp: quote_timer_ok_def quote_idle_def quote_matches_def)
  next
    case 2
    define c where "c = Quote_order q (mk_max_order_id sh + 1)"
    have c: "co_order_id c = mk_max_order_id sh + 1" "co_side c = mq_side q" by (simp_all add: c_def Quote_order_def)
    note new = view_create [OF v(1), of c, unfolded c, OF v(3)]
    have "quote_matches (view_request v (CreateOrder c)) (mq_side q) q'"
      using 2 q(1) st' new(1,2) c by (auto simp: quote_creates_def quote_matches_def)
    moreover have "view_sides (view_request v (CreateOrder c))"
      using v(2) q(3) c by (auto simp: view_sides_def ran_def)
    moreover have "same_side v (view_request v (CreateOrder c)) sd" if "sd \<noteq> mq_side q" for sd
      using new that by (auto simp: same_side_def)
    ultimately show ?thesis using 2 new(3) c by (auto simp: quote_timer_ok_def quote_creates_def st' c_def)
  next
    case 3
    define c where "c = \<lparr>ca_account = MAKER_ACCOUNT, ca_order_id = mq_order_id q, ca_routing_id = []\<rparr>"
    have side: "ov_side v (ca_order_id c) = Some (mq_side q)" using 3 q(1) st' by (simp add: quote_cancels_def quote_matches_def c_def)
    note new = view_cancel [OF side]
    have "quote_matches (view_request v (CancelOrder c)) (mq_side q) q'"
      using 3 q(1) st' new(1,2) by (auto simp: quote_cancels_def quote_matches_def c_def)
    moreover have "same_side v (view_request v (CancelOrder c)) sd" if "sd \<noteq> mq_side q" for sd
      using new that by (auto simp: same_side_def)
    ultimately show ?thesis using 3 new(3) [OF v(1)] v(2)
      by (auto simp: quote_timer_ok_def quote_cancels_def st' c_def view_sides_def)
  qed
  then show ?thesis using Inr by simp
qed

text \<open>An acknowledgement the gateway may send finds the quote in the state that waits for it.\<close>

lemma quote_ack_good:
  assumes U: "maker_updates_ok U" and q: "quote_matches v sd q"
    and a: "gateway_allows U v (OrderAck a)" "not_refused U (OrderAck a)" "ov_side v (oa_order_id a) = Some sd"
  shows "result_all (quote_matches (view_message U v (OrderAck a)) sd) (\<lambda>_. False) (Quote_on_OrderAck U a q)"
proof (cases "has_request_completed U (oa_request_status a)")
  case True
  then have p: "(oa_order_id a, oa_request_type a) \<in> set (side_pending v sd)" using a by (simp add: side_set)
  obtain i where i: "mq_order_id q = 0 \<or> mq_order_id q = i" "side_pending v sd = quote_pending (mq_state q) i"
      "side_live v sd = [] \<or> side_live v sd = [i] \<and> mq_state q \<noteq> Quote_UNDEFINED"
    using q by (auto simp: quote_matches_def)
  note w = view_ack [OF a(3) True, of sd]
  from p i consider "mq_state q = Quote_CREATE" "oa_order_id a = i" "oa_request_type a = CREATE_ORDER"
    | "mq_state q = Quote_CANCEL" "oa_order_id a = i" "oa_request_type a = CANCEL_ORDER"
    by (cases "mq_state q") auto
  then show ?thesis
  proof cases
    case 1
    then show ?thesis using a q i True w
      by (auto simp: Quote_on_OrderAck_def Quote_set_state_ok [OF U] quote_matches_def)
  next
    case 2
    then have "ack_ends_order U a" using a(2) by (simp add: ack_ends_order_def)
    then show ?thesis using 2 a q i True w
      by (auto simp: Quote_on_OrderAck_def Quote_set_state_ok [OF U] quote_matches_def)
  qed
next
  case False
  then show ?thesis using a(2) q by (simp add: Quote_on_OrderAck_def)
qed

lemma quote_update_good:
  assumes U: "maker_updates_ok U" and q: "quote_matches v sd q"
    and u: "gateway_allows U v (OrderUpdate u)" "no_race U v (OrderUpdate u)" and w: "w = view_message U v (OrderUpdate u)"
  shows "quote_matches w sd (snd (Quote_on_OrderUpdate U u (sh, q)))" and "quote_matches w sd q"
proof -
  obtain i where i: "mq_order_id q = 0 \<or> mq_order_id q = i" "side_pending v sd = quote_pending (mq_state q) i"
      "side_live v sd = [] \<or> side_live v sd = [i] \<and> mq_state q \<noteq> Quote_UNDEFINED"
    using q by (auto simp: quote_matches_def)
  have sides: "ov_side w = ov_side v" unfolding w by (rule view_message_below)
  have pend: "side_pending w sd = side_pending v sd" unfolding w by (rule view_update)
  have live: "side_live w sd = (if is_order_complete U (ou_order_status u) then removeAll (ou_order_id u) (side_live v sd) else side_live v sd)"
    unfolding w by (simp add: view_update del: view_message.simps) simp
  then have shrink: "side_live w sd = side_live v sd \<or> side_live w sd = []" using i(3) by auto
  show keep: "quote_matches w sd q"
    using q sides pend shrink by (auto simp: quote_matches_def)
  show "quote_matches w sd (snd (Quote_on_OrderUpdate U u (sh, q)))"
  proof (cases "ou_update_type u = INCREMENTAL \<and> is_order_complete U (ou_order_status u) \<and> mq_order_id q = ou_order_id u")
    case True
    then have own: "mq_order_id q = i" "ou_order_id u = i" "is_order_complete U (ou_order_status u)" using i(1) u(1) by auto
    then have "i \<notin> fst ` set (side_pending v sd)" using u(2) by (auto simp: side_set)
    then have "side_pending v sd = []" using i(2) by (cases "mq_state q") auto
    moreover have "side_live w sd = []" using live own i(3) by auto
    ultimately show ?thesis using True q sides pend
      by (auto simp: Quote_on_OrderUpdate_def Quote_set_state_ok [OF U] quote_matches_def Let_def)
  next
    case False
    then show ?thesis using keep by (auto simp: Quote_on_OrderUpdate_def Let_def)
  qed
qed

lemma quote_target_good:
  assumes "update_double_law (update_double U)" "quote_matches v sd q" "\<not> isnan price"
  shows "quote_matches v sd (snd (Quote_update_target_price U q price))"
  using assms(2,3) update_double_lawD [OF assms(1), of "mq_target_price q" price]
  by (auto simp: Quote_update_target_price_def quote_matches_def)

lemma target_prices_good:
  assumes "round_away_number U" "tick_ok (mk_tick_size m)" "\<not> isnan (mk_mid_price m)"
    and "Maker_target_prices U m = (bid, ask)"
  shows "\<not> isnan bid \<and> \<not> isnan ask"
proof -
  obtain t where t: "mk_tick_size m = Fin t" "0 < t" "t \<le> 2 ^ 1000" using assms(2) by (cases "mk_tick_size m") auto
  obtain h where h: "dmul (dmul (Fin (1/2)) SPREAD) (Fin t) = Fin h"
    using to_double_bound [of "3 / 4 * t" 1000] t(2,3) by (auto simp: SPREAD_def)
  have num: "\<not> isnan (dadd x (Fin y))" "\<not> isnan (dsub x (Fin y))" if "\<not> isnan x" for x y
    using that by (cases x; simp add: isnan_iff dsub_def)+
  define skew where "skew = (if is_zero U (mk_position (mk_shared m)) then Fin 0
    else if dlt (mk_position (mk_shared m)) (Fin 0) then Fin t else dneg (Fin t))"
  obtain k where k: "skew = Fin k"
    by (cases "is_zero U (mk_position (mk_shared m))"; cases "dlt (mk_position (mk_shared m)) (Fin 0)") (auto simp: skew_def)
  have "bid = round_away U BUY (dsub (dadd (mk_mid_price m) (Fin k)) (Fin h)) (Fin t)"
      "ask = round_away U SELL (dadd (dadd (mk_mid_price m) (Fin k)) (Fin h)) (Fin t)"
    using assms(4) unfolding Maker_target_prices_def Let_def t(1) h skew_def [symmetric] k by simp_all
  then show ?thesis using assms(1,3) t num by (simp add: round_away_number_def)
qed

section \<open>The strategy and the view of the gateway\<close>

definition maker_sent :: "Maker \<Rightarrow> request list" where
  "maker_sent m = map (\<lambda>(t, r, src). r) (maker_requests m)"

definition maker_matches :: "'m maker_utils_scheme \<Rightarrow> order_view \<Rightarrow> Maker \<Rightarrow> bool" where
  "maker_matches U v m \<longleftrightarrow> maker_updates_ok U \<and> round_away_number U \<and> Maker_inv m \<and>
     view_below (maker_high m) v \<and> view_sides v \<and>
     (tick_ok (mk_tick_size m) \<or> mk_tick_size m = NaN \<and> \<not> ov_reference v) \<and>
     quote_matches v BUY (mk_bid m) \<and> quote_matches v SELL (mk_ask m)"

lemma maker_timer_good:
  assumes inv: "maker_matches U v m" and room: "maker_room m"
  shows "result_all (\<lambda>m'. maker_matches U (foldl view_request v (drop (length (maker_sent m)) (maker_sent m'))) m')
    (\<lambda>f. \<exists>x. f = Raised x) (Maker_on_Timer dbg U D now m)"
proof (cases "Maker_can_trade m")
  case True
  note U = inv [unfolded maker_matches_def, THEN conjunct1] and less = room_less [OF room]
  have i: "Maker_inv m" "view_below (maker_high m) v" "view_sides v" "tick_ok (mk_tick_size m) \<or> mk_tick_size m = NaN \<and> \<not> ov_reference v"
      "quote_matches v BUY (mk_bid m)" "quote_matches v SELL (mk_ask m)" "round_away_number U"
    using inv by (simp_all add: maker_matches_def)
  then have q: "Quote_inv (mk_bid m)" "Quote_inv (mk_ask m)" "mq_side (mk_bid m) = BUY" "mq_side (mk_ask m) = SELL"
    by (simp_all add: Maker_inv_def)
  have bid: "result_all (quote_timer_ok v (mk_shared m) (mk_bid m)) (\<lambda>f. \<exists>x. f = Raised x)
      (Quote_on_Timer dbg U D now (mk_shared m, mk_bid m))"
    using quote_timer_good [OF U] i q less by simp
  show ?thesis
  proof (cases "Quote_on_Timer dbg U D now (mk_shared m, mk_bid m)")
    case (Inl f)
    then show ?thesis using bid True by (simp add: Maker_on_Timer_def Maker_with_quote_def)
  next
    case bid': (Inr st1)
    obtain sh1 q1 where st1: "st1 = (sh1, q1)" by (cases st1)
    obtain new1 where new1: "mk_sent sh1 = maker_requests m @ new1" using bid bid' st1 by (auto simp: quote_timer_ok_def)
    define w where "w = foldl view_request v (map (\<lambda>(t, r, src). r) new1)"
    have w: "quote_matches w BUY q1" "view_below (mk_max_order_id sh1) w" "view_sides w" "ov_reference w = ov_reference v"
        "same_side v w SELL"
      using bid bid' st1 new1 q by (auto simp: quote_timer_ok_def w_def Let_def)
    have less1: "mk_max_order_id sh1 < mk_max_order_id sh1 + 1"
      using Quote_on_Timer_cases [OF U bid'] st1 less by (auto simp: quote_actions)
    have ask: "result_all (quote_timer_ok w sh1 (mk_ask m)) (\<lambda>f. \<exists>x. f = Raised x)
        (Quote_on_Timer dbg U D now (sh1, mk_ask m))"
      using quote_timer_good [OF U] quote_matches_same [OF i(6) w(5)] q w less1 by simp
    show ?thesis
    proof (cases "Quote_on_Timer dbg U D now (sh1, mk_ask m)")
      case (Inl f)
      then show ?thesis using ask bid' st1 True by (simp add: Maker_on_Timer_def Maker_with_quote_def)
    next
      case ask': (Inr st2)
      obtain sh2 q2 where st2: "st2 = (sh2, q2)" by (cases st2)
      obtain new2 where new2: "mk_sent sh2 = mk_sent sh1 @ new2" using ask ask' st2 by (auto simp: quote_timer_ok_def)
      define x where "x = foldl view_request w (map (\<lambda>(t, r, src). r) new2)"
      have x: "quote_matches x SELL q2" "view_below (mk_max_order_id sh2) x" "view_sides x" "ov_reference x = ov_reference v"
          "same_side w x BUY"
        using ask ask' st2 new2 q w(4) by (auto simp: quote_timer_ok_def x_def Let_def)
      define m' where "m' = m\<lparr>mk_shared := sh2, mk_bid := q1, mk_ask := q2\<rparr>"
      have step: "Maker_on_Timer dbg U D now m = Inr m'"
        using bid' ask' st1 st2 True by (simp add: Maker_on_Timer_def Maker_with_quote_def m'_def)
      have "Maker_inv m'" using Maker_step_inv [OF U i(1), of dbg D "\<lparr>source = 0, receive_time = 0, origin_create_time = now\<rparr>" "Timer 0 :: unit message" m'] step by simp
      moreover have "foldl view_request v (drop (length (maker_sent m)) (maker_sent m')) = x"
        by (simp add: maker_sent_def m'_def new1 new2 x_def w_def)
      ultimately show ?thesis using step x i U quote_matches_same [OF w(1) x(5)]
        by (simp only: result_all_simps) (simp add: maker_matches_def m'_def)
    qed
  qed
qed (use inv in \<open>simp add: Maker_on_Timer_def\<close>)

lemma maker_ready_good:
  assumes "maker_matches U v m"
  shows "result_all (\<lambda>m'. maker_matches U (foldl view_request v (drop (length (maker_sent m)) (maker_sent m'))) m')
    (\<lambda>f. \<exists>x. f = Raised x) (Maker_on_Ready U D now m)"
proof (cases "Maker_on_Ready U D now m")
  case (Inl f)
  then show ?thesis by (auto simp: Maker_on_Ready_def Maker_cancel_all_orders_def Shared_send_def split: option.splits)
next
  case (Inr m')
  have "maker_updates_ok U" using assms by (simp add: maker_matches_def)
  from ready_sends [OF this Inr] show ?thesis unfolding Inr using assms
    by (simp add: maker_sent_def maker_matches_def Maker_inv_def)
qed

text \<open>The quote of a side is handled, the other one is not touched.\<close>

lemma maker_ack_good:
  assumes inv: "maker_matches U v m" and a: "gateway_allows U v (OrderAck a)" "not_refused U (OrderAck a)"
    and w: "w = view_message U v (OrderAck a)"
  shows "result_all (\<lambda>m'. quote_matches w BUY (mk_bid m') \<and> quote_matches w SELL (mk_ask m') \<and>
      mk_shared m' = mk_shared m \<and> mk_tick_size m' = mk_tick_size m) (\<lambda>_. False)
    (Maker_with_quote (oa_side a) (\<lambda>(sh, q). bind_result (Quote_on_OrderAck U a q) (\<lambda>q'. Inr (sh, q'))) m)"
proof -
  have U: "maker_updates_ok U" and q: "quote_matches v BUY (mk_bid m)" "quote_matches v SELL (mk_ask m)"
    using inv by (simp_all add: maker_matches_def)
  have side: "ov_side v (oa_order_id a) = Some (oa_side a)" using a(1) by simp
  have other: "same_side v w sd" if "sd \<noteq> oa_side a" for sd
  proof (cases "has_request_completed U (oa_request_status a)")
    case True
    have "oa_order_id a \<notin> set (side_live v sd)" using side that by (simp add: side_set)
    then show ?thesis using that view_ack [OF side True, of sd] by (simp add: w same_side_def removeAll_id del: view_message.simps)
        (simp add: True)
  qed (simp add: w)
  have ok: "\<exists>q'. Quote_on_OrderAck U a q = Inr q' \<and> quote_matches w (oa_side a) q'" if "quote_matches v (oa_side a) q" for q
    using quote_ack_good [OF U that a side] by (cases "Quote_on_OrderAck U a q") (simp_all add: w del: view_message.simps)
  consider "oa_side a = BUY" | "oa_side a = SELL"
    using side inv by (auto simp: maker_matches_def view_sides_def dest: ranI)
  then show ?thesis
  proof cases
    case 1
    then show ?thesis using ok [of "mk_bid m"] q quote_matches_same [OF q(2) other] by (auto simp: Maker_with_quote_def)
  next
    case 2
    then show ?thesis using ok [of "mk_ask m"] q quote_matches_same [OF q(1) other] by (auto simp: Maker_with_quote_def)
  qed
qed

lemma maker_update_good:
  assumes inv: "maker_matches U v m" and u: "gateway_allows U v (OrderUpdate u)" "no_race U v (OrderUpdate u)"
    and w: "w = view_message U v (OrderUpdate u)"
  shows "result_all (\<lambda>m'. quote_matches w BUY (mk_bid m') \<and> quote_matches w SELL (mk_ask m') \<and>
      maker_high m' = maker_high m \<and> maker_requests m' = maker_requests m \<and> mk_tick_size m' = mk_tick_size m) (\<lambda>_. False)
    (Maker_with_quote (ou_side u) (\<lambda>st. Inr (Quote_on_OrderUpdate U u st)) m)"
proof -
  have U: "maker_updates_ok U" and q: "quote_matches v BUY (mk_bid m)" "quote_matches v SELL (mk_ask m)"
    using inv by (simp_all add: maker_matches_def)
  have keep: "mk_max_order_id (fst (Quote_on_OrderUpdate U u st)) = mk_max_order_id (fst st)"
      "mk_sent (fst (Quote_on_OrderUpdate U u st)) = mk_sent (fst st)" for st
    by (simp_all add: Quote_on_OrderUpdate_def Let_def split: prod.split)
  show ?thesis
    using u(1) quote_update_good [OF U q(1) u w] quote_update_good [OF U q(2) u w] keep
    by (cases "ou_side u") (simp_all add: Maker_with_quote_def case_prod_beta)
qed

lemma maker_prices_good:
  assumes inv: "maker_matches U v m" and ref: "ov_reference v"
  shows "maker_matches U v (Maker_on_TopOfBook U t m)"
proof -
  have U: "maker_updates_ok U" "update_double_law (update_double U)" and r: "round_away_number U" "tick_ok (mk_tick_size m)"
    using inv ref by (simp_all add: maker_matches_def maker_updates_ok_def updates_ok_def)
  have good: "maker_matches U v (Maker_update_quotes U n)"
    if n: "maker_matches U v n" "mk_tick_size n = mk_tick_size m" for n
  proof (cases "isnan (mk_mid_price n)")
    case False
    obtain b a where ba: "Maker_target_prices U n = (b, a)" by (cases "Maker_target_prices U n")
    have "\<not> isnan b \<and> \<not> isnan a" using target_prices_good [OF r(1) _ False ba] n(2) r(2) by simp
    then show ?thesis using n(1) ba False quote_target_good [OF U(2)]
      by (auto simp: maker_matches_def Maker_update_quotes_def Maker_inv_def Quote_inv_def)
  qed (use n in \<open>simp add: Maker_update_quotes_def\<close>)
  have mid: "maker_matches U v (m\<lparr>mk_mid_price := p\<rparr>)" for p
    using inv by (simp add: maker_matches_def Maker_inv_def)
  show ?thesis using good [OF mid] mid inv by (auto simp: Maker_on_TopOfBook_def Let_def split: prod.split)
qed

lemma maker_reference_good:
  assumes inv: "maker_matches U v m" and r: "tick_ok (rd_tick_size r)"
  shows "maker_matches U (v\<lparr>ov_reference := True\<rparr>) (Maker_on_ReferenceData U r m)"
proof -
  have "tick_ok (snd (update_double U (mk_tick_size m) (rd_tick_size r)))"
  proof -
    have law: "update_double_law (update_double U)" and t: "tick_ok (mk_tick_size m) \<or> mk_tick_size m = NaN"
      using inv by (auto simp: maker_matches_def maker_updates_ok_def updates_ok_def)
    obtain x where x: "rd_tick_size r = Fin x" using r by (cases "rd_tick_size r") simp_all
    have "update_double U NaN (Fin x) = (True, Fin x)" using law by (simp add: update_double_law_def)
    then show ?thesis using update_double_lawD [OF law, of "mk_tick_size m" "Fin x"] t r x by auto
  qed
  then show ?thesis using inv
    by (simp add: Maker_on_ReferenceData_def maker_matches_def Maker_inv_def quote_matches_def view_below_def view_sides_def
        side_pending_def side_live_def)
qed

lemma maker_step_good:
  assumes inv: "maker_matches U v m" and room: "maker_room m" and e: "orderly U v e"
  shows "result_all (\<lambda>m'. maker_matches U (view_step U v e (drop (length (maker_sent m)) (maker_sent m'))) m')
    (\<lambda>f. \<exists>x. f = Raised x) (Maker_step dbg U m e)"
proof -
  obtain D info msg where ee: "e = (D, info, msg)" by (cases e)
  have ok: "gateway_allows U v msg" "not_refused U msg" "no_race U v msg" using e by (simp_all add: orderly_def ee)
  have U: "maker_updates_ok U" and minv: "Maker_inv m" and below: "view_below (maker_high m) v"
    using inv by (simp_all add: maker_matches_def)
  have quiet: "result_all (\<lambda>m'. maker_matches U (view_step U v e (drop (length (maker_sent m)) (maker_sent m'))) m')
      (\<lambda>f. \<exists>x. f = Raised x) (Maker_step dbg U m e)"
    if "maker_requests m' = maker_requests m" "maker_matches U (view_message U v msg) m'" "Maker_step dbg U m e = Inr m'" for m'
    using that by (simp add: ee view_step_def maker_sent_def)
  have sides: "view_sides (view_message U v msg)" "view_below (maker_high m) (view_message U v msg)"
    using inv by (simp_all add: maker_matches_def view_sides_def view_message_below)
  show ?thesis
  proof (cases msg)
    case (Timer t)
    then show ?thesis using maker_timer_good [OF inv room] by (simp add: ee view_step_def)
  next
    case Ready
    then show ?thesis using maker_ready_good [OF inv] by (simp add: ee view_step_def)
  next
    case (OrderAck a)
    have "result_all (\<lambda>m'. quote_matches (view_message U v msg) BUY (mk_bid m') \<and> quote_matches (view_message U v msg) SELL (mk_ask m') \<and>
        mk_shared m' = mk_shared m \<and> mk_tick_size m' = mk_tick_size m) (\<lambda>_. False) (Maker_step dbg U m e)"
      using maker_ack_good [OF inv ok(1,2) [unfolded OrderAck] refl] by (simp add: ee OrderAck del: view_message.simps)
    then obtain m' where m': "Maker_step dbg U m e = Inr m'" "quote_matches (view_message U v msg) BUY (mk_bid m')"
        "quote_matches (view_message U v msg) SELL (mk_ask m')" "mk_shared m' = mk_shared m" "mk_tick_size m' = mk_tick_size m"
      by (cases "Maker_step dbg U m e") auto
    moreover have "Maker_inv m'" using Maker_step_inv [OF U minv m'(1) [unfolded ee]] .
    moreover have "ov_reference (view_message U v msg) = ov_reference v" by (simp add: OrderAck)
    ultimately show ?thesis using quiet [OF _ _ m'(1)] inv sides by (simp add: maker_matches_def)
  next
    case (OrderUpdate u)
    have "result_all (\<lambda>m'. quote_matches (view_message U v msg) BUY (mk_bid m') \<and> quote_matches (view_message U v msg) SELL (mk_ask m') \<and>
        maker_high m' = maker_high m \<and> maker_requests m' = maker_requests m \<and> mk_tick_size m' = mk_tick_size m) (\<lambda>_. False) (Maker_step dbg U m e)"
      using maker_update_good [OF inv ok(1,3) [unfolded OrderUpdate] refl] by (simp add: ee OrderUpdate del: view_message.simps)
    then obtain m' where m': "Maker_step dbg U m e = Inr m'" "quote_matches (view_message U v msg) BUY (mk_bid m')"
        "quote_matches (view_message U v msg) SELL (mk_ask m')" "maker_high m' = maker_high m"
        "maker_requests m' = maker_requests m" "mk_tick_size m' = mk_tick_size m"
      by (cases "Maker_step dbg U m e") auto
    moreover have "Maker_inv m'" using Maker_step_inv [OF U minv m'(1) [unfolded ee]] .
    moreover have "ov_reference (view_message U v msg) = ov_reference v" by (simp add: OrderUpdate)
    ultimately show ?thesis using quiet [OF m'(5) _ m'(1)] inv sides by (simp add: maker_matches_def)
  next
    case (TopOfBook t)
    have "maker_requests (Maker_on_TopOfBook U t m) = maker_requests m"
      by (simp add: Maker_on_TopOfBook_def Maker_update_quotes_def Let_def split: prod.split)
    then show ?thesis using quiet maker_prices_good [OF inv, of t] ok(1) by (simp add: ee TopOfBook)
  next
    case (ReferenceData r)
    have "maker_requests (Maker_on_ReferenceData U r m) = maker_requests m" by (simp add: Maker_on_ReferenceData_def)
    then show ?thesis using quiet maker_reference_good [OF inv, of r] ok(1) by (simp add: ee ReferenceData)
  next
    case (DownloadEnd d)
    let ?m = "Maker_on_DownloadEnd U d m"
    have "view_below (maker_high ?m) v"
      using below U by (auto simp: Maker_on_DownloadEnd_def view_below_def maker_updates_ok_def updates_ok_def update_max_lawD
          intro: order_trans [OF _ max.cobounded1])
    then have "maker_matches U v ?m" "maker_requests ?m = maker_requests m"
      using inv by (simp_all add: maker_matches_def Maker_on_DownloadEnd_def Maker_inv_def)
    then show ?thesis using quiet by (simp add: ee DownloadEnd)
  next
    case Disconnected
    have "quote_matches v sd (Quote_clear q)" if "quote_matches v sd q" for sd q
      using that by (auto simp: quote_matches_def Quote_clear_def)
    then have "maker_matches U v (Maker_on_Disconnected m)" "maker_requests (Maker_on_Disconnected m) = maker_requests m"
      using inv by (simp_all add: maker_matches_def Maker_on_Disconnected_def Maker_inv_def Quote_inv_def)
    then show ?thesis using quiet by (simp add: ee Disconnected)
  next
    case (MarketStatus x)
    have "maker_matches U v (Maker_on_MarketStatus U x m)" "maker_requests (Maker_on_MarketStatus U x m) = maker_requests m"
      using inv by (simp_all add: maker_matches_def Maker_on_MarketStatus_def Maker_inv_def)
    then show ?thesis using quiet by (simp add: ee MarketStatus)
  next
    case CancelAllOrdersAck
    have "maker_matches U v (Maker_on_CancelAllOrdersAck U m)" "maker_requests (Maker_on_CancelAllOrdersAck U m) = maker_requests m"
      using inv by (simp_all add: maker_matches_def Maker_on_CancelAllOrdersAck_def Maker_set_state_def Maker_inv_def)
    then show ?thesis using quiet by (simp add: ee CancelAllOrdersAck)
  qed (use quiet [of m] inv in \<open>simp_all add: ee\<close>)
qed

interpretation maker_exchange: watched_machine "Maker_step dbg U" maker_sent "orderly U" "view_step U" "maker_matches U" maker_room
  "\<lambda>f. \<nexists>x. f = Raised x" for dbg U
  using maker_step_good by unfold_locales simp

section \<open>What a quote knows of its order\<close>

text \<open>Without a disconnect, a quote with an order in flight knows the id of the order.\<close>

definition quote_known :: "Quote \<Rightarrow> bool" where
  "quote_known q \<longleftrightarrow> (mq_state q \<noteq> Quote_UNDEFINED \<longrightarrow> mq_order_id q \<noteq> 0)"

definition Maker_known :: "Maker \<Rightarrow> bool" where
  "Maker_known m \<longleftrightarrow> quote_known (mk_bid m) \<and> quote_known (mk_ask m)"

lemma quote_timer_known:
  assumes "maker_updates_ok U" "Quote_on_Timer dbg U D now (sh, q) = Inr (sh', q')" "quote_known q"
    and "mk_max_order_id sh < mk_max_order_id sh + 1"
  shows "quote_known q'"
proof -
  have "mk_max_order_id sh + 1 \<noteq> 0" using assms(4) by auto
  then show ?thesis using Quote_on_Timer_cases [OF assms(1,2)] assms(3) by (auto simp: quote_actions quote_known_def)
qed

lemma known_step:
  assumes U: "maker_updates_ok U" and known: "Maker_known m" and room: "maker_room m"
    and step: "Maker_step dbg U m (D, info, msg) = Inr m'" and msg: "msg \<noteq> Disconnected"
  shows "Maker_known m'"
proof (cases msg)
  case (Timer t)
  then have "Maker_on_Timer dbg U D (origin_create_time info) m = Inr m'" using step by simp
  then consider "m' = m" | sh1 q1 sh2 q2 where
      "Quote_on_Timer dbg U D (origin_create_time info) (mk_shared m, mk_bid m) = Inr (sh1, q1)"
      "Quote_on_Timer dbg U D (origin_create_time info) (sh1, mk_ask m) = Inr (sh2, q2)"
      "m' = m\<lparr>mk_shared := sh2, mk_bid := q1, mk_ask := q2\<rparr>"
    using timer_split [OF U] by blast
  then show ?thesis
  proof cases
    case 2
    have "mk_max_order_id sh1 < mk_max_order_id sh1 + 1"
      using quote_timer_ids [OF U 2(1)] room_less [OF room] by auto
    then show ?thesis
      using quote_timer_known [OF U 2(1)] quote_timer_known [OF U 2(2)] room_less [OF room] known 2(3)
      by (simp add: Maker_known_def)
  qed (use known in simp)
next
  case Ready
  then show ?thesis using step ready_sends [OF U] known by (fastforce simp: Maker_known_def)
next
  case (OrderAck a)
  have "quote_known q'" if "Quote_on_OrderAck U a q = Inr q'" "quote_known q" for q q'
    using that by (auto simp: Quote_on_OrderAck_def Quote_set_state_ok [OF U] quote_known_def split: if_splits request_type.splits)
  then show ?thesis using step known OrderAck
    by (auto simp: Maker_with_quote_def Maker_known_def result_Inr split: side.splits)
next
  case (OrderUpdate u)
  have upd: "quote_known (snd (Quote_on_OrderUpdate U u (sh, q)))" if "quote_known q" for sh q
    using that by (auto simp: Quote_on_OrderUpdate_def Quote_set_state_ok [OF U] quote_known_def Let_def)
  show ?thesis using step known OrderUpdate upd [of "mk_bid m" "mk_shared m"] upd [of "mk_ask m" "mk_shared m"]
    by (auto simp: Maker_with_quote_def Maker_known_def split: side.splits prod.splits)
next
  case (TopOfBook t)
  then show ?thesis using step known
    by (auto simp: Maker_handlers Quote_update_target_price_def Maker_known_def quote_known_def Let_def split: prod.splits if_splits)
next
  case CancelAllOrdersAck
  then show ?thesis using step known by (auto simp: Maker_handlers Maker_known_def)
qed (use step known msg in \<open>auto simp: Maker_handlers Maker_known_def\<close>)

lemma known_run:
  assumes "maker_updates_ok U"
  shows "run (Maker_step dbg U) m es = Inr m' \<Longrightarrow> \<forall>e \<in> set es. snd (snd e) \<noteq> Disconnected \<Longrightarrow> Maker_known m \<Longrightarrow>
    \<forall>t \<in> set (states (Maker_step dbg U) m es). maker_room t \<Longrightarrow> Maker_known m'"
proof (induction es arbitrary: m)
  case (Cons e es)
  obtain D info msg where e: "e = (D, info, msg)" by (cases e)
  obtain n where n: "Maker_step dbg U m e = Inr n" "run (Maker_step dbg U) n es = Inr m'"
    using Cons.prems(1) by (auto simp: bind_result_eq_Inr)
  have "Maker_known n"
    using known_step [OF assms Cons.prems(3) _ n(1) [unfolded e]] Cons.prems(2,4) e by simp
  then show ?case using Cons.IH [OF n(2)] Cons.prems(2,4) n(1) by simp
qed simp

lemma Maker_new_known [simp]: "Maker_known Maker_new"
  by (simp add: Maker_known_def quote_known_def Maker_new_def Quote_new_def)

section \<open>Sessions\<close>

abbreviation maker_watch ::
  "bool \<Rightarrow> 'm maker_utils_scheme \<Rightarrow> (order_view \<Rightarrow> 'u client_event \<Rightarrow> bool) \<Rightarrow> 'u client_event list \<Rightarrow> order_view option" where
  "maker_watch dbg U ok es \<equiv> watch (Maker_step dbg U) maker_sent ok (view_step U) order_view_start Maker_new es"

lemma maker_start_matches:
  "maker_updates_ok U \<Longrightarrow> round_away_number U \<Longrightarrow> maker_matches U order_view_start Maker_new"
  by (simp add: maker_matches_def order_view_start_def Maker_new_def Maker_inv_def Quote_inv_def Quote_new_def Shared_new_def
      view_below_def view_sides_def quote_matches_def side_pending_def side_live_def)

lemma maker_session:
  assumes "maker_updates_ok U" "round_away_number U" "params \<noteq> []"
    and "maker_watch dbg U (orderly U) (L Config_maker params) = Some v"
    and "\<forall>t \<in> set (states (Maker_step dbg U) Maker_new (L Config_maker params)). maker_room t"
  shows "result_all (maker_matches U v) (\<lambda>f. \<exists>x. f = Raised x) (maker_main dbg U L params)"
  using maker_exchange.run_watched [OF maker_start_matches [OF assms(1,2)] assms(5,4)] assms(3)
  by (simp add: maker_main_def trader_dispatch_def)

text \<open>Concrete messages.\<close>

definition demo_book :: "nanoseconds \<Rightarrow> rat \<Rightarrow> unit client_event" where
  "demo_book now p = mk_event now (TopOfBook \<lparr>tob_exchange = ''deribit'', tob_symbol = ''BTC-PERPETUAL'',
     tob_layer = \<lparr>bid_price = Fin p, bid_quantity = Fin 1, ask_price = Fin (p + 4), ask_quantity = Fin 1\<rparr>\<rparr>)"

definition demo_ack :: "nanoseconds \<Rightarrow> u64 \<Rightarrow> side \<Rightarrow> request_type \<Rightarrow> nat \<Rightarrow> error \<Rightarrow> unit client_event" where
  "demo_ack now i sd t st err = mk_event now (OrderAck \<lparr>oa_order_id = i, oa_side = sd, oa_request_type = t,
     oa_request_status = RequestStatus st, oa_error = err, oa_price = NaN, oa_routing_id = []\<rparr>)"

definition demo_fill :: "nanoseconds \<Rightarrow> u64 \<Rightarrow> side \<Rightarrow> unit client_event" where
  "demo_fill now i sd = mk_event now (OrderUpdate \<lparr>ou_order_id = i, ou_side = sd, ou_order_status = COMPLETED,
     ou_update_type = INCREMENTAL, ou_quantity = Fin 1, ou_price = Fin 100, ou_traded_quantity = Fin 1, ou_routing_id = []\<rparr>)"

definition demo_tick :: "nanoseconds \<Rightarrow> unit client_event" where
  "demo_tick now = mk_event now (Timer now)"

definition demo_orderly :: "unit client_event list" where
  "demo_orderly = maker_demo_start @ [demo_tick (seconds 1),
     demo_ack (seconds 2) 101 BUY CREATE_ORDER 1 Error_UNDEFINED, demo_ack (seconds 2) 102 SELL CREATE_ORDER 1 Error_UNDEFINED,
     demo_book (seconds 3) 104, demo_tick (seconds 3), demo_ack (seconds 4) 101 BUY CANCEL_ORDER 1 Error_UNDEFINED,
     demo_book (seconds 5) 108, demo_tick (seconds 5)]"

lemmas demo_eval = maker_eval demo_book_def demo_ack_def demo_fill_def demo_tick_def Quote_on_OrderUpdate_def
  orderly_def view_step_def order_view_start_def ack_ends_order_def maker_sent_def

lemma demo_orderly_legal:
  "\<exists>v. maker_watch True exact_maker_utils (orderly exact_maker_utils) demo_orderly = Some v \<and> side_live v BUY = [103] \<and>
     side_live v SELL = [102] \<and> side_pending v SELL = [(102, CANCEL_ORDER)]"
  by (simp add: demo_orderly_def demo_eval side_live_def side_pending_def)

lemma exact_round_away_number: "round_away_number exact_maker_utils"
  by (simp add: round_away_number_def exact_maker_utils_def utils.defs)

lemma demo_orderly_room: "\<forall>t \<in> set (states (Maker_step True exact_maker_utils) Maker_new demo_orderly). maker_room t"
  by (simp add: demo_orderly_def demo_eval maker_room_def)

section \<open>Properties\<close>

text \<open>
  C12: In an orderly session (every final acknowledgement answers a request that was sent, nothing is
  refused but a cancellation that is too late, no order becomes complete while a request about it has
  no answer yet, the tick size is known and positive before prices arrive), and while the order id
  counter is not about to wrap around, the program has no fatal error and no failed assertion: its
  only early end is an exception of the dispatcher.
\<close>

theorem Maker_main_no_fatal:
  assumes "maker_updates_ok U" "round_away_number U" "params \<noteq> []"
    and "maker_watch dbg U (orderly U) (L Config_maker params) = Some v"
    and "\<forall>t \<in> set (states (Maker_step dbg U) Maker_new (L Config_maker params)). maker_room t"
  shows "(\<exists>m. maker_main dbg U L params = Inr m) \<or> (\<exists>x. maker_main dbg U L params = Inl (Raised x))"
  using maker_session [where L = L and params = params, OF assms] by (cases "maker_main dbg U L params") auto

theorem Maker_main_no_fatal_witness:
  "(\<exists>m. maker_main True exact_maker_utils (\<lambda>c p. demo_orderly) [''socket''] = Inr m) \<or>
   (\<exists>x. maker_main True exact_maker_utils (\<lambda>c p. demo_orderly) [''socket''] = Inl (Raised x))"
proof -
  obtain v where v: "maker_watch True exact_maker_utils (orderly exact_maker_utils) demo_orderly = Some v"
    using demo_orderly_legal by blast
  show ?thesis
    by (rule Maker_main_no_fatal [OF exact_maker_utils_ok exact_round_away_number _ v demo_orderly_room]) simp
qed

text \<open>
  C13: In an orderly session, the state of the quote of a side says exactly which request of that side has no
  answer: the creation of an order in the state CREATE, its cancellation in the state CANCEL, none in the other
  states; the side has at most one order at the exchange, the one of that request, and none in the state
  UNDEFINED. The quote knows the id of this order in every state but UNDEFINED, where it has no id, unless a
  disconnect has made it forget the id.
\<close>

theorem Maker_one_order_per_side:
  fixes L :: "'u client_event library"
  assumes "maker_updates_ok U" "round_away_number U" "params \<noteq> []"
    and "maker_watch dbg U (orderly U) (L Config_maker params) = Some v"
    and "\<forall>t \<in> set (states (Maker_step dbg U) Maker_new (L Config_maker params)). maker_room t"
    and "maker_main dbg U L params = Inr m" "sd = BUY \<or> sd = SELL"
  shows "\<exists>i. side_pending v sd = quote_pending (mq_state (quote_of sd m)) i \<and>
    (side_live v sd = [] \<or> side_live v sd = [i] \<and> mq_state (quote_of sd m) \<noteq> Quote_UNDEFINED) \<and>
    (if mq_state (quote_of sd m) = Quote_UNDEFINED then mq_order_id (quote_of sd m) = 0
     else mq_order_id (quote_of sd m) = i \<and> i \<noteq> 0 \<or>
       mq_order_id (quote_of sd m) = 0 \<and> (\<exists>D info. (D, info, Disconnected) \<in> set (L Config_maker params)))"
proof -
  let ?es = "L Config_maker params" and ?q = "quote_of sd m"
  have match: "maker_matches U v m"
    using maker_session [where L = L and params = params, OF assms(1-5)] assms(6) by auto
  then have "quote_matches v sd ?q" "Quote_inv ?q" using assms(7) by (auto simp: maker_matches_def Maker_inv_def quote_of_def)
  then obtain i where i: "mq_order_id ?q = 0 \<or> mq_order_id ?q = i" "side_pending v sd = quote_pending (mq_state ?q) i"
      "side_live v sd = [] \<or> side_live v sd = [i] \<and> mq_state ?q \<noteq> Quote_UNDEFINED"
      "mq_state ?q = Quote_UNDEFINED \<Longrightarrow> mq_order_id ?q = 0"
    by (auto simp: quote_matches_def Quote_inv_def)
  have "run (Maker_step dbg U) Maker_new ?es = Inr m" using assms(3,6) by (simp add: maker_main_def trader_dispatch_def)
  then have "Maker_known m" if "\<forall>e \<in> set ?es. snd (snd e) \<noteq> Disconnected"
    using known_run [OF assms(1) _ that _ assms(5)] by simp
  then have "mq_order_id ?q \<noteq> 0" if "\<nexists>D info. (D, info, Disconnected) \<in> set ?es" "mq_state ?q \<noteq> Quote_UNDEFINED"
    using that assms(7) by (fastforce simp: Maker_known_def quote_known_def quote_of_def)
  then show ?thesis using i by (intro exI [of _ i]) auto
qed

theorem Maker_one_order_per_side_witness:
  "\<exists>(v :: order_view) m. maker_main True exact_maker_utils (\<lambda>c p. demo_orderly) [''socket''] = Inr m \<and>
     side_live v SELL = [102] \<and> side_pending v SELL = [(102, CANCEL_ORDER)] \<and>
     mq_state (quote_of SELL m) = Quote_CANCEL \<and> mq_order_id (quote_of SELL m) = 102"
proof -
  obtain v where v: "maker_watch True exact_maker_utils (orderly exact_maker_utils) demo_orderly = Some v"
      "side_live v SELL = [102]" "side_pending v SELL = [(102, CANCEL_ORDER)]"
    using demo_orderly_legal by blast
  obtain m where m: "maker_main True exact_maker_utils (\<lambda>c p. demo_orderly) [''socket''] = Inr m"
    by (simp add: maker_main_def trader_dispatch_def demo_orderly_def demo_eval)
  have none: "\<nexists>D info. (D, info, Disconnected) \<in> set demo_orderly"
    by (simp add: demo_orderly_def maker_demo_start_def demo_book_def demo_ack_def demo_tick_def mk_event_def)
  obtain i where i: "side_pending v SELL = quote_pending (mq_state (quote_of SELL m)) i"
      "side_live v SELL = [] \<or> side_live v SELL = [i] \<and> mq_state (quote_of SELL m) \<noteq> Quote_UNDEFINED"
      "mq_state (quote_of SELL m) \<noteq> Quote_UNDEFINED \<Longrightarrow> mq_order_id (quote_of SELL m) = i"
    using Maker_one_order_per_side [OF exact_maker_utils_ok exact_round_away_number _ v(1) demo_orderly_room m, of SELL] none
    by (auto split: if_splits)
  then have "i = 102" using v by auto
  moreover have "mq_state (quote_of SELL m) = Quote_CANCEL" using i(1) v(3) by (cases "mq_state (quote_of SELL m)") auto
  ultimately show ?thesis using v m i(3) by auto
qed

section \<open>Races\<close>

text \<open>What is left of an orderly session when an order may become complete at any time.\<close>

definition racy :: "'m utils_scheme \<Rightarrow> order_view \<Rightarrow> 'u client_event \<Rightarrow> bool" where
  "racy U v e = (case e of (D, info, msg) \<Rightarrow> gateway_allows U v msg \<and> not_refused U msg)"

definition demo_filled_first :: "unit client_event list" where
  "demo_filled_first = maker_demo_start @ [demo_tick (seconds 1), demo_ack (seconds 2) 101 BUY CREATE_ORDER 1 Error_UNDEFINED,
     demo_book (seconds 3) 104, demo_tick (seconds 3), demo_fill (seconds 4) 101 BUY,
     demo_ack (seconds 5) 101 BUY CANCEL_ORDER 2 TOO_LATE_TO_MODIFY_OR_CANCEL]"

text \<open>
  A working order that is filled while its cancellation is on the way ends the program: the fill resets
  the quote, and the answer to the cancellation, "too late", which the code means to tolerate, then
  meets a quote that is not cancelling.
\<close>

theorem Maker_fill_before_cancel_ack:
  "maker_watch True exact_maker_utils (racy exact_maker_utils) demo_filled_first \<noteq> None \<and>
   run (Maker_step True exact_maker_utils) Maker_new demo_filled_first = Inl Fatal"
  by (simp add: demo_filled_first_def demo_eval racy_def)

text \<open>
  Acknowledgements are matched with the state of the quote only, not with the order they are about:
  after two fills that arrive before the acknowledgements, the answer to the cancellation of a dead order is
  taken for the one of the order that replaced it, and the quote sends another order while that one is
  still worked. All answers come in the order of the requests.
\<close>

definition demo_mixed_up :: "unit client_event list" where
  "demo_mixed_up = maker_demo_start @ [demo_tick (seconds 1), demo_fill (seconds 2) 101 BUY,
     demo_book (seconds 3) 104, demo_tick (seconds 3), demo_ack (seconds 4) 101 BUY CREATE_ORDER 1 Error_UNDEFINED,
     demo_book (seconds 5) 108, demo_tick (seconds 5), demo_fill (seconds 6) 103 BUY,
     demo_book (seconds 7) 112, demo_tick (seconds 7), demo_ack (seconds 8) 103 BUY CREATE_ORDER 1 Error_UNDEFINED,
     demo_book (seconds 9) 116, demo_tick (seconds 9),
     demo_ack (seconds 10) 103 BUY CANCEL_ORDER 2 TOO_LATE_TO_MODIFY_OR_CANCEL,
     demo_book (seconds 11) 120, demo_tick (seconds 11)]"

theorem Maker_ack_of_other_order:
  "\<exists>v. maker_watch True exact_maker_utils (racy exact_maker_utils) demo_mixed_up = Some v \<and> side_live v BUY = [104, 105]"
  by (simp add: demo_mixed_up_def demo_eval racy_def side_live_def)

end
