(* ===== verification/E3_Exchange.thy ===== *)
theory E3_Exchange
  imports Applications Order_Protocol
begin

text \<open>
  The strategy of example 3 together with the gateway it trades through. Shown: as long as every update that
  reports a complete order is about an order of the strategy that may still be worked, the strategy has at most
  one order at the exchange, across disconnects and refused requests; and that one update about another order
  makes it forget the one that is working.
\<close>

section \<open>The view of the gateway\<close>

definition own_completions :: "'m utils_scheme \<Rightarrow> order_view \<Rightarrow> 'u client_event \<Rightarrow> bool" where
  "own_completions U v e = (case e of (D, info, msg) \<Rightarrow> (case msg of
     OrderUpdate u \<Rightarrow> is_order_complete U (ou_order_status u) \<longrightarrow> ou_order_id u \<in> set (ov_live v)
   | _ \<Rightarrow> True))"

definition e3_requests :: "('b, 'o) Strategy3 \<Rightarrow> request list" where
  "e3_requests s = map fst (s3_sent s)"

text \<open>An order at the exchange is the working order.\<close>

definition working_matches :: "order_view \<Rightarrow> ('b, 'o) Strategy3 \<Rightarrow> bool" where
  "working_matches v s \<longleftrightarrow> ov_live v = [] \<or> ov_live v = [s3_working_order_id s] \<and> s3_working_order_id s \<noteq> 0"

lemma working_timer:
  assumes inv: "working_matches v s" and room: "s3_max_order_id s \<noteq> - 1"
    and step: "Strategy3_on_Timer dbg U settings D s now = Inr s'"
  shows "working_matches (foldl view_request v (drop (length (e3_requests s)) (e3_requests s'))) s'"
proof -
  have new: "s3_max_order_id s + 1 \<noteq> 0" using room by (metis add.commute add_eq_0_iff)
  show ?thesis
    using timer_cases [OF step]
  proof (elim disjE conjE exE)
    assume "same_orders s s'"
    then show ?thesis using inv by (simp add: same_orders_def working_matches_def e3_requests_def)
  next
    fix sd price m t
    assume "cancels settings (s\<lparr>s3_model := m\<rparr>) sd t" "s' = t\<lparr>s3_next_sample := floor_seconds now + st_sample_freq settings\<rparr>"
    then show ?thesis using inv by (simp add: cancels_def working_matches_def e3_requests_def)
  next
    fix sd price m t
    assume "creates dbg U settings (s\<lparr>s3_model := m\<rparr>) sd price t" "s' = t\<lparr>s3_next_sample := floor_seconds now + st_sample_freq settings\<rparr>"
    then show ?thesis using inv new by (auto simp: creates_def working_matches_def e3_requests_def Strategy3_create_order_def)
  qed
qed

lemma working_other:
  assumes inv: "working_matches v s" and ok: "own_completions U v (D, info, msg)"
    and step: "Strategy3_step dbg U B M settings s (D, info, msg) = Inr s'" and other: "\<forall>now. msg \<noteq> Timer now"
  shows "working_matches (view_message U v msg) s'"
proof (cases "\<exists>u. msg = OrderUpdate u \<and> is_order_complete U (ou_order_status u)")
  case True
  then have "ov_live (view_message U v msg) = []" using inv ok by (auto simp: own_completions_def working_matches_def)
  then show ?thesis by (simp add: working_matches_def)
next
  case False
  then have "same_orders s s'" using other_cases(2) [OF step other] by blast
  moreover have "ov_live (view_message U v msg) = ov_live v \<or> ov_live (view_message U v msg) = []"
    using inv False by (cases msg) (auto simp: working_matches_def)
  ultimately show ?thesis using inv by (auto simp: working_matches_def same_orders_def)
qed

lemma e3_step_watched:
  assumes inv: "working_matches v s" and room: "s3_max_order_id s \<noteq> - 1" and ok: "own_completions U v e"
  shows "result_all (\<lambda>s'. working_matches (view_step U v e (drop (length (e3_requests s)) (e3_requests s'))) s')
    (\<lambda>f. True) (Strategy3_step dbg U B M settings s e)"
proof (cases "Strategy3_step dbg U B M settings s e")
  case (Inr s')
  obtain D info msg where e: "e = (D, info, msg)" by (cases e)
  note step = Inr [unfolded e]
  have "working_matches (view_step U v e (drop (length (e3_requests s)) (e3_requests s'))) s'"
  proof (cases "\<exists>now. msg = Timer now")
    case True
    then show ?thesis using working_timer [OF inv room] step by (auto simp: e view_step_def)
  next
    case False
    then have "s3_sent s' = s3_sent s" using other_cases(1) [OF step] by blast
    then show ?thesis using working_other [OF inv ok [unfolded e] step] False
      by (simp add: e view_step_def e3_requests_def)
  qed
  then show ?thesis by (simp add: Inr)
qed simp

interpretation e3_exchange: watched_machine "Strategy3_step dbg U B M settings" e3_requests "own_completions U" "view_step U"
  working_matches "\<lambda>s. s3_max_order_id s \<noteq> - 1" "\<lambda>f. False" for dbg U B M settings
  using e3_step_watched by unfold_locales simp

section \<open>Properties\<close>

text \<open>
  C3: From program start, as long as every update that reports a complete order is about an order of the
  program that may still be worked, that is, it is the first report of its completion, not one that is sent again,
  and as long as the order id counter is not about to wrap around, at most one order of the program is at the
  exchange, and it is the working order; a disconnect or a refused request does not change that. (A completion
  that is sent again, or one of another order of the account, breaks this: \<open>Strategy3_forgets_working_order\<close>.)
\<close>

theorem Strategy3_one_live_order:
  assumes "example_3_main dbg U B M L settings currencies layer0 b o' params = Inr s"
    and "es = L (Config_example_3 (st_account settings) (st_exchange settings) (st_symbol settings) currencies) params"
    and "watch (Strategy3_step dbg U B M settings) e3_requests (own_completions U) (view_step U) order_view_start
      (Strategy3_new settings layer0 b o') es = Some v"
    and "\<forall>t \<in> set (states (Strategy3_step dbg U B M settings) (Strategy3_new settings layer0 b o') es). s3_max_order_id t \<noteq> - 1"
  shows "ov_live v = [] \<or> ov_live v = [s3_working_order_id s]"
proof -
  have "working_matches order_view_start (Strategy3_new settings layer0 b o')"
    by (simp add: working_matches_def order_view_start_def)
  from e3_exchange.run_watched [OF this assms(4,3)]
  have "result_all (working_matches v) (\<lambda>f. True) (run (Strategy3_step dbg U B M settings) (Strategy3_new settings layer0 b o') es)"
    by simp
  then show ?thesis using assms(1,2)
    by (auto simp: example_3_main_def trader_dispatch_def working_matches_def split: if_splits)
qed

definition demo_e3_update :: "u64 \<Rightarrow> layer client_event" where
  "demo_e3_update i = (accept_all, demo_info, OrderUpdate \<lparr>ou_order_id = i, ou_side = BUY, ou_order_status = COMPLETED,
     ou_update_type = SNAPSHOT, ou_quantity = Fin 1, ou_price = Fin 48, ou_traded_quantity = Fin 0, ou_routing_id = []\<rparr>)"

definition demo_e3_events :: "layer client_event list" where
  "demo_e3_events = demo_session_start @ [demo_tick] @ demo_session_rest"

lemmas demo_e3_eval = demo_eval demo_tick_def demo_session_rest_def demo_e3_events_def demo_e3_update_def e3_requests_def
  own_completions_def view_step_def order_view_start_def

lemma demo_e3_run:
  "\<exists>s v. run demo_step demo_strategy demo_e3_events = Inr s \<and> s3_working_order_id s = 8 \<and>
     watch demo_step e3_requests (own_completions exact_utils) (view_step exact_utils) order_view_start demo_strategy demo_e3_events = Some v \<and>
     ov_live v = [8] \<and> (\<forall>t \<in> set (states demo_step demo_strategy demo_e3_events). s3_max_order_id t \<noteq> - 1)"
  by (simp add: demo_e3_eval)

theorem Strategy3_one_live_order_witness:
  "\<exists>s (v :: order_view). example_3_main True exact_utils last_book last_book (\<lambda>c p. demo_e3_events) demo_settings [] demo_layer None None [''socket''] = Inr s \<and>
     ov_live v = [8] \<and> (ov_live v = [] \<or> ov_live v = [s3_working_order_id s])"
proof -
  obtain s v where s: "run demo_step demo_strategy demo_e3_events = Inr s"
      "watch demo_step e3_requests (own_completions exact_utils) (view_step exact_utils) order_view_start demo_strategy demo_e3_events = Some v"
      "ov_live v = [8]" "\<forall>t \<in> set (states demo_step demo_strategy demo_e3_events). s3_max_order_id t \<noteq> - 1"
    using demo_e3_run by blast
  have main: "example_3_main True exact_utils last_book last_book (\<lambda>c p. demo_e3_events) demo_settings [] demo_layer None None [''socket''] = Inr s"
    using s(1) by (simp add: example_3_main_def trader_dispatch_def demo_step_def demo_strategy_def)
  from Strategy3_one_live_order [OF main refl s(2,4) [unfolded demo_step_def demo_strategy_def]] main s(3)
  show ?thesis by blast
qed

text \<open>
  The update handler does not compare the order: an update that reports another order complete, such as
  the state of an old order of the strategy sent again after a reconnect, makes the strategy forget its working order, and the next signal sends a
  second order while the first is still worked.
\<close>

definition demo_e3_forgotten :: "layer client_event list" where
  "demo_e3_forgotten = demo_session_start @ [demo_tick, demo_e3_update 5] @ demo_session_rest"

theorem Strategy3_forgets_working_order:
  "\<exists>v. watch demo_step e3_requests (\<lambda>v e. True) (view_step exact_utils) order_view_start demo_strategy demo_e3_forgotten = Some v \<and>
     ov_live v = [8, 9]"
  by (simp add: demo_e3_eval demo_e3_forgotten_def)

end
