(* ===== verification/Maker_Position.thy ===== *)
theory Maker_Position
  imports Maker_Props
begin

text \<open>
  The position of the market maker, which skews its prices. Shown: it is the sum of the signed quantities of the
  completions that were reported, added and rounded in the order of their arrival, and exactly their sum in whole
  lots; that a completion that is reported again counts again; and that nothing else moves it, so what an order had
  traded when it was cancelled is lost.
\<close>

section \<open>Completed quantities\<close>

definition sign_ok :: "'m maker_utils_scheme \<Rightarrow> bool" where
  "sign_ok U \<longleftrightarrow> sign U BUY = Fin 1 \<and> sign U SELL = Fin (- 1)"

text \<open>What an event reports as completed, signed by its side.\<close>

fun completed_quantity :: "'u client_event \<Rightarrow> double option" where
  "completed_quantity (D, info, OrderUpdate u) =
     (if ou_update_type u = INCREMENTAL \<and> ou_order_status u = COMPLETED then
        (case ou_side u of BUY \<Rightarrow> Some (dmul (Fin 1) (ou_quantity u)) | SELL \<Rightarrow> Some (dmul (Fin (- 1)) (ou_quantity u))
         | Side_UNDEFINED \<Rightarrow> None)
      else None)"
| "completed_quantity e = None"

text \<open>The same in whole lots.\<close>

fun whole_lots :: "double \<Rightarrow> int" where
  "whole_lots (Fin x) = \<lfloor>x\<rfloor>"
| "whole_lots d = 0"

definition completed_lots :: "'u client_event \<Rightarrow> int" where
  "completed_lots e = (case completed_quantity e of None \<Rightarrow> 0 | Some q \<Rightarrow> whole_lots q)"

definition in_lots :: "'u client_event \<Rightarrow> bool" where
  "in_lots e = (case completed_quantity e of None \<Rightarrow> True | Some q \<Rightarrow> q = dint (whole_lots q))"

lemma quote_timer_position:
  assumes "maker_updates_ok U" "Quote_on_Timer dbg U D now (sh, q) = Inr (sh', q')"
  shows "mk_position sh' = mk_position sh"
  using Quote_on_Timer_cases [OF assms] by (auto simp: quote_actions)

lemma other_position:
  assumes U: "maker_updates_ok U" and step: "Maker_step dbg U m (D, info, msg) = Inr m'" and msg: "\<forall>u. msg \<noteq> OrderUpdate u"
  shows "mk_position (mk_shared m') = mk_position (mk_shared m)"
proof (cases "(\<exists>t. msg = Timer t) \<or> msg = Ready")
  case True
  then consider now where "Maker_on_Timer dbg U D now m = Inr m'" | now where "Maker_on_Ready U D now m = Inr m'"
    using step by auto
  then show ?thesis
  proof cases
    case 1
    from timer_split [OF U 1] show ?thesis by (auto dest!: quote_timer_position [OF U])
  next
    case 2
    from ready_sends [OF U 2] show ?thesis by simp
  qed
next
  case False
  then show ?thesis using step msg
    by (cases msg) (auto simp: Maker_handlers Maker_with_quote_def result_Inr Let_def split: side.splits prod.splits if_splits)
qed

lemma position_step:
  assumes U: "maker_updates_ok U" "sign_ok U" and inv: "Maker_inv m" and step: "Maker_step dbg U m e = Inr m'"
  shows "mk_position (mk_shared m') =
    (case completed_quantity e of None \<Rightarrow> mk_position (mk_shared m) | Some q \<Rightarrow> dadd (mk_position (mk_shared m)) q)"
proof -
  obtain D info msg where e: "e = (D, info, msg)" by (cases e)
  have side: "mq_side (mk_bid m) = BUY" "mq_side (mk_ask m) = SELL" using inv by (simp_all add: Maker_inv_def)
  show ?thesis
  proof (cases "\<exists>u. msg = OrderUpdate u")
    case True
    then obtain u where u: "msg = OrderUpdate u" by blast
    show ?thesis
    proof (cases "ou_side u")
      case BUY
      then show ?thesis using step side U(2) by (auto simp: e u Maker_with_quote_def Quote_on_OrderUpdate_def Let_def sign_ok_def split: if_splits)
    next
      case SELL
      then show ?thesis using step side U(2) by (auto simp: e u Maker_with_quote_def Quote_on_OrderUpdate_def Let_def sign_ok_def split: if_splits)
    qed (use step in \<open>simp add: e u Maker_with_quote_def\<close>)
  next
    case False
    then have "completed_quantity e = None" by (cases msg) (simp_all add: e)
    then show ?thesis using other_position [OF U(1) step [unfolded e]] False by simp
  qed
qed

lemma position_run:
  assumes "maker_updates_ok U" "sign_ok U"
  shows "Maker_inv m \<Longrightarrow> run (Maker_step dbg U) m es = Inr m' \<Longrightarrow>
    mk_position (mk_shared m') = foldl dadd (mk_position (mk_shared m)) (List.map_filter completed_quantity es)"
proof (induction es arbitrary: m)
  case (Cons e es)
  obtain n where n: "Maker_step dbg U m e = Inr n" "run (Maker_step dbg U) n es = Inr m'"
    using Cons.prems(2) by (auto simp: bind_result_eq_Inr)
  have "Maker_inv n" using Maker_step_inv [OF assms(1) Cons.prems(1)] n(1) by (cases e) blast
  from Cons.IH [OF this n(2)] position_step [OF assms Cons.prems(1) n(1)]
  show ?case by (simp add: map_filter_simps split: option.split)
qed (simp add: map_filter_simps)

text \<open>Whole lots are added without rounding.\<close>

lemma lots_sum:
  "\<forall>e \<in> set es. in_lots e \<Longrightarrow> \<bar>p\<bar> + (\<Sum>e \<leftarrow> es. \<bar>completed_lots e\<bar>) \<le> 2 ^ 53 \<Longrightarrow>
    foldl dadd (dint p) (List.map_filter completed_quantity es) = dint (p + (\<Sum>e \<leftarrow> es. completed_lots e))"
proof (induction es arbitrary: p)
  case (Cons e es)
  have rest: "0 \<le> (\<Sum>e \<leftarrow> es. \<bar>completed_lots e\<bar>)" by (rule sum_list_nonneg) auto
  show ?case
  proof (cases "completed_quantity e")
    case None
    then show ?thesis using Cons by (simp add: map_filter_simps completed_lots_def)
  next
    case (Some q)
    then have q: "q = dint (completed_lots e)" using Cons.prems(1) by (simp add: in_lots_def completed_lots_def)
    have "\<bar>p + completed_lots e\<bar> \<le> 2 ^ 53"
        "\<bar>p + completed_lots e\<bar> + (\<Sum>e \<leftarrow> es. \<bar>completed_lots e\<bar>) \<le> 2 ^ 53"
      using Cons.prems(2) rest abs_triangle_ineq [of p "completed_lots e"] by simp_all
    then have "dadd (dint p) q = dint (p + completed_lots e)"
        "foldl dadd (dint (p + completed_lots e)) (List.map_filter completed_quantity es) =
          dint (p + completed_lots e + (\<Sum>e \<leftarrow> es. completed_lots e))"
      using Cons.IH [of "p + completed_lots e"] Cons.prems(1) q by (simp_all add: dadd_dint)
    then show ?thesis using Some by (simp add: map_filter_simps add.assoc)
  qed
qed (simp add: map_filter_simps)

section \<open>Properties\<close>

text \<open>
  C14: From program start, the position is the sum of the signed quantities of the completions that incremental
  updates reported, added in the order of their arrival and rounded to binary64 after each addition, whatever else
  happens: disconnects, snapshots and other states of orders do not move it. Every report counts, also one that is
  repeated. When the quantities are whole lots that add up to at most 2 to the 53rd, nothing is rounded and the
  position is exactly their sum.
\<close>

theorem Maker_position_sums_completed:
  assumes "maker_updates_ok U" "sign_ok U" "run (Maker_step dbg U) Maker_new es = Inr m"
  shows "mk_position (mk_shared m) = foldl dadd (Fin 0) (List.map_filter completed_quantity es) \<and>
    ((\<forall>e \<in> set es. in_lots e) \<and> (\<Sum>e \<leftarrow> es. \<bar>completed_lots e\<bar>) \<le> 2 ^ 53 \<longrightarrow>
       mk_position (mk_shared m) = dint (\<Sum>e \<leftarrow> es. completed_lots e))"
proof -
  have "Maker_inv Maker_new" "mk_position (mk_shared Maker_new) = Fin 0"
    by (simp_all add: Maker_inv_def Maker_new_def Quote_inv_def Quote_new_def Shared_new_def)
  then have "mk_position (mk_shared m) = foldl dadd (Fin 0) (List.map_filter completed_quantity es)"
    using position_run [OF assms(1,2) _ assms(3)] by simp
  then show ?thesis using lots_sum [of es 0] by (simp add: dint_def)
qed

definition demo_completed :: "u64 \<Rightarrow> side \<Rightarrow> rat \<Rightarrow> order_status \<Rightarrow> unit client_event" where
  "demo_completed i sd q st = mk_event (seconds 5) (OrderUpdate \<lparr>ou_order_id = i, ou_side = sd, ou_order_status = st,
     ou_update_type = INCREMENTAL, ou_quantity = Fin q, ou_price = Fin 100, ou_traded_quantity = Fin 3, ou_routing_id = []\<rparr>)"

definition demo_position_events :: "unit client_event list" where
  "demo_position_events = maker_demo_start @ [demo_completed 1 BUY 7 COMPLETED, demo_completed 2 SELL 4 COMPLETED]"

lemma demo_position_run: "\<exists>m. run maker_demo_step Maker_new demo_position_events = Inr m"
  by (simp add: maker_eval demo_position_events_def demo_completed_def Quote_on_OrderUpdate_def)

theorem Maker_position_sums_completed_witness:
  "\<exists>m. run maker_demo_step Maker_new demo_position_events = Inr m \<and> mk_position (mk_shared m) = dint 3"
proof -
  obtain m where m: "run maker_demo_step Maker_new demo_position_events = Inr m" using demo_position_run by blast
  have sgn: "sign_ok exact_maker_utils" by (simp add: sign_ok_def exact_maker_utils_def exact_utils_def utils.defs)
  have quantities: "map completed_quantity demo_position_events = replicate (length maker_demo_start) None @ [Some (dint 7), Some (dint (- 4))]"
    using to_double_of_int [of 7] to_double_of_int [of "- 4"]
    by (simp add: demo_position_events_def demo_completed_def maker_demo_start_def mk_event_def dint_def)
  have lots: "\<forall>e \<in> set demo_position_events. in_lots e" "(\<Sum>e \<leftarrow> demo_position_events. \<bar>completed_lots e\<bar>) \<le> 2 ^ 53"
      "(\<Sum>e \<leftarrow> demo_position_events. completed_lots e) = 3"
    using quantities
    by (simp_all add: demo_position_events_def maker_demo_start_def in_lots_def completed_lots_def dint_def)
  show ?thesis
    using Maker_position_sums_completed [OF exact_maker_utils_ok sgn m [unfolded maker_demo_step_def]] m lots by auto
qed

text \<open>
  What an order had traded when it ends otherwise is lost: an update that is not a completion leaves the position
  as it is, however much was traded, and the order is forgotten when it is final. The strategy cancels its orders
  whenever the market moves, so this is the usual end of an order.
\<close>

theorem Maker_partial_fill_lost:
  assumes "ou_order_status u \<noteq> COMPLETED" "ou_side u = BUY \<or> ou_side u = SELL"
  shows "\<exists>m'. Maker_step dbg U m (D, info, OrderUpdate u) = Inr m' \<and> mk_position (mk_shared m') = mk_position (mk_shared m)"
  using assms by (auto simp: Maker_with_quote_def Quote_on_OrderUpdate_def Let_def)

end
