(* ===== verification/S1_Safe.thy ===== *)
theory S1_Safe
  imports S1_Strategy
begin

text \<open>
  Strategy 1 under the promises it relies on: its order objects answer each request once and not after the
  order is complete, no request is refused but a modification that is too late (a refusal for the rate limit is
  undefined behaviour, see \<open>Leg_refusal_undefined\<close>), its own rate limiter is ready again within the number of
  retries, and updates come for orders of the market that was added. Shown: then no assertion fails, there is no fatal
  error and no empty pointer is used, for one leg and for the strategy; and that a completion that overtakes
  the answer to a modification violates an assertion.
\<close>

section \<open>What a leg relies on\<close>

fun retries :: "leg_callback \<Rightarrow> nat" where
  "retries (Submit c) = c"
| "retries (Modify c) = c"

definition may_retry :: "s1_settings \<Rightarrow> leg_env \<Rightarrow> nat \<Rightarrow> bool" where
  "may_retry settings env c \<longleftrightarrow> le_ready env \<or> c < unat (s1_max_retries settings)"

definition order_waits :: "Leg \<Rightarrow> bool" where
  "order_waits l \<longleftrightarrow> lg_pending l \<noteq> [] \<or> (\<exists>(cb, d) \<in> set (lg_timers l). cb = Submit (retries cb))"

fun leg_allows :: "s1_settings \<Rightarrow> Leg \<Rightarrow> leg_env \<times> leg_event \<Rightarrow> bool" where
  "leg_allows settings l (env, Market_Update market_ready status) = may_retry settings env 0"
| "leg_allows settings l (env, Order_Update status) = (status = COMPLETED \<longrightarrow> \<not> order_waits l)"
| "leg_allows settings l (env, Ack_Failure cb err) =
     (cb \<in> set (lg_pending l) \<longrightarrow> err = TOO_LATE_TO_MODIFY_OR_CANCEL \<and> cb = Modify (retries cb))"
| "leg_allows settings l (env, Ack_Success cb price) = may_retry settings env 0"
| "leg_allows settings l (env, Timer_Fired cb delay) = may_retry settings env (retries cb + 1)"
| "leg_allows settings l (env, Set_Price price) =
     (\<not> isnan price \<and> lg_state l \<noteq> LEG_UNDEFINED \<and> may_retry settings env 0)"

text \<open>A callback waits in the state its helper asserts; only the retry of a modification may outlive its order.\<close>

definition Leg_waits :: "Leg \<Rightarrow> bool" where
  "Leg_waits l \<longleftrightarrow>
     (\<forall>cb \<in> set (lg_pending l). lg_state l = (case cb of Submit c \<Rightarrow> LEG_CREATING | Modify c \<Rightarrow> LEG_CHANGING)) \<and>
     (\<forall>(cb, d) \<in> set (lg_timers l). case cb of Submit c \<Rightarrow> lg_state l = LEG_CREATING
        | Modify c \<Rightarrow> lg_state l = LEG_CHANGING \<or> lg_state l = LEG_FINISHED)"

definition Leg_safe :: "'m utils_scheme \<Rightarrow> s1_settings \<Rightarrow> Leg \<Rightarrow> bool" where
  "Leg_safe U settings l \<longleftrightarrow> updates_ok U \<and> Leg_inv U settings l \<and> Leg_waits l"

abbreviation leg_good :: "Leg result \<Rightarrow> bool" where
  "leg_good r \<equiv> result_all Leg_waits (\<lambda>f. \<exists>x. f = Raised x) r"

lemma Leg_send_good:
  assumes "Leg_waits l" "lg_pending l = []" "lg_state l = (case cb of Submit c \<Rightarrow> LEG_CREATING | Modify c \<Rightarrow> LEG_CHANGING)"
  shows "leg_good (Leg_send env r cb l)"
  using assms by (auto simp: Leg_send_def Leg_waits_def split: option.split leg_callback.splits)

lemma submit_good:
  assumes "Leg_free l" "lg_state l = LEG_CREATING" "may_retry settings env c"
  shows "leg_good (Leg_submit_order_helper dbg settings env c l)"
proof -
  have "Leg_waits l" using assms(1) by (simp add: Leg_free_def Leg_waits_def)
  then show ?thesis using assms Leg_send_good [of l "Submit c"]
    by (auto simp: Leg_submit_order_helper_def Leg_handle_retry_def may_retry_def Leg_free_def Leg_waits_def)
qed

lemma modify_good:
  assumes "Leg_free l" "lg_state l = LEG_CHANGING \<or> lg_state l = LEG_FINISHED" "may_retry settings env c"
  shows "leg_good (Leg_modify_order_helper dbg settings env c l)"
proof -
  have "Leg_waits l" using assms(1) by (simp add: Leg_free_def Leg_waits_def)
  then show ?thesis using assms Leg_send_good [of l "Modify c"]
    by (auto simp: Leg_modify_order_helper_def Leg_handle_retry_def may_retry_def Leg_free_def Leg_waits_def)
qed

lemma failure_good:
  assumes "Leg_free l" "lg_state l = (case cb of Submit c \<Rightarrow> LEG_CREATING | Modify c \<Rightarrow> LEG_CHANGING)"
    and "err = TOO_LATE_TO_MODIFY_OR_CANCEL \<and> cb = Modify (retries cb)"
  shows "leg_good (Leg_handle_failure dbg cb err l)"
  using assms by (cases cb) (auto simp: Leg_waits_def Leg_free_def)

lemma success_good:
  assumes "Leg_free l" "lg_state l = (case cb of Submit c \<Rightarrow> LEG_CREATING | Modify c \<Rightarrow> LEG_CHANGING)"
    and "may_retry settings env 0"
  shows "leg_good (Leg_handle_success dbg U settings env cb price l)"
proof -
  have "leg_good (Leg_modify_order_helper dbg settings env 0 (l\<lparr>lg_acked := price, lg_state := LEG_CHANGING\<rparr>))"
    using assms(1,3) by (intro modify_good) (simp_all add: Leg_free_def)
  then show ?thesis using assms(1,2) by (auto simp: Leg_handle_success_def Leg_waits_def Leg_free_def Let_def)
qed

lemma price_good:
  assumes inv: "Leg_safe U settings l" and p: "\<not> isnan price" "lg_state l \<noteq> LEG_UNDEFINED" "may_retry settings env 0"
  shows "leg_good (Leg_modify_order dbg U settings env price l)"
proof -
  have keep: "Leg_waits (l\<lparr>lg_price := q\<rparr>)" for q
    using inv by (auto simp: Leg_safe_def Leg_waits_def split: leg_callback.splits)
  have "leg_good (Leg_modify_order_helper dbg settings env 0 (l\<lparr>lg_price := q, lg_state := LEG_CHANGING\<rparr>))"
    if "lg_state l = LEG_WAITING" for q
    using inv that p(3) by (intro modify_good) (simp_all add: Leg_safe_def Leg_inv_def Leg_free_def)
  then show ?thesis using p keep by (cases "lg_state l") (auto simp: Leg_modify_order_def Let_def split: prod.split)
qed

lemma Leg_step_good:
  assumes inv: "Leg_safe U settings l" and ok: "leg_allows settings l e"
  shows "leg_good (Leg_step dbg U settings l e)"
proof -
  obtain env ev where e: "e = (env, ev)" by (cases e)
  have li: "Leg_inv U settings l" and w: "Leg_waits l" using inv by (simp_all add: Leg_safe_def)
  show ?thesis
  proof (cases ev)
    case (Market_Update r st)
    have "leg_good (Leg_submit_order_helper dbg settings env 0 (l\<lparr>lg_state := LEG_CREATING\<rparr>))" if "lg_state l = LEG_UNDEFINED"
      using li that ok e Market_Update by (intro submit_good) (simp_all add: Leg_inv_def Leg_free_def)
    then show ?thesis using w by (auto simp: e Market_Update Leg_maybe_submit_order_def Leg_submit_order_def)
  next
    case (Order_Update st)
    then show ?thesis using w ok
      by (force simp: e Leg_on_OrderUpdate_def Leg_waits_def order_waits_def split: leg_callback.splits)
  next
    case (Ack_Failure cb err)
    then show ?thesis using ok w pending_free(1) [OF li, of cb]
      by (auto simp: e Leg_waits_def intro!: failure_good)
  next
    case (Ack_Success cb p)
    then show ?thesis using ok w pending_free(1) [OF li, of cb]
      by (auto simp: e Leg_waits_def intro!: success_good)
  next
    case (Timer_Fired cb d)
    show ?thesis
    proof (cases "(cb, d) \<in> set (lg_timers l)")
      case True
      then show ?thesis using ok w timer_free(1) [OF li True] Timer_Fired
        by (cases cb) (auto simp: e Leg_waits_def intro!: submit_good modify_good)
    qed (use w Timer_Fired in \<open>simp add: e\<close>)
  next
    case (Set_Price p)
    then show ?thesis using ok price_good [OF inv] by (simp add: e)
  qed
qed

lemma Leg_step_safe:
  assumes "Leg_safe U settings l" "leg_allows settings l e"
  shows "result_all (Leg_safe U settings) (\<lambda>f. \<exists>x. f = Raised x) (Leg_step dbg U settings l e)"
  using Leg_step_good [OF assms, of dbg] assms(1) Leg_step_inv
  by (cases "Leg_step dbg U settings l e"; cases e) (auto simp: Leg_safe_def)

interpretation leg_safe: admitted_machine "Leg_step dbg U settings" "leg_allows settings" "Leg_safe U settings" "\<lambda>f. \<nexists>x. f = Raised x"
  for dbg U settings
  using Leg_step_safe by unfold_locales simp

section \<open>What the strategy relies on\<close>

definition s1_settings_ok :: "s1_settings \<Rightarrow> bool" where
  "s1_settings_ok settings \<longleftrightarrow>
     is_finite (s1_quantity settings) \<and> is_finite (s1_price_low settings) \<and> is_finite (s1_price_high settings)"

fun s1_allows :: "s1_settings \<Rightarrow> Strategy1 \<Rightarrow> leg_env \<times> s1_event \<Rightarrow> bool" where
  "s1_allows settings s (env, S1_AddMarket exchange symbol) = (exchange = s1_exchange settings \<and> symbol = s1_symbol settings)"
| "s1_allows settings s (env, S1_High ev) = (case s1_high s of None \<Rightarrow> True | Some h \<Rightarrow> leg_allows settings h (env, ev))"
| "s1_allows settings s (env, S1_Low ev) = (case s1_low s of None \<Rightarrow> True | Some l \<Rightarrow> leg_allows settings l (env, ev))"
| "s1_allows settings s (env, S1_OrderUpdate) =
     (case (s1_high s, s1_low s) of
        (Some h, Some l) \<Rightarrow> may_retry settings env 0 \<and> (Leg_finished h \<noteq> Leg_finished l \<longrightarrow> lg_state h \<noteq> LEG_UNDEFINED \<and> lg_state l \<noteq> LEG_UNDEFINED)
      | _ \<Rightarrow> False)"

definition Strategy1_safe :: "'m utils_scheme \<Rightarrow> s1_settings \<Rightarrow> Strategy1 \<Rightarrow> bool" where
  "Strategy1_safe U settings s \<longleftrightarrow> updates_ok U \<and> s1_settings_ok settings \<and>
     (\<forall>h. s1_high s = Some h \<longrightarrow> Leg_safe U settings h) \<and> (\<forall>l. s1_low s = Some l \<longrightarrow> Leg_safe U settings l)"

lemma pull_back_number:
  assumes "s1_settings_ok settings"
  shows "\<not> isnan (pull_back_from_high settings)" "\<not> isnan (pull_back_from_low settings)"
proof -
  have num: "dadd x y \<noteq> NaN" if "is_finite x" "y \<noteq> NaN" for x y using that by (cases x; cases y) simp_all
  have mul: "dmul (Fin 2) x \<noteq> NaN" if "is_finite x" for x using that by (cases x) simp_all
  have three: "\<not> isnan (ddiv x (Fin 3))" if "x \<noteq> NaN" for x using that by (cases x) (simp_all add: isnan_iff)
  have comm: "dadd x y = dadd y x" for x y by (cases x; cases y) (simp_all add: add.commute)
  show "\<not> isnan (pull_back_from_high settings)" "\<not> isnan (pull_back_from_low settings)"
    using assms num mul three comm unfolding pull_back_from_high_def pull_back_from_low_def s1_settings_ok_def by metis+
qed

lemma Leg_new_safe:
  assumes "updates_ok U" "sd \<noteq> Side_UNDEFINED" "is_finite q" "is_finite p"
  shows "result_all (Leg_safe U settings) (\<lambda>f. False) (Leg_new dbg sd q p)"
proof -
  have nan: "\<not> isnan q" "\<not> isnan p" using assms(3,4) by (auto elim: is_finite.elims)
  then obtain l where l: "Leg_new dbg sd q p = Inr l" "Leg_waits l" using assms(2) by (simp add: Leg_new_def Leg_waits_def)
  then show ?thesis using assms(1) Leg_new_inv [OF l(1)] by (simp add: Leg_safe_def)
qed

lemma Leg_price_safe:
  assumes "Leg_safe U settings l" "\<not> isnan price" "lg_state l \<noteq> LEG_UNDEFINED" "may_retry settings env 0"
  shows "result_all (Leg_safe U settings) (\<lambda>f. \<exists>x. f = Raised x) (Leg_modify_order dbg U settings env price l)"
  using Leg_step_safe [OF assms(1), of "(env, Set_Price price)" dbg] assms(2-4) by simp

lemma Strategy1_step_safe:
  assumes inv: "Strategy1_safe U settings s" and ok: "s1_allows settings s e"
  shows "result_all (Strategy1_safe U settings) (\<lambda>f. \<exists>x. f = Raised x) (Strategy1_step dbg U settings s e)"
proof -
  obtain env ev where e: "e = (env, ev)" by (cases e)
  have U: "updates_ok U" and S: "s1_settings_ok settings" using inv by (simp_all add: Strategy1_safe_def)
  note fin = S [unfolded s1_settings_ok_def]
  show ?thesis
  proof (cases ev)
    case (S1_AddMarket exchange symbol)
    obtain h where h: "Leg_new dbg SELL (s1_quantity settings) (s1_price_high settings) = Inr h" "Leg_safe U settings h"
      using Leg_new_safe [OF U, of SELL "s1_quantity settings" "s1_price_high settings" settings dbg] fin
      by (cases "Leg_new dbg SELL (s1_quantity settings) (s1_price_high settings)") simp_all
    obtain l where l: "Leg_new dbg BUY (s1_quantity settings) (s1_price_low settings) = Inr l" "Leg_safe U settings l"
      using Leg_new_safe [OF U, of BUY "s1_quantity settings" "s1_price_low settings" settings dbg] fin
      by (cases "Leg_new dbg BUY (s1_quantity settings) (s1_price_low settings)") simp_all
    show ?thesis using h l ok inv by (simp add: e S1_AddMarket Strategy1_on_AddMarket_def Strategy1_safe_def)
  next
    case (S1_High lev)
    then show ?thesis using inv ok Leg_step_safe [of U settings _ "(env, lev)" dbg]
      by (cases "s1_high s") (auto simp: e Strategy1_safe_def intro!: result_all_bind)
  next
    case (S1_Low lev)
    then show ?thesis using inv ok Leg_step_safe [of U settings _ "(env, lev)" dbg]
      by (cases "s1_low s") (auto simp: e Strategy1_safe_def intro!: result_all_bind)
  next
    case S1_OrderUpdate
    obtain h l where hl: "s1_high s = Some h" "s1_low s = Some l" "may_retry settings env 0"
        "Leg_finished h \<noteq> Leg_finished l \<longrightarrow> lg_state h \<noteq> LEG_UNDEFINED \<and> lg_state l \<noteq> LEG_UNDEFINED"
      using ok e S1_OrderUpdate by (auto split: option.splits)
    have legs: "Leg_safe U settings h" "Leg_safe U settings l" using inv hl by (simp_all add: Strategy1_safe_def)
    show ?thesis
      using hl inv Leg_price_safe [OF legs(1) pull_back_number(2) [OF S]] Leg_price_safe [OF legs(2) pull_back_number(1) [OF S]]
      by (auto simp: e S1_OrderUpdate Strategy1_on_OrderUpdate_def Strategy1_safe_def intro!: result_all_bind)
  qed
qed

interpretation s1_safe: admitted_machine "Strategy1_step dbg U settings" "s1_allows settings" "Strategy1_safe U settings"
  "\<lambda>f. \<nexists>x. f = Raised x" for dbg U settings
  using Strategy1_step_safe by unfold_locales simp

section \<open>Properties\<close>

text \<open>
  C20: With finite quantity and prices, in a session that keeps the promises the strategy relies on (the added market is the
  configured one; an order is not completed while a request about it waits; no request is refused but a modification that
  is too late; the rate limiter is ready again within the number of retries; an order update comes when both legs exist, and
  the first completion when both have started), no assertion fails in either build, there is no fatal error and no
  undefined behaviour (no empty pointer is used): the only early end is an exception of an order object.
\<close>

theorem Strategy1_no_failure:
  assumes "updates_ok U" "s1_settings_ok settings"
    and "admitted (Strategy1_step dbg U settings) (s1_allows settings) Strategy1_new es"
  shows "(\<exists>s. run (Strategy1_step dbg U settings) Strategy1_new es = Inr s) \<or>
    (\<exists>x. run (Strategy1_step dbg U settings) Strategy1_new es = Inl (Raised x))"
proof -
  have "Strategy1_safe U settings Strategy1_new" using assms(1,2) by (simp add: Strategy1_safe_def Strategy1_new_def)
  from s1_safe.run_admitted [OF this assms(3)] show ?thesis
    by (cases "run (Strategy1_step dbg U settings) Strategy1_new es") auto
qed

text \<open>Both legs are submitted, the low one after a retry; the high one is filled and the low one is moved.\<close>

definition s1_demo_session :: "(leg_env \<times> s1_event) list" where
  "s1_demo_session = map (\<lambda>e. (leg_demo_env, e))
       [S1_AddMarket ''deribit'' ''BTC-PERPETUAL'', S1_High (Market_Update True OPEN)] @
     [(leg_busy_env, S1_Low (Market_Update True OPEN))] @ map (\<lambda>e. (leg_demo_env, e))
     [S1_High (Ack_Success (Submit 0) (Fin 120)), S1_Low (Timer_Fired (Submit 0) (seconds 1)), S1_Low (Ack_Success (Submit 1) (Fin 90)),
      S1_High (Order_Update COMPLETED), S1_OrderUpdate, S1_Low (Ack_Success (Modify 0) (Fin 110))]"

lemmas s1_demo_eval = leg_eval s1_demo_session_def Strategy1_new_def Strategy1_on_AddMarket_def Leg_new_def
  Strategy1_on_OrderUpdate_def Leg_finished_def pull_back_from_high_def may_retry_def order_waits_def

lemma s1_demo_session_admitted:
  "admitted (Strategy1_step True exact_utils s1_demo_settings) (s1_allows s1_demo_settings) Strategy1_new s1_demo_session"
  by (simp add: s1_demo_eval)

theorem Strategy1_no_failure_witness:
  "\<exists>s l. run (Strategy1_step True exact_utils s1_demo_settings) Strategy1_new s1_demo_session = Inr s \<and>
     s1_low s = Some l \<and> lg_state l = LEG_WAITING \<and> lg_acked l = Fin 110"
proof -
  have ok: "s1_settings_ok s1_demo_settings" by (simp add: s1_settings_ok_def s1_demo_settings_def)
  have no: "run (Strategy1_step True exact_utils s1_demo_settings) Strategy1_new s1_demo_session \<noteq> Inl (Raised x)" for x
    by (simp add: s1_demo_eval)
  obtain s where s: "run (Strategy1_step True exact_utils s1_demo_settings) Strategy1_new s1_demo_session = Inr s"
    using Strategy1_no_failure [OF exact_utils_updates_ok ok s1_demo_session_admitted] no by blast
  then have "\<exists>l. s1_low s = Some l \<and> lg_state l = LEG_WAITING \<and> lg_acked l = Fin 110" by (auto simp: s1_demo_eval)
  then show ?thesis using s by blast
qed

text \<open>
  An order that is completed while a modification is on the way: the answer, "too late to modify", is one that the code
  handles, but the handler first asserts that the leg is still changing, and the update has made it finished.
\<close>

theorem Leg_completed_before_modify_ack:
  assumes "lg_state l = LEG_CHANGING" "lg_pending l = [Modify c]"
  shows "run (Leg_step True U settings) l
      [(env, Order_Update COMPLETED), (env, Ack_Failure (Modify c) TOO_LATE_TO_MODIFY_OR_CANCEL)] = Inl Assertion_Failed"
  using assms by (simp add: machine_defs assert_then_def)

end
