(* ===== verification/Spec2Isabelle.thy ===== *)
theory Spec2Isabelle
  imports E3_Typed Import_Processor Import_Base64 Event_Log Rest_Session Gateway Maker_Exchange Polling_Exchange
    E3_Exchange Maker_Position S1_Safe
begin

text \<open>
  A verification of the roq C++ samples (\<open>src/roq/samples\<close>) and of the algo library they contain
  (\<open>src/roq/algo\<close>): trading and market data clients written against the roq client library. A
  client is an object with one handler per message type. The library reads messages from the
  gateways and calls the handlers one after the other; a handler changes the state of the object
  and sends requests through a dispatcher.

  \<^bold>\<open>How the code is modelled.\<close> The state of a class is a record, an enumeration a datatype, a
  method a function from the old state to the new one. A handler returns a \<open>result\<close>: the new
  state, or the way it leaves otherwise (a failed assertion, \<open>log::fatal\<close>, undefined behaviour, an
  exception). Assertions depend on the argument \<open>dbg\<close>, the kind of build. A session of a client
  is \<open>run step s events\<close>. Requests are recorded in the state in the order they are sent. Order
  ids, sources and counters are machine words. A \<open>double\<close> is a value of \<open>Roq_Double\<close>: a rational,
  the infinities or not-a-number, and every operation rounds to the nearest binary64 value. Times
  are integers in nanoseconds. What is not in the repository is a parameter, with what is relied on
  as a named hypothesis: the dispatcher (part of every event: it may throw), the helpers of
  \<open>roq::utils\<close> (\<open>updates_ok\<close> and its parts \<open>update_law\<close>, \<open>update_max_law\<close>), the order book caches, the JSON and
  base libraries, the readers of event logs, the web server, the Python interpreter. The command
  line settings are arguments.

  \<^bold>\<open>Library.\<close>
  \<^item> \<open>Roq_Double\<close>: binary64 arithmetic with round-to-nearest-even; monotonicity, exactness, and that
    every operation gives a value of the type (rounding is idempotent).
  \<^item> \<open>Roq_Prelude\<close>: results, runs, and the contracts several components promise, as locales:
    \<open>event_machine\<close> (an invariant that every handler keeps), \<open>guarded_machine\<close> and \<open>safe_machine\<close> (and
    some failures are ruled out, for legal events or for all), \<open>protocol_machine\<close> (the same for
    sessions that follow a protocol, as a simulation), \<open>admitted_machine\<close> (the most general one: what is
    allowed depends on the state), \<open>order_id_source\<close> (order ids are never
    recycled). They are interpreted on the instruments, strategy 1, the bridge, the web controllers,
    the market maker, the polling client and examples 2, 3 and 8.
  \<^item> \<open>Order_Protocol\<close>: what a gateway promises about orders, as a view computed from the traffic (the
    sides, the orders that may be worked, the requests without an answer), and the contract of a client in such
    an environment, the locale \<open>watched_machine\<close>, interpreted on the market maker, the polling
    client and example 3.
  \<^item> \<open>Roq_API\<close>: the messages, requests and helpers of the packages the samples are written against.

  \<^bold>\<open>Trading clients.\<close>
  \<^item> \<open>E3_Model\<close>, \<open>E3_Instrument\<close>, \<open>E3_Strategy\<close> (\<open>example-3\<close>): a moving average crossover. The
    averages are monotone in binary64; when exactly each signal is given; the ready flag is exact when it is
    evaluated; the position follows the fills, and how a repeated one counts twice; an
    order is only sent when it should be, there is at most one working order, ids increase.
    \<open>E3_Typed\<close>: the state and the requests stay well typed. \<open>Gateway\<close>: for sessions that follow the
    protocol of a gateway examples 2 and 3 fail no assertion, and example 3 is fatal exactly on a crossed
    book. \<open>E3_Exchange\<close>: at most one order of the program is at the exchange, as long as no completion is sent
    again and none is about another order.
  \<^item> \<open>Maker_Quote\<close>, \<open>Maker\<close>, \<open>Maker_Props\<close> (\<open>maker/main.cpp\<close>): the rate limiter, the state machine
    of a quote, and the strategy that owns two of them. Requests have their reason, the rate is
    bounded, assertions hold, prices do not cross; the boundary case in which the limiter fails. \<open>Maker_Exchange\<close>: over a
    gateway that answers in an orderly way there is no fatal error and at most one order per side; what
    happens when a fill overtakes an acknowledgement. \<open>Maker_Position\<close>: the position is the sum of the
    completions that were reported, rounded as they arrive.
  \<^item> \<open>Polling\<close> (\<open>polling\<close>): a state machine driven by a dispatch loop; when it sends, and that it
    reaches its stop. \<open>Polling_Exchange\<close>: the loop is a run over a stream of events, and over a gateway that
    answers in time it walks one order through its life cycle.
  \<^item> \<open>S1_Leg\<close>, \<open>S1_Strategy\<close>, \<open>S1_Controller\<close> (\<open>strategy-1\<close>): an order with asynchronous
    acknowledgements and bounded retries, two of them, and the dispatch loop, which is a run of
    the strategy library's bridge over a stream of events read off its inputs. The retry after a refusal by
    the exchange's rate limit uses a dead object and is undefined behaviour in the model; the retries that work
    are those of the program's own rate limiter. \<open>S1_Safe\<close>: no failure
    in a session that keeps the promises the strategy relies on.
  \<^item> \<open>Algo_Framework\<close>, \<open>Algo_Strategies\<close>, \<open>Algo_Bridge\<close>, \<open>Algo_Props\<close> (\<open>algo\<close>, \<open>algo-proto\<close>): the
    framework, the spread strategy, and the bridge that connects them to the client library. The
    interface between a strategy and the bridge is the locale \<open>order_dispatcher\<close>, interpreted on the
    bridge. Every request goes to the source its order was created at; a configuration that
    parses has a route for each of its instruments. \<open>Algo_Safe\<close>: the prices of the spread strategy, and
    the invariant that rules out every failure but an exception of the dispatcher.
  \<^item> \<open>E8\<close> (\<open>example-8\<close>): a latency probe with a bounded number of orders.

  \<^bold>\<open>Market data clients and tools.\<close>
  \<^item> \<open>E2\<close> (\<open>example-2\<close>): two instruments; the strategy is refined by two independent ones.
  \<^item> \<open>Clients\<close> (\<open>example-6\<close>, \<open>example-7\<close>, \<open>minimal\<close>), \<open>Depth\<close> (\<open>depth\<close>: an update goes on exactly
    when the two books agree), \<open>Publishers\<close> (\<open>republish\<close>,
    \<open>python\<close>, \<open>example-9\<close>, \<open>metrics\<close>), \<open>Loggers\<close> (\<open>example-1\<close>, \<open>example-4\<close>, \<open>bridge\<close>), \<open>Configs\<close> (what every
    sample announces to the library).
  \<^item> \<open>Producer\<close> (\<open>example-5\<close>): two threads as a step relation; stopping terminates.
  \<^item> \<open>Event_Log\<close> (\<open>event-log\<close>, \<open>vwap\<close>): loops that may run for ever, as partial functions.
  \<^item> \<open>Import_Base64\<close>, \<open>Import_Processor\<close> (\<open>import\<close>): the encoder with its raw buffers equals a
    reference definition and round-trips; the log that is written can be replayed.
  \<^item> \<open>Web_Session\<close>, \<open>Rest_Session\<close>, \<open>Web_Controllers\<close> (\<open>io-context\<close>, \<open>rest\<close>): a subscription server and a
    polling REST client; the two copies of the session are equivalent.
  \<^item> \<open>Applications\<close> (\<open>application.cpp\<close> of every sample): the check of the arguments, the configuration
    and the session composed. The algo prototype as a whole starts and stays safe.

  \<^bold>\<open>Loops and bounds.\<close> The dispatch loops of \<open>polling\<close> and \<open>strategy-1\<close> take the list of their
  rounds (clock readings and deliveries) as input, so a prefix of an endless loop is a finite
  run. The loops over layers, bytes and dispatches recurse on their data or have a measure. The
  loops of the event log reader are \<open>partial_function (option)\<close>: not returning is the value \<open>None\<close>,
  and that they return is a theorem.

  \<^bold>\<open>Not modelled.\<close> \<open>main.cpp\<close> parses the command line with the flags library and runs the
  application; settings and flags are generated from flags files. What a log line looks like after
  formatting and the yield to the scheduler have no effect on the state. The constructors that only
  pass options to a library (the order book caches, the sender and the listener of \<open>io-context\<close>, the
  encoder of \<open>import\<close>, the Python module) belong to the parameter that stands for the library.
\<close>

end
